(* ===== verification/Prelude.thy ===== *)
theory Prelude
imports Main "HOL-Library.Word"
begin

text \<open>
  Shared vocabulary of the development.

  Bytes are \<open>8 word\<close>s and a Rust \<open>String\<close> is the list of its UTF-8 bytes written as
  HOL characters, so that \<open>length\<close> is Rust's \<open>len()\<close>. A fallible function returns
  \<open>'a res\<close>: \<open>Inl (Error m)\<close> is an \<open>Err(m)\<close> the caller sees, \<open>Inl (Panic m)\<close> is a
  panic, \<open>Inr x\<close> is \<open>Ok(x)\<close>. The lemmas below are the generic facts on results, byte
  strings, big-endian numerals and fixed-width integers that the components share.
\<close>

section \<open>Types\<close>

type_synonym byte = "8 word"
type_synonym bytes = "byte list"

datatype fault = Error string | Panic string

type_synonym 'a res = "fault + 'a"

section \<open>Results\<close>

named_theorems res_inv \<open>inversion of successful results\<close>
named_theorems byte_simps \<open>conversions between bytes, characters and numbers\<close>

fun bindR :: "'a res \<Rightarrow> ('a \<Rightarrow> 'b res) \<Rightarrow> 'b res" where
  "bindR (Inl e) f = Inl e"
| "bindR (Inr x) f = f x"

fun is_ok :: "'a res \<Rightarrow> bool" where
  "is_ok (Inl _) = False"
| "is_ok (Inr _) = True"

fun is_panic :: "'a res \<Rightarrow> bool" where
  "is_panic (Inl (Panic _)) = True"
| "is_panic _ = False"

fun guardR :: "bool \<Rightarrow> string \<Rightarrow> unit res" where
  "guardR True m = Inr ()"
| "guardR False m = Inl (Error m)"

fun of_option :: "string \<Rightarrow> 'a option \<Rightarrow> 'a res" where
  "of_option m None = Inl (Error m)"
| "of_option m (Some x) = Inr x"

lemma bindR_Inr [res_inv]: "bindR m f = Inr y \<longleftrightarrow> (\<exists>x. m = Inr x \<and> f x = Inr y)"
  by (cases m) auto

lemma guardR_Inr [res_inv]: "guardR b m = Inr u \<longleftrightarrow> b"
  by (cases b) auto

lemma of_option_Inr [res_inv]: "of_option m v = Inr y \<longleftrightarrow> v = Some y"
  by (cases v) auto

lemma guardR_if: "guardR b m = (if b then Inr () else Inl (Error m))"
  by (cases b) auto

lemma bindR_cong [fundef_cong]:
  "m = m' \<Longrightarrow> (\<And>x. m' = Inr x \<Longrightarrow> f x = f' x) \<Longrightarrow> bindR m f = bindR m' f'"
  by (cases m') auto

lemma is_panic_bindR: "is_panic (bindR m f) \<longleftrightarrow> is_panic m \<or> (\<exists>x. m = Inr x \<and> is_panic (f x))"
proof (cases m)
  case (Inl e)
  then show ?thesis by (cases e) auto
qed simp

lemma is_ok_iff: "is_ok m \<longleftrightarrow> (\<exists>x. m = Inr x)"
  by (cases m) auto

section \<open>Characters and bytes\<close>

definition byte_of_char :: "char \<Rightarrow> byte" where
  "byte_of_char c = word_of_nat (of_char c)"

definition char_of_byte :: "byte \<Rightarrow> char" where
  "char_of_byte b = char_of (unat b)"

definition as_bytes :: "string \<Rightarrow> bytes" where
  "as_bytes s = map byte_of_char s"

definition of_bytes :: "bytes \<Rightarrow> string" where
  "of_bytes bs = map char_of_byte bs"

lemma of_char_less: "(of_char c :: nat) < 256"
  using of_char_mod_256 [of c, where ?'a = nat] by (metis mod_less_divisor zero_less_numeral)

lemma unat_byte_less [byte_simps, simp]: "unat (b :: byte) < 256"
  using unsigned_less [of b, where ?'a = nat] by simp

lemma unat_byte_le: "unat (b :: byte) \<le> 255"
  using unat_byte_less [of b] by linarith

lemma inj_unat: "inj (unat :: byte \<Rightarrow> nat)"
  by (rule injI) (rule unsigned_word_eqI)

lemma map_unat_inject: "map unat (a :: bytes) = map unat b \<longleftrightarrow> a = b"
  using inj_map_eq_map [OF inj_unat] .

lemma unat_byte_div16: "unat (b :: byte) div 16 < 16"
  by (rule less_mult_imp_div_less) simp

lemma unat_byte_of_char [byte_simps]: "unat (byte_of_char c) = of_char c"
  by (simp add: byte_of_char_def unat_of_nat of_char_less)

lemma char_of_byte_of_char [simp]: "char_of_byte (byte_of_char c) = c"
  by (simp add: char_of_byte_def unat_byte_of_char)

lemma byte_of_char_of_byte [simp]: "byte_of_char (char_of_byte b) = b"
  by (simp add: char_of_byte_def byte_of_char_def)

lemma of_bytes_as_bytes [simp]: "of_bytes (as_bytes s) = s"
  by (simp add: of_bytes_def as_bytes_def comp_def)

lemma as_bytes_of_bytes [simp]: "as_bytes (of_bytes bs) = bs"
  by (simp add: of_bytes_def as_bytes_def comp_def)

lemma length_as_bytes [simp]: "length (as_bytes s) = length s"
  by (simp add: as_bytes_def)

lemma length_of_bytes [simp]: "length (of_bytes s) = length s"
  by (simp add: of_bytes_def)

lemma as_bytes_append [simp]: "as_bytes (s @ t) = as_bytes s @ as_bytes t"
  by (simp add: as_bytes_def)

lemma as_bytes_inject [simp]: "as_bytes s = as_bytes t \<longleftrightarrow> s = t"
  by (metis of_bytes_as_bytes)

lemma word8_of_nat_unat [byte_simps]: "n < 256 \<Longrightarrow> unat (word_of_nat n :: byte) = n"
  by (simp add: unat_of_nat)

text \<open>A continuation byte of UTF-8, i.e. not the first byte of a character.\<close>

definition is_cont :: "char \<Rightarrow> bool" where
  "is_cont c = (128 \<le> (of_char c :: nat) \<and> (of_char c :: nat) < 192)"

text \<open>\<open>String::from_utf8\<close>: well-formed UTF-8 as the standard library accepts it (no overlong
  forms, no surrogates, nothing above U+10FFFF).\<close>

fun cont_in :: "nat \<Rightarrow> nat \<Rightarrow> nat list \<Rightarrow> bool" where
  "cont_in lo hi [] = False"
| "cont_in lo hi (c # cs) = (lo \<le> c \<and> c \<le> hi)"

fun utf8_go :: "nat \<Rightarrow> nat list \<Rightarrow> bool" where
  "utf8_go (Suc k) (c # cs) = (128 \<le> c \<and> c \<le> 191 \<and> utf8_go k cs)"
| "utf8_go (Suc k) [] = False"
| "utf8_go 0 [] = True"
| "utf8_go 0 (b # bs) =
     (if b < 128 then utf8_go 0 bs
      else if 194 \<le> b \<and> b \<le> 223 then utf8_go 1 bs
      else if b = 224 then cont_in 160 191 bs \<and> utf8_go 2 bs
      else if b = 237 then cont_in 128 159 bs \<and> utf8_go 2 bs
      else if 225 \<le> b \<and> b \<le> 239 then utf8_go 2 bs
      else if b = 240 then cont_in 144 191 bs \<and> utf8_go 3 bs
      else if 241 \<le> b \<and> b \<le> 243 then utf8_go 3 bs
      else if b = 244 then cont_in 128 143 bs \<and> utf8_go 3 bs
      else False)"

definition utf8_valid :: "bytes \<Rightarrow> bool" where
  "utf8_valid bs = utf8_go 0 (map unat bs)"

definition from_utf8 :: "bytes \<Rightarrow> string option" where
  "from_utf8 bs = (if utf8_valid bs then Some (of_bytes bs) else None)"

section \<open>Big-endian numerals\<close>

definition be_val :: "nat \<Rightarrow> nat list \<Rightarrow> nat" where
  "be_val b ds = foldl (\<lambda>a d. a * b + d) 0 ds"

lemma be_val_Nil [simp]: "be_val b [] = 0"
  by (simp add: be_val_def)

lemma be_val_snoc [simp]: "be_val b (ds @ [d]) = be_val b ds * b + d"
  by (simp add: be_val_def)

lemma be_val_append: "be_val b (ds @ es) = be_val b ds * b ^ length es + be_val b es"
proof (induction es rule: rev_induct)
  case (snoc e es)
  have "be_val b (ds @ es @ [e]) = be_val b (ds @ es) * b + e"
    using be_val_snoc [of b "ds @ es" e] by simp
  with snoc show ?case by (simp add: algebra_simps)
qed simp

lemma be_val_Cons: "be_val b (d # ds) = d * b ^ length ds + be_val b ds"
  using be_val_append [of b "[d]" ds] by (simp add: be_val_def)

lemma be_val_zero_Cons [simp]: "be_val b (0 # ds) = be_val b ds"
  by (simp add: be_val_Cons)

lemma be_val_replicate_zero [simp]: "be_val b (replicate n 0 @ ds) = be_val b ds"
  by (induction n) auto

lemma be_val_dropWhile_zero [simp]: "be_val b (dropWhile (\<lambda>d. d = 0) ds) = be_val b ds"
  by (induction ds) auto

lemma be_val_less: "\<forall>d \<in> set ds. d < b \<Longrightarrow> be_val b ds < b ^ length ds"
proof (induction ds rule: rev_induct)
  case (snoc d ds)
  then have "be_val b ds + 1 \<le> b ^ length ds" "d < b" by auto
  then have "(be_val b ds + 1) * b \<le> b ^ length ds * b" by (intro mult_right_mono) auto
  with \<open>d < b\<close> show ?case by (simp add: algebra_simps)
qed simp

lemma be_val_pos:
  assumes "ds \<noteq> []" "hd ds \<noteq> 0" "0 < b"
  shows "0 < be_val b ds"
  using assms by (cases ds) (auto simp: be_val_Cons)

lemma be_val_eq_0: "0 < b \<Longrightarrow> be_val b ds = 0 \<longleftrightarrow> (\<forall>d \<in> set ds. d = 0)"
  by (induction ds) (auto simp: be_val_Cons)

text \<open>Digit lists without a leading zero are determined by their value.\<close>

definition canon :: "nat \<Rightarrow> nat list \<Rightarrow> bool" where
  "canon b ds = ((\<forall>d \<in> set ds. d < b) \<and> (ds \<noteq> [] \<longrightarrow> hd ds \<noteq> 0))"

lemma canon_snocD: "canon b (ds @ [d]) \<Longrightarrow> canon b ds"
  by (cases ds) (auto simp: canon_def)

lemma canon_be_val_inj:
  assumes "canon b ds" "canon b es" "be_val b ds = be_val b es" "0 < b"
  shows "ds = es"
  using assms
proof (induction ds arbitrary: es rule: rev_induct)
  case Nil
  then show ?case using be_val_pos [of es b] by (cases es) (auto simp: canon_def)
next
  case (snoc d ds)
  show ?case
  proof (cases es rule: rev_cases)
    case Nil
    then show ?thesis using snoc.prems be_val_pos [of "ds @ [d]" b]
      by (auto simp: canon_def)
  next
    case (snoc es' e)
    have lt: "d < b" "e < b" using snoc.prems snoc by (auto simp: canon_def)
    have eq: "be_val b ds * b + d = be_val b es' * b + e"
      using snoc.prems snoc by simp
    have "(be_val b ds * b + d) div b = be_val b ds" "(be_val b es' * b + e) div b = be_val b es'"
      "(be_val b ds * b + d) mod b = d" "(be_val b es' * b + e) mod b = e"
      using lt by auto
    with eq have "be_val b ds = be_val b es'" and "d = e" by metis+
    then show ?thesis
      using snoc.IH [of es'] snoc.prems snoc canon_snocD by blast
  qed
qed

text \<open>Fixed-width big-endian encodings: \<open>to_be_bytes\<close> and \<open>from_be_bytes\<close>.\<close>

primrec to_be :: "nat \<Rightarrow> nat \<Rightarrow> bytes" where
  "to_be 0 n = []"
| "to_be (Suc k) n = to_be k (n div 256) @ [word_of_nat (n mod 256)]"

definition from_be :: "bytes \<Rightarrow> nat" where
  "from_be bs = be_val 256 (map unat bs)"

lemma length_to_be [simp]: "length (to_be k n) = k"
  by (induction k arbitrary: n) auto

lemma from_to_be: "n < 256 ^ k \<Longrightarrow> from_be (to_be k n) = n"
proof (induction k arbitrary: n)
  case (Suc k)
  then have "n div 256 < 256 ^ k" by (simp add: div_less_iff_less_mult mult.commute)
  then show ?case using Suc.IH [of "n div 256"] by (simp add: from_be_def word8_of_nat_unat)
qed (simp add: from_be_def)

lemma from_be_less: "from_be bs < 256 ^ length bs"
  using be_val_less [of "map unat bs" 256] by (simp add: from_be_def)

section \<open>Machine integers\<close>

text \<open>The number of bits of a number, and \<open>leading_zeros()\<close> at width \<open>w\<close>.\<close>

fun bit_len :: "nat \<Rightarrow> nat" where
  "bit_len n = (if n = 0 then 0 else Suc (bit_len (n div 2)))"

declare bit_len.simps [simp del]

definition leading_zeros :: "nat \<Rightarrow> nat \<Rightarrow> nat" where
  "leading_zeros w n = w - bit_len n"

lemma bit_len_0 [simp]: "bit_len 0 = 0"
  by (simp add: bit_len.simps)

lemma bit_len_bounds: "0 < n \<Longrightarrow> 0 < bit_len n \<and> 2 ^ (bit_len n - 1) \<le> n \<and> n < 2 ^ bit_len n"
proof (induction n rule: bit_len.induct)
  case (1 n)
  show ?case
  proof (cases "n div 2 = 0")
    case True
    then have "n = 1" using 1 by (simp add: div_eq_0_iff)
    then show ?thesis by (simp add: bit_len.simps)
  next
    case False
    then have IH: "0 < bit_len (n div 2)" "2 ^ (bit_len (n div 2) - 1) \<le> n div 2"
        "n div 2 < 2 ^ bit_len (n div 2)"
      using 1 by auto
    obtain k where k: "bit_len (n div 2) = Suc k" using IH(1) by (cases "bit_len (n div 2)") auto
    have "2 ^ k \<le> n div 2" "n div 2 < 2 * 2 ^ k" using IH by (simp_all add: k)
    then have "2 * 2 ^ k \<le> n" "n < 2 * (2 * 2 ^ k)" by linarith+
    then show ?thesis using 1(2) by (simp add: bit_len.simps [of n] k)
  qed
qed

lemma bit_len_le: "n < 2 ^ k \<Longrightarrow> bit_len n \<le> k"
proof (cases "n = 0")
  case False
  assume "n < 2 ^ k"
  then have "(2 :: nat) ^ (bit_len n - 1) < 2 ^ k" using bit_len_bounds [of n] False by linarith
  then show ?thesis by simp
qed simp

lemma bit_len_ge: "2 ^ k \<le> n \<Longrightarrow> Suc k \<le> bit_len n"
proof -
  assume k: "2 ^ k \<le> n"
  then have "0 < n" by (metis gr_zeroI le_zero_eq power_not_zero zero_neq_numeral)
  then have "(2 :: nat) ^ k < 2 ^ bit_len n" using k bit_len_bounds [of n] by linarith
  then show ?thesis by simp
qed

text \<open>Slicing \<open>bs[a..b]\<close>, which panics out of range.\<close>

definition slice :: "'a list \<Rightarrow> nat \<Rightarrow> nat \<Rightarrow> 'a list res" where
  "slice bs a b = (if a \<le> b \<and> b \<le> length bs then Inr (take (b - a) (drop a bs))
     else Inl (Panic ''range out of bounds for slice''))"

section \<open>Lists\<close>

lemma takeWhile_replicate_append:
  "ds \<noteq> [] \<Longrightarrow> hd ds \<noteq> x \<Longrightarrow> takeWhile (\<lambda>d. d = x) (replicate n x @ ds) = replicate n x"
  by (induction n) (auto simp: neq_Nil_conv)

lemma takeWhile_eq_replicate: "takeWhile (\<lambda>d. d = x) xs = replicate (length (takeWhile (\<lambda>d. d = x) xs)) x"
  by (induction xs) auto

lemma split_leading:
  "replicate (length (takeWhile (\<lambda>d. d = x) xs)) x @ dropWhile (\<lambda>d. d = x) xs = xs"
  by (metis takeWhile_eq_replicate takeWhile_dropWhile_id)

lemma hd_dropWhile_neq: "dropWhile (\<lambda>d. d = x) xs \<noteq> [] \<Longrightarrow> hd (dropWhile (\<lambda>d. d = x) xs) \<noteq> x"
  using hd_dropWhile [of "\<lambda>d. d = x" xs] by blast

end
