(* ===== verification/Interfaces.thy ===== *)
theory Interfaces
imports Prelude
begin

text \<open>
  The contracts several components share, as locales; each is interpreted, in the theory of
  the component that provides it, on the functions that model the code.

  \<^item> \<open>codec\<close>, \<open>canonical_codec\<close>, \<open>padding\<close>: an encoder with a partial decoder, one whose
    decoder accepts nothing but encodings, and one whose output length depends on the input
    length through a bucket function only.
  \<^item> \<open>keyed_store\<close>: records kept in a list and updated at the first one with a given key.
  \<^item> \<open>invariant_system\<close>: a state whose operations all keep an invariant.
\<close>

section \<open>Codecs\<close>

locale codec =
  fixes enc :: "'a \<Rightarrow> 'b" and dec :: "'b \<Rightarrow> 'a res" and valid :: "'a \<Rightarrow> bool"
  assumes dec_enc: "valid x \<Longrightarrow> dec (enc x) = Inr x"
begin

lemma enc_inject: "valid x \<Longrightarrow> valid y \<Longrightarrow> enc x = enc y \<longleftrightarrow> x = y"
  using dec_enc by (metis sum.inject(2))

lemma dec_enc_ok: "valid x \<Longrightarrow> is_ok (dec (enc x))"
  by (simp add: dec_enc)

end

locale canonical_codec = codec +
  assumes enc_dec: "dec y = Inr x \<Longrightarrow> valid x \<and> enc x = y"
begin

lemma dec_iff: "dec y = Inr x \<longleftrightarrow> valid x \<and> y = enc x"
  using dec_enc enc_dec by blast

lemma dec_inject: "dec y = Inr x \<Longrightarrow> dec z = Inr x \<Longrightarrow> y = z"
  using enc_dec by blast

end

locale padding = codec enc dec valid
  for enc :: "bytes \<Rightarrow> bytes" and dec :: "bytes \<Rightarrow> bytes res" and valid :: "bytes \<Rightarrow> bool" +
  fixes bucket :: "nat \<Rightarrow> nat"
  assumes length_enc: "valid x \<Longrightarrow> length (enc x) = bucket (length x)"
begin

lemma same_bucket:
  "valid x \<Longrightarrow> valid y \<Longrightarrow> bucket (length x) = bucket (length y) \<Longrightarrow> length (enc x) = length (enc y)"
  by (simp add: length_enc)

end

section \<open>Keyed stores\<close>

locale keyed_store =
  fixes key :: "'r \<Rightarrow> 'k"
    and get :: "'k \<Rightarrow> 's \<Rightarrow> 'r option"
    and upd :: "'k \<Rightarrow> ('r \<Rightarrow> 'r) \<Rightarrow> 's \<Rightarrow> 's"
  assumes get_key: "get k s = Some r \<Longrightarrow> key r = k"
    and get_upd: "(\<And>r. key (f r) = key r) \<Longrightarrow>
      get j (upd k f s) = (if j = k then map_option f (get k s) else get j s)"
begin

lemma get_upd_same: "(\<And>r. key (f r) = key r) \<Longrightarrow> get k (upd k f s) = map_option f (get k s)"
  by (simp add: get_upd)

lemma get_upd_other: "(\<And>r. key (f r) = key r) \<Longrightarrow> j \<noteq> k \<Longrightarrow> get j (upd k f s) = get j s"
  by (simp add: get_upd)

lemma upd_keeps:
  assumes "\<And>r. key (f r) = key r" "\<And>r. get k s = Some r \<Longrightarrow> P (f r)"
    and "get j s = Some r" "P r" "get j (upd k f s) = Some r'"
  shows "P r'"
  using assms by (auto simp: get_upd split: if_splits)

lemma get_upd_upd:
  assumes "\<And>r. key (f r) = key r" "\<And>r. key (g r) = key r"
  shows "get j (upd k g (upd k f s)) = get j (upd k (\<lambda>r. g (f r)) s)"
  using assms by (cases "get k s") (auto simp: get_upd)

end

section \<open>Systems that keep an invariant\<close>

locale invariant_system =
  fixes inv :: "'s \<Rightarrow> bool" and step :: "'s \<Rightarrow> 's \<Rightarrow> bool"
  assumes step_inv: "inv s \<Longrightarrow> step s t \<Longrightarrow> inv t"
begin

lemma run_inv: "step\<^sup>*\<^sup>* s t \<Longrightarrow> inv s \<Longrightarrow> inv t"
  by (induction rule: rtranclp_induct) (auto intro: step_inv)

lemma run_keeps: "step\<^sup>*\<^sup>* s t \<Longrightarrow> inv s \<Longrightarrow> (\<And>u. inv u \<Longrightarrow> P u) \<Longrightarrow> P t"
  using run_inv by blast

end

end
