(* ===== verification/Identity.thy ===== *)
theory Identity
imports Interfaces
begin

text \<open>
  \<open>capsules/hey-core/src/identity.rs\<close>: hexadecimal, base58btc and \<open>did:key\<close>
  encodings. The Ed25519 primitives of the crate \<open>ed25519_compact\<close> are not modelled here;
  \<open>sign\<close> and \<open>verify\<close> take them as arguments.
\<close>

section \<open>Hexadecimal\<close>

definition hex_digit :: "nat \<Rightarrow> char" where
  "hex_digit n = ''0123456789abcdef'' ! n"

fun bytes_to_hex :: "bytes \<Rightarrow> string" where
  "bytes_to_hex [] = []"
| "bytes_to_hex (b # bs) = hex_digit (unat b div 16) # hex_digit (unat b mod 16) # bytes_to_hex bs"

text \<open>\<open>char::to_digit(16)\<close>: both cases are digits.\<close>

definition hex_value :: "char \<Rightarrow> nat option" where
  "hex_value c = (let n = of_char c :: nat in
     if 48 \<le> n \<and> n \<le> 57 then Some (n - 48)
     else if 97 \<le> n \<and> n \<le> 102 then Some (n - 87)
     else if 65 \<le> n \<and> n \<le> 70 then Some (n - 55)
     else None)"

text \<open>\<open>u8::from_str_radix(s, 16)\<close> on a string of two bytes; the standard library accepts a
  leading plus sign.\<close>

definition from_str_radix_16 :: "char \<Rightarrow> char \<Rightarrow> byte option" where
  "from_str_radix_16 c d = (case hex_value d of None \<Rightarrow> None | Some l \<Rightarrow>
     (if c = CHR ''+'' then Some (word_of_nat l)
      else map_option (\<lambda>h. word_of_nat (16 * h + l)) (hex_value c)))"

text \<open>The loop of \<open>hex_to_bytes\<close>. Slicing \<open>hex[i..i+2]\<close> off a character boundary panics.\<close>

fun hex_pairs :: "string \<Rightarrow> bytes res" where
  "hex_pairs [] = Inr []"
| "hex_pairs [c] = Inl (Panic ''byte index out of range'')"
| "hex_pairs (c # d # cs) =
     (if is_cont c \<or> (cs \<noteq> [] \<and> is_cont (hd cs)) then Inl (Panic ''byte index is not a char boundary'')
      else case from_str_radix_16 c d of
        None \<Rightarrow> Inl (Error ''invalid hex'')
      | Some b \<Rightarrow> bindR (hex_pairs cs) (\<lambda>bs. Inr (b # bs)))"

definition hex_to_bytes :: "string \<Rightarrow> bytes res" where
  "hex_to_bytes hex =
     (if length hex mod 2 \<noteq> 0 then Inl (Error ''hex length must be even'') else hex_pairs hex)"

section \<open>Base58\<close>

definition base58_alphabet :: string where
  "base58_alphabet = ''123456789ABCDEFGHJKLMNPQRSTUVWXYZabcdefghijkmnopqrstuvwxyz''"

text \<open>One pass of the long division by 58: the remainder and the digits replaced by quotient
  digits. \<open>cur\<close> is at most \<open>57 * 256 + 255\<close>, far from the width of the \<open>u32\<close>.\<close>

fun div58 :: "nat \<Rightarrow> bytes \<Rightarrow> bytes \<times> nat" where
  "div58 r [] = ([], r)"
| "div58 r (d # ds) = (let cur = r * 256 + unat d; (qs, r') = div58 (cur mod 58) ds
     in (word_of_nat (cur div 58) # qs, r'))"

definition byte_val :: "bytes \<Rightarrow> nat" where
  "byte_val bs = be_val 256 (map unat bs)"

lemma div58_val:
  "r < 58 \<Longrightarrow> div58 r ds = (qs, r') \<Longrightarrow>
   r' < 58 \<and> length qs = length ds \<and> r * 256 ^ length ds + byte_val ds = 58 * byte_val qs + r'"
proof (induction ds arbitrary: r qs r')
  case Nil
  then show ?case by (simp add: byte_val_def)
next
  case (Cons d ds)
  define cur where "cur = r * 256 + unat d"
  obtain qs1 where q: "div58 (cur mod 58) ds = (qs1, r')" "qs = word_of_nat (cur div 58) # qs1"
    using Cons.prems by (auto simp: cur_def Let_def split: prod.splits)
  have IH: "r' < 58 \<and> length qs1 = length ds \<and>
      (cur mod 58) * 256 ^ length ds + byte_val ds = 58 * byte_val qs1 + r'"
    using Cons.IH [OF _ q(1)] by simp
  have "r \<le> 57" "unat d \<le> 255" using Cons.prems(1) unat_byte_less [of d] by linarith+
  then have "cur \<le> 57 * 256 + 255" by (simp add: cur_def)
  then have cd: "cur div 58 < 256" by (simp add: div_less_iff_less_mult)
  have "58 * byte_val qs + r' = (58 * (cur div 58)) * 256 ^ length ds + (58 * byte_val qs1 + r')"
    using cd IH by (simp add: q byte_val_def be_val_Cons word8_of_nat_unat algebra_simps)
  also have "\<dots> = (58 * (cur div 58) + cur mod 58) * 256 ^ length ds + byte_val ds"
    unfolding add_mult_distrib using IH by linarith
  also have "\<dots> = cur * 256 ^ length ds + byte_val ds" by simp
  also have "\<dots> = r * 256 ^ length (d # ds) + byte_val (d # ds)"
    by (simp add: cur_def byte_val_def be_val_Cons algebra_simps)
  finally show ?case using IH q by simp
qed

lemma byte_val_pos: "bs \<noteq> [] \<Longrightarrow> hd bs \<noteq> 0 \<Longrightarrow> 0 < byte_val bs"
  by (cases bs) (auto simp: byte_val_def be_val_Cons unat_gt_0)

lemma byte_val_dropWhile: "byte_val (dropWhile (\<lambda>d. d = 0) bs) = byte_val bs"
  by (induction bs) (auto simp: byte_val_def)

lemma byte_val_eq_0: "byte_val bs = 0 \<longleftrightarrow> dropWhile (\<lambda>d. d = 0) bs = []"
  using byte_val_pos [of "dropWhile (\<lambda>d. d = 0) bs"] hd_dropWhile_neq [of 0 bs]
  by (metis byte_val_dropWhile be_val_Nil byte_val_def list.simps(8) less_numeral_extra(3))

text \<open>The loop of \<open>base58_encode\<close>: the next digits are the quotient from its first non-zero
  byte on. The list returned is \<open>out\<close> before it is reversed, least significant first.\<close>

function base58_digits :: "bytes \<Rightarrow> nat list" where
  "base58_digits ds = (if ds = [] then []
     else let (qs, r) = div58 0 ds in r # base58_digits (dropWhile (\<lambda>d. d = 0) qs))"
  by auto
termination
proof (relation "measure (\<lambda>ds. byte_val ds + length ds)", goal_cases)
  case (2 ds p qs r)
  then have d: "div58 0 ds = (qs, r)" by simp
  then have v: "byte_val ds = 58 * byte_val qs + r" and l: "length qs = length ds"
    using div58_val [of 0 ds qs r] by auto
  have le: "length (dropWhile (\<lambda>d. d = 0) qs) \<le> length ds"
    using l length_dropWhile_le [of "\<lambda>d. d = 0" qs] by simp
  show ?case
  proof (cases "byte_val qs = 0")
    case True
    then have "dropWhile (\<lambda>d. d = 0) qs = []" by (simp add: byte_val_eq_0)
    then show ?thesis using 2 by (simp only: in_measure) (simp add: byte_val_def)
  next
    case False
    then show ?thesis using v le by (simp add: byte_val_dropWhile)
  qed
qed simp

declare base58_digits.simps [simp del]

definition base58_encode :: "bytes \<Rightarrow> string" where
  "base58_encode buf = (if buf = [] then []
     else rev (map (\<lambda>r. base58_alphabet ! r) (base58_digits buf)
               @ replicate (length (takeWhile (\<lambda>b. b = 0) buf)) (CHR ''1'')))"

definition ed25519_pub_multicodec :: bytes where
  "ed25519_pub_multicodec = [0xed, 0x01]"

definition public_key_to_did_key :: "bytes \<Rightarrow> string" where
  "public_key_to_did_key pk = ''did:key:z'' @ base58_encode (ed25519_pub_multicodec @ pk)"

text \<open>The decoding table, \<open>None\<close> where the code stores 255; bytes from 128 on are refused
  before the table is read.\<close>

fun index_of :: "'a \<Rightarrow> 'a list \<Rightarrow> nat option" where
  "index_of x [] = None"
| "index_of x (y # ys) = (if x = y then Some 0 else map_option Suc (index_of x ys))"

definition base58_value :: "char \<Rightarrow> nat option" where
  "base58_value c = (if 128 \<le> (of_char c :: nat) then None else index_of c base58_alphabet)"

text \<open>\<open>acc = acc * 58 + carry\<close>, from the last byte to the first; then the remaining carry is
  pushed in front byte by byte.\<close>

fun mul58_step :: "byte \<Rightarrow> bytes \<times> nat \<Rightarrow> bytes \<times> nat" where
  "mul58_step b (out, carry) = (let v = unat b * 58 + carry in (word_of_nat (v mod 256) # out, v div 256))"

fun push_carry :: "nat \<Rightarrow> bytes \<Rightarrow> bytes" where
  "push_carry carry acc =
     (if carry = 0 then acc else push_carry (carry div 256) (word_of_nat (carry mod 256) # acc))"

declare push_carry.simps [simp del]

definition mul58_add :: "bytes \<Rightarrow> nat \<Rightarrow> bytes" where
  "mul58_add acc digit = (let (out, carry) = foldr mul58_step acc ([], digit) in push_carry carry out)"

fun base58_acc :: "bytes \<Rightarrow> string \<Rightarrow> bytes res" where
  "base58_acc acc [] = Inr acc"
| "base58_acc acc (c # cs) = (case base58_value c of
     None \<Rightarrow> Inl (Error ''invalid base58 char'')
   | Some d \<Rightarrow> base58_acc (mul58_add acc d) cs)"

definition base58_decode :: "string \<Rightarrow> bytes res" where
  "base58_decode s = (if s = [] then Inr []
     else bindR (base58_acc [] s) (\<lambda>acc.
       Inr (replicate (length (takeWhile (\<lambda>c. c = CHR ''1'') s)) 0 @ acc)))"

fun strip_prefix :: "string \<Rightarrow> string \<Rightarrow> string option" where
  "strip_prefix [] s = Some s"
| "strip_prefix (p # ps) [] = None"
| "strip_prefix (p # ps) (c # cs) = (if p = c then strip_prefix ps cs else None)"

definition did_key_to_public_key :: "string \<Rightarrow> bytes res" where
  "did_key_to_public_key did =
     bindR (of_option ''not a did:key:z...'' (strip_prefix ''did:key:z'' did)) (\<lambda>s.
     bindR (base58_decode s) (\<lambda>bytes.
       if length bytes \<noteq> 34 \<or> bytes ! 0 \<noteq> 0xed \<or> bytes ! 1 \<noteq> 0x01
       then Inl (Error ''not an Ed25519 did:key'') else Inr (drop 2 bytes)))"

text \<open>\<open>sign\<close> and \<open>verify\<close> with the Ed25519 operations of the crate as arguments;
  \<open>parse_sig\<close> is \<open>Signature::from_slice\<close>.\<close>

definition ed_sign :: "(bytes \<Rightarrow> bytes \<Rightarrow> bytes) \<Rightarrow> bytes \<Rightarrow> bytes \<Rightarrow> string" where
  "ed_sign raw_sign message seed = bytes_to_hex (raw_sign seed message)"

definition ed_verify :: "(bytes \<Rightarrow> bytes \<Rightarrow> bytes \<Rightarrow> bool) \<Rightarrow> bytes \<Rightarrow> string \<Rightarrow> bytes \<Rightarrow> bool res" where
  "ed_verify raw_verify message signature_hex public_key = (case hex_to_bytes signature_hex of
     Inl (Panic m) \<Rightarrow> Inl (Panic m)
   | Inl (Error _) \<Rightarrow> Inr False
   | Inr b \<Rightarrow> Inr (if length b = 64 then raw_verify public_key message b else False))"

section \<open>Lemmas: hexadecimal\<close>

lemma hex_digit_less: "n < 16 \<Longrightarrow> hex_value (hex_digit n) = Some n \<and> \<not> is_cont (hex_digit n)
    \<and> hex_digit n \<noteq> CHR ''+''"
proof -
  have "\<forall>n \<in> set [0..<16]. hex_value (hex_digit n) = Some n \<and> \<not> is_cont (hex_digit n)
    \<and> hex_digit n \<noteq> CHR ''+''"
    by code_simp
  then show "n < 16 \<Longrightarrow> ?thesis" by simp
qed

lemma from_str_radix_16_digits:
  "from_str_radix_16 (hex_digit (unat b div 16)) (hex_digit (unat b mod 16)) = Some b"
proof -
  have "word_of_nat (16 * (unat b div 16) + unat b mod 16) = b"
    by (simp only: mult_div_mod_eq) simp
  then have "16 * word_of_nat (unat b div 16) + word_of_nat (unat b mod 16) = b"
    by (simp only: of_nat_add of_nat_mult of_nat_numeral)
  then show ?thesis
    by (simp add: from_str_radix_16_def hex_digit_less unat_byte_div16)
qed

lemma hex_pairs_bytes_to_hex: "hex_pairs (bytes_to_hex bs) = Inr bs"
proof (induction bs)
  case (Cons b bs)
  have "unat b div 16 < 16" "unat b mod 16 < 16" by (simp_all add: unat_byte_div16)
  moreover have "bytes_to_hex bs \<noteq> [] \<longrightarrow> \<not> is_cont (hd (bytes_to_hex bs))"
  proof (cases bs)
    case (Cons c cs)
    then show ?thesis by (simp add: hex_digit_less unat_byte_div16)
  qed simp
  ultimately show ?case using Cons.IH by (simp add: from_str_radix_16_digits hex_digit_less) blast
qed simp

lemma length_bytes_to_hex [simp]: "length (bytes_to_hex bs) = 2 * length bs"
  by (induction bs) auto

lemma hex_roundtrip: "hex_to_bytes (bytes_to_hex bs) = Inr bs"
  by (simp add: hex_to_bytes_def hex_pairs_bytes_to_hex)

interpretation hex: codec bytes_to_hex hex_to_bytes "\<lambda>_. True"
  by unfold_locales (rule hex_roundtrip)

lemma hex_pairs_length: "hex_pairs s = Inr bs \<Longrightarrow> length s = 2 * length bs"
  by (induction s arbitrary: bs rule: hex_pairs.induct)
    (auto simp: res_inv split: if_splits option.splits)

lemma hex_to_bytes_length: "hex_to_bytes s = Inr bs \<Longrightarrow> length s = 2 * length bs"
  by (auto simp: hex_to_bytes_def hex_pairs_length split: if_splits)

section \<open>Lemmas: base58\<close>

lemma base58_digits_less: "d \<in> set (base58_digits ds) \<Longrightarrow> d < 58"
proof (induction ds rule: base58_digits.induct)
  case (1 ds)
  obtain qs r where d: "div58 0 ds = (qs, r)" by force
  show ?case
    using 1 div58_val [of 0 ds qs r] d
    by (auto simp: base58_digits.simps [of ds] split: if_splits)
qed

text \<open>The digits read from the most significant one have the value of the bytes.\<close>

lemma base58_digits_val: "be_val 58 (rev (base58_digits ds)) = byte_val ds"
proof (induction ds rule: base58_digits.induct)
  case (1 ds)
  obtain qs r where d: "div58 0 ds = (qs, r)" by force
  show ?case
  proof (cases "ds = []")
    case True
    then show ?thesis by (simp add: base58_digits.simps byte_val_def)
  next
    case False
    have "be_val 58 (rev (base58_digits (dropWhile (\<lambda>d. d = 0) qs))) = byte_val qs"
      using 1 [OF False d [symmetric]] d by (simp add: byte_val_dropWhile)
    then show ?thesis
      using False div58_val [of 0 ds qs r] d by (simp add: base58_digits.simps [of ds])
  qed
qed

lemma base58_digits_last: "0 < byte_val ds \<Longrightarrow> base58_digits ds \<noteq> [] \<and> last (base58_digits ds) \<noteq> 0"
proof (induction ds rule: base58_digits.induct)
  case (1 ds)
  obtain qs r where d: "div58 0 ds = (qs, r)" by force
  have ne: "ds \<noteq> []" using 1 by (auto simp: byte_val_def)
  show ?case
  proof (cases "byte_val qs = 0")
    case True
    then have "dropWhile (\<lambda>d. d = 0) qs = []" by (simp only: byte_val_eq_0)
    moreover have "r \<noteq> 0" using div58_val [of 0 ds qs r] d 1 True by simp
    ultimately show ?thesis using ne d by (simp add: base58_digits.simps)
  next
    case False
    then have "0 < byte_val (dropWhile (\<lambda>d. d = 0) qs)" by (simp add: byte_val_dropWhile)
    then show ?thesis using 1(1) [OF ne d [symmetric]] d ne
      by (simp add: base58_digits.simps [of ds])
  qed
qed

lemma base58_digits_canon: "0 < byte_val ds \<Longrightarrow> canon 58 (rev (base58_digits ds))"
  by (auto simp: canon_def base58_digits_less hd_rev base58_digits_last)

lemma index_of_nth: "distinct xs \<Longrightarrow> i < length xs \<Longrightarrow> index_of (xs ! i) xs = Some i"
  by (induction xs arbitrary: i) (auto simp: nth_Cons split: nat.splits)

lemma base58_alphabet_facts:
  "distinct base58_alphabet" "length base58_alphabet = 58"
  "list_all (\<lambda>c. (of_char c :: nat) < 128) base58_alphabet"
  by (simp_all add: base58_alphabet_def)

lemma base58_value_alphabet: "d < 58 \<Longrightarrow> base58_value (base58_alphabet ! d) = Some d"
  using base58_alphabet_facts
  by (simp add: base58_value_def index_of_nth list_all_length linorder_not_less [symmetric])

lemma index_of_SomeD: "index_of x ys = Some i \<Longrightarrow> i < length ys \<and> ys ! i = x"
  by (induction ys arbitrary: i) (auto split: if_splits)

lemma base58_value_SomeD: "base58_value c = Some d \<Longrightarrow> d < 58 \<and> base58_alphabet ! d = c"
  using index_of_SomeD [of c base58_alphabet d]
  by (auto simp: base58_value_def base58_alphabet_def split: if_splits)

lemma base58_alphabet_one: "d < 58 \<Longrightarrow> base58_alphabet ! d = CHR ''1'' \<longleftrightarrow> d = 0"
  using base58_value_alphabet [of d] base58_value_alphabet [of 0]
  by (auto simp: base58_alphabet_def)

definition canonB :: "bytes \<Rightarrow> bool" where
  "canonB bs = (bs \<noteq> [] \<longrightarrow> hd bs \<noteq> 0)"

lemma canonB_canon: "canonB bs \<longleftrightarrow> canon 256 (map unat bs)"
  by (auto simp: canonB_def canon_def hd_map unat_eq_zero)

lemma canonB_inj: "canonB a \<Longrightarrow> canonB b \<Longrightarrow> byte_val a = byte_val b \<Longrightarrow> a = b"
  using canon_be_val_inj [of 256 "map unat a" "map unat b"] map_unat_inject [of a b]
  by (simp add: canonB_canon byte_val_def)

lemma canonB_dropWhile: "canonB (dropWhile (\<lambda>b. b = 0) bs)"
  by (simp add: canonB_def hd_dropWhile_neq del: dropWhile_eq_Nil_conv)

lemma push_carry_spec:
  "byte_val (push_carry c acc) = c * 256 ^ length acc + byte_val acc \<and>
   (c \<noteq> 0 \<or> canonB acc \<longrightarrow> canonB (push_carry c acc))"
proof (induction c acc rule: push_carry.induct)
  case (1 c acc)
  show ?case
  proof (cases "c = 0")
    case False
    define b :: byte where "b = word_of_nat (c mod 256)"
    have ub: "unat b = c mod 256" by (simp add: b_def word8_of_nat_unat)
    have "byte_val (push_carry c acc) = (c div 256) * 256 ^ length (b # acc) + byte_val (b # acc)"
      using 1 [OF False] False by (simp add: push_carry.simps [of c] b_def)
    also have "\<dots> = (c div 256 * 256 + c mod 256) * 256 ^ length acc + byte_val acc"
      by (simp only: ub byte_val_def be_val_Cons length_map list.map list.size power_Suc power_add
          add_mult_distrib mult.assoc) simp
    finally have v: "byte_val (push_carry c acc) = c * 256 ^ length acc + byte_val acc" by simp
    have "c div 256 = 0 \<longrightarrow> canonB (b # acc)"
      using False ub by (auto simp: canonB_def simp flip: unat_eq_zero)
    then show ?thesis using v 1 [OF False] False by (auto simp: push_carry.simps [of c] b_def)
  qed (simp add: push_carry.simps)
qed

lemma mul58_foldr:
  "d < 58 \<Longrightarrow> foldr mul58_step acc ([], d) = (out, c) \<Longrightarrow>
   length out = length acc \<and> c < 58 \<and> byte_val acc * 58 + d = c * 256 ^ length acc + byte_val out \<and>
   (acc \<noteq> [] \<and> hd acc \<noteq> 0 \<and> c = 0 \<longrightarrow> hd out \<noteq> 0)"
proof (induction acc arbitrary: out c)
  case (Cons b acc)
  obtain o1 c1 where f: "foldr mul58_step acc ([], d) = (o1, c1)" by force
  define v where "v = unat b * 58 + c1"
  have IH: "length o1 = length acc" "c1 < 58"
      "byte_val acc * 58 + d = c1 * 256 ^ length acc + byte_val o1"
    using Cons.IH [OF Cons.prems(1) f] by auto
  have o: "out = word_of_nat (v mod 256) # o1" "c = v div 256"
    using Cons.prems(2) f by (auto simp: v_def Let_def)
  have "v \<le> 255 * 58 + 57" using IH(2) unat_byte_le [of b] by (simp add: v_def)
  then have c: "c < 58" by (simp add: o div_less_iff_less_mult)
  have "byte_val (b # acc) * 58 + d = unat b * 58 * 256 ^ length acc + (byte_val acc * 58 + d)"
    by (simp add: byte_val_def be_val_Cons algebra_simps)
  also have "\<dots> = v * 256 ^ length acc + byte_val o1"
    using IH(3) by (simp add: v_def algebra_simps)
  also have "\<dots> = (v div 256 * 256 + v mod 256) * 256 ^ length acc + byte_val o1" by simp
  also have "\<dots> = c * 256 ^ length (b # acc) + byte_val out"
    using IH(1) by (simp only: o byte_val_def be_val_Cons length_map list.map list.size power_Suc
        power_add add_mult_distrib mult.assoc word8_of_nat_unat [OF mod_less_divisor [OF zero_less_numeral]]) simp
  finally have e: "byte_val (b # acc) * 58 + d = c * 256 ^ length (b # acc) + byte_val out" .
  have "hd out \<noteq> 0" if "b \<noteq> 0" "c = 0"
  proof -
    have "0 < v" using that(1) by (simp add: v_def unat_gt_0)
    moreover have "v < 256" using that(2) o by (simp add: div_eq_0_iff)
    ultimately have "unat (hd out) \<noteq> 0" by (simp add: o(1) word8_of_nat_unat)
    then show ?thesis by auto
  qed
  then have "b # acc \<noteq> [] \<and> hd (b # acc) \<noteq> 0 \<and> c = 0 \<longrightarrow> hd out \<noteq> 0" by auto
  moreover have "length out = length (b # acc)" using o IH by simp
  ultimately show ?case using e c by blast
qed (simp add: byte_val_def)

lemma mul58_add_spec:
  assumes "d < 58"
  shows "byte_val (mul58_add acc d) = byte_val acc * 58 + d \<and> (canonB acc \<longrightarrow> canonB (mul58_add acc d))"
proof -
  obtain out c where f: "foldr mul58_step acc ([], d) = (out, c)" by force
  note m = mul58_foldr [OF assms f]
  have "canonB acc \<longrightarrow> c \<noteq> 0 \<or> canonB out"
    using m by (cases acc) (auto simp: canonB_def)
  then show ?thesis using m f push_carry_spec [of c out] by (auto simp: mul58_add_def)
qed

lemma base58_acc_spec:
  "\<forall>d \<in> set ds. d < 58 \<Longrightarrow> canonB acc \<Longrightarrow>
   \<exists>r. base58_acc acc (map (\<lambda>d. base58_alphabet ! d) ds) = Inr r \<and> canonB r \<and>
       byte_val r = byte_val acc * 58 ^ length ds + be_val 58 ds"
proof (induction ds arbitrary: acc)
  case (Cons d ds)
  then show ?case
    using mul58_add_spec [of d acc] Cons.IH [of "mul58_add acc d"]
    by (auto simp: base58_value_alphabet be_val_Cons algebra_simps)
qed simp

lemma base58_acc_InrD:
  "base58_acc acc s = Inr r \<Longrightarrow> \<exists>ds. s = map (\<lambda>d. base58_alphabet ! d) ds \<and> (\<forall>d \<in> set ds. d < 58)"
proof (induction s arbitrary: acc)
  case (Cons c s)
  then obtain d where d: "base58_value c = Some d" "base58_acc (mul58_add acc d) s = Inr r"
    by (auto split: option.splits)
  from Cons.IH [OF d(2)] obtain ds
    where "s = map (\<lambda>d. base58_alphabet ! d) ds" "\<forall>d \<in> set ds. d < 58" by blast
  then show ?case using base58_value_SomeD [OF d(1)] by (intro exI [of _ "d # ds"]) auto
qed simp

lemma base58_encode_digits:
  "buf \<noteq> [] \<Longrightarrow> base58_encode buf = map (\<lambda>d. base58_alphabet ! d)
     (replicate (length (takeWhile (\<lambda>b. b = 0) buf)) 0 @ rev (base58_digits buf))"
  by (simp add: base58_encode_def rev_map base58_alphabet_def)

lemma takeWhile_ones:
  "\<forall>d \<in> set ds. d < 58 \<Longrightarrow>
   length (takeWhile (\<lambda>c. c = CHR ''1'') (map (\<lambda>d. base58_alphabet ! d) ds)) = length (takeWhile (\<lambda>d. d = 0) ds)"
  by (induction ds) (auto simp: base58_alphabet_one)

lemma base58_encode_decode:
  assumes "buf = [] \<or> 0 < byte_val buf"
  shows "base58_decode (base58_encode buf) = Inr buf"
proof (cases "buf = []")
  case True
  then show ?thesis by (simp add: base58_encode_def base58_decode_def)
next
  case False
  then have pos: "0 < byte_val buf" using assms by simp
  define z where "z = length (takeWhile (\<lambda>b. b = 0) buf)"
  define ds where "ds = rev (base58_digits buf)"
  have D: "ds \<noteq> []" "hd ds \<noteq> 0" "\<forall>d \<in> set ds. d < 58" "be_val 58 ds = byte_val buf"
    using base58_digits_last [OF pos] base58_digits_less
    by (auto simp: ds_def hd_rev base58_digits_val)
  define xs where "xs = replicate z 0 @ ds"
  have X: "\<forall>d \<in> set xs. d < 58" "be_val 58 xs = byte_val buf" "xs \<noteq> []"
      "length (takeWhile (\<lambda>d. d = 0) xs) = z"
    using D takeWhile_replicate_append [OF D(1,2), of z] by (auto simp: xs_def)
  obtain r where r: "base58_acc [] (map (\<lambda>d. base58_alphabet ! d) xs) = Inr r" "canonB r"
      "byte_val r = byte_val buf"
    using base58_acc_spec [OF X(1), of "[]"] X(2) by (auto simp: canonB_def byte_val_def)
  have "r = dropWhile (\<lambda>b. b = 0) buf"
    using r canonB_inj canonB_dropWhile byte_val_dropWhile by metis
  then have "replicate z 0 @ r = buf" using split_leading [of 0 buf] by (simp add: z_def)
  then show ?thesis
    using r X False base58_encode_digits [OF False]
    by (simp add: base58_decode_def takeWhile_ones flip: xs_def z_def ds_def)
qed

lemma base58_decode_encode:
  assumes "base58_decode s = Inr bs" "0 < byte_val bs"
  shows "base58_encode bs = s"
proof -
  have "s \<noteq> []" using assms by (auto simp: base58_decode_def byte_val_def)
  then obtain acc where acc: "base58_acc [] s = Inr acc"
      "bs = replicate (length (takeWhile (\<lambda>c. c = CHR ''1'') s)) 0 @ acc"
    using assms(1) by (auto simp: base58_decode_def res_inv)
  obtain ds where ds: "s = map (\<lambda>d. base58_alphabet ! d) ds" "\<forall>d \<in> set ds. d < 58"
    using base58_acc_InrD [OF acc(1)] by blast
  define z where "z = length (takeWhile (\<lambda>d. d = 0) ds)"
  have A: "canonB acc" "byte_val acc = be_val 58 ds"
    using base58_acc_spec [OF ds(2), of "[]"] acc(1) ds(1) by (auto simp: canonB_def byte_val_def)
  have b: "bs = replicate z 0 @ acc" using acc(2) ds takeWhile_ones by (simp add: z_def)
  have v: "byte_val bs = byte_val acc" by (simp add: b byte_val_def)
  have ne: "acc \<noteq> []" "hd acc \<noteq> 0" using A(1) v assms(2) by (auto simp: canonB_def byte_val_def)
  have z: "length (takeWhile (\<lambda>b. b = 0) bs) = z"
    using takeWhile_replicate_append [OF ne, of z] by (simp add: b)
  have "canon 58 (dropWhile (\<lambda>d. d = 0) ds)"
    using ds(2) hd_dropWhile_neq [of 0 ds] by (auto simp: canon_def dest: set_dropWhileD)
  then have "rev (base58_digits bs) = dropWhile (\<lambda>d. d = 0) ds"
    using canon_be_val_inj [OF base58_digits_canon [OF assms(2)]] v A(2)
    by (simp add: base58_digits_val)
  then have "replicate z 0 @ rev (base58_digits bs) = ds"
    using split_leading [of 0 ds] by (simp add: z_def)
  then show ?thesis
    using base58_encode_digits [of bs] z ds(1) ne b by (simp del: map_append)
qed

section \<open>Lemmas: did:key\<close>

lemma strip_prefix_iff: "strip_prefix p s = Some t \<longleftrightarrow> s = p @ t"
  by (induction p s rule: strip_prefix.induct) auto

lemma byte_val_multicodec: "0 < byte_val (ed25519_pub_multicodec @ pk)"
  by (rule byte_val_pos) (simp_all add: ed25519_pub_multicodec_def)

lemma did_key_decode_encode:
  "did_key_to_public_key did = Inr pk \<Longrightarrow> length pk = 32 \<and> public_key_to_did_key pk = did"
proof -
  assume "did_key_to_public_key did = Inr pk"
  then obtain s bs where *: "did = ''did:key:z'' @ s" "base58_decode s = Inr bs" "length bs = 34"
      "bs ! 0 = 0xed" "bs ! 1 = 0x01" "pk = drop 2 bs"
    by (auto simp: did_key_to_public_key_def res_inv strip_prefix_iff split: if_splits)
  have "bs = ed25519_pub_multicodec @ pk"
    using * by (cases bs; cases "tl bs") (auto simp: ed25519_pub_multicodec_def)
  then have "base58_encode (ed25519_pub_multicodec @ pk) = s"
    using base58_decode_encode [OF *(2)] byte_val_multicodec [of pk] by simp
  then show ?thesis using *(1,3,6) by (simp add: public_key_to_did_key_def)
qed

interpretation did_key: canonical_codec public_key_to_did_key did_key_to_public_key "\<lambda>pk. length pk = 32"
proof
  show "did_key_to_public_key (public_key_to_did_key pk) = Inr pk" if "length pk = 32" for pk
  proof -
    have "strip_prefix ''did:key:z'' (public_key_to_did_key pk) = Some (base58_encode (ed25519_pub_multicodec @ pk))"
      unfolding strip_prefix_iff public_key_to_did_key_def by (rule refl)
    moreover have "base58_decode (base58_encode (ed25519_pub_multicodec @ pk)) = Inr (ed25519_pub_multicodec @ pk)"
      by (rule base58_encode_decode) (simp only: byte_val_multicodec simp_thms)
    ultimately show ?thesis
      using that by (simp only: did_key_to_public_key_def of_option.simps bindR.simps)
        (simp add: ed25519_pub_multicodec_def)
  qed
qed (use did_key_decode_encode in blast)

section \<open>Properties\<close>

lemma all_zero_replicate: "\<forall>b \<in> set bs. b = x \<Longrightarrow> bs = replicate (length bs) x"
  by (induction bs) auto

lemma base58_encode_zeros:
  assumes "buf \<noteq> []" "\<forall>b \<in> set buf. b = 0"
  shows "base58_encode buf = replicate (Suc (length buf)) (CHR ''1'')"
proof -
  have d: "div58 0 (replicate k 0) = (replicate k 0, 0)" for k by (induction k) auto
  have b: "buf = replicate (length buf) 0" by (rule all_zero_replicate [OF assms(2)])
  have v: "div58 0 buf = (buf, 0)" "dropWhile (\<lambda>b. b = 0) buf = []"
    using d [of "length buf"] b assms(2) by simp_all
  have "base58_digits buf = 0 # base58_digits []"
    unfolding base58_digits.simps [of buf] v(1) using assms(1) by (simp only: Let_def prod.case if_False v(2))
  then have "base58_digits buf = [0]" by (simp add: base58_digits.simps [of "[]"])
  moreover have "length (takeWhile (\<lambda>b. b = 0) buf) = length buf"
  proof -
    have "takeWhile (\<lambda>b. b = 0) buf = buf" using assms(2) by (intro takeWhile_eq_all_conv [THEN iffD2])
    then show ?thesis by (rule arg_cong)
  qed
  ultimately show ?thesis
    using assms(1) by (simp add: base58_encode_def base58_alphabet_def replicate_append_same)
qed

text \<open>Base58 decoding inverts encoding exactly on the buffers that are empty or have a
  non-zero byte; a non-empty buffer of zeros comes back one byte longer.\<close>

theorem base58_roundtrip:
  "base58_decode (base58_encode buf) = Inr buf \<longleftrightarrow> (buf = [] \<or> (\<exists>b \<in> set buf. b \<noteq> 0))"
proof (cases "buf \<noteq> [] \<and> (\<forall>b \<in> set buf. b = 0)")
  case False
  then have "buf = [] \<or> dropWhile (\<lambda>b. b = 0) buf \<noteq> []" by auto
  then have "buf = [] \<or> 0 < byte_val buf" using byte_val_eq_0 [of buf] by auto
  then show ?thesis using False base58_encode_decode by blast
next
  case True
  let ?n = "Suc (length buf)"
  have ones: "replicate ?n (CHR ''1'') = map (\<lambda>d. base58_alphabet ! d) (replicate ?n 0)"
    by (simp add: base58_alphabet_def)
  have "be_val 58 (replicate ?n 0) = 0" using be_val_replicate_zero [of 58 ?n "[]"] by simp
  then obtain r where r: "base58_acc [] (replicate ?n (CHR ''1'')) = Inr r"
    using base58_acc_spec [of "replicate ?n 0" "[]"] unfolding ones by (auto simp: canonB_def)
  then have "base58_decode (base58_encode buf) = Inr (replicate ?n 0 @ r)"
    using True by (simp add: base58_decode_def base58_encode_zeros takeWhile_replicate)
  moreover have "replicate ?n 0 @ r \<noteq> buf" 
  proof
    assume "replicate ?n 0 @ r = buf"
    then have "length (replicate ?n 0 @ r) = length buf" by (rule arg_cong)
    then show False by simp
  qed
  ultimately show ?thesis using True by auto
qed

text \<open>C14. A string resolves to a public key exactly when it is the \<open>did:key\<close> the encoder gives
  for that 32-byte key, so every key has one DID and no two DIDs name the same key.\<close>

theorem did_key_bijection:
  "did_key_to_public_key did = Inr pk \<longleftrightarrow> length pk = 32 \<and> did = public_key_to_did_key pk"
  by (rule did_key.dec_iff)

end
