(* ===== verification/Padding.thy ===== *)
theory Padding
imports Interfaces
begin

text \<open>
  The length-hiding paddings of \<open>capsules/hey-core/src/crypto.rs\<close>: \<open>pad_plaintext\<close> for
  messages and \<open>pad_attachment\<close> for files, with their bucket functions and inverses.
  The functions whose result depends on the width of \<open>usize\<close> take it as their first
  argument \<open>w\<close>: 32 for the \<open>wasm32\<close> build, 64 for the native ones.
\<close>

section \<open>Buckets\<close>

definition PAD_BUCKETS :: "nat list" where
  "PAD_BUCKETS = [256, 1024, 4096, 16384, 65536]"

definition pad_target :: "nat \<Rightarrow> nat" where
  "pad_target needed = (case find (\<lambda>b. needed \<le> b) PAD_BUCKETS of
     Some b \<Rightarrow> b | None \<Rightarrow> (needed + 65535) div 65536 * 65536)"

text \<open>\<open>usize::BITS - 1 - n.leading_zeros()\<close> for \<open>e\<close>; for \<open>s\<close> the source counts the leading
  zeros of \<open>e as u32\<close>, at width 32, but subtracts them from \<open>usize::BITS - 1\<close>. The last line
  is \<open>(n + mask) & !mask\<close>, where \<open>mask\<close> is \<open>last_bits\<close> one bits: it clears that many bits.\<close>

definition padme_bucket :: "nat \<Rightarrow> nat \<Rightarrow> nat" where
  "padme_bucket w n = (if n < 2 then n else
     let e = w - 1 - leading_zeros w n;
         s = w - 1 - leading_zeros 32 e + 1;
         last_bits = e - s;
         mask = 2 ^ last_bits - 1
     in push_bit last_bits (drop_bit last_bits (n + mask)))"

definition att_bucket :: "nat \<Rightarrow> nat \<Rightarrow> nat" where
  "att_bucket w needed = (case find (\<lambda>b. needed \<le> b) PAD_BUCKETS of
     Some b \<Rightarrow> b | None \<Rightarrow> padme_bucket w needed)"

section \<open>Padding and its inverse\<close>

text \<open>\<open>out.resize(target, 0)\<close>.\<close>

definition resize0 :: "nat \<Rightarrow> bytes \<Rightarrow> bytes" where
  "resize0 n bs = take n bs @ replicate (n - length bs) 0"

definition pad_plaintext :: "bytes \<Rightarrow> bytes" where
  "pad_plaintext body = resize0 (pad_target (4 + length body))
     (to_be 4 (length body mod 2 ^ 32) @ body)"

text \<open>The addition of the prefix length wraps at the width of \<open>usize\<close>.\<close>

definition unpad_plaintext :: "nat \<Rightarrow> bytes \<Rightarrow> bytes res" where
  "unpad_plaintext w padded =
     (if length padded < 4 then Inl (Error ''padded plaintext shorter than length prefix'')
      else let len = from_be (take 4 padded) mod 2 ^ w; stop = (4 + len) mod 2 ^ w in
        if length padded < stop then Inl (Error ''padding length prefix exceeds buffer'')
        else slice padded 4 stop)"

definition pad_attachment :: "nat \<Rightarrow> bytes \<Rightarrow> bytes" where
  "pad_attachment w body = resize0 (att_bucket w (8 + length body)) (to_be 8 (length body) @ body)"

definition unpad_attachment :: "nat \<Rightarrow> bytes \<Rightarrow> bytes res" where
  "unpad_attachment w padded =
     (if length padded < 8 then Inl (Error ''padded attachment shorter than length prefix'')
      else let len = from_be (take 8 padded) mod 2 ^ w; stop = (8 + len) mod 2 ^ w in
        if length padded < stop then Inl (Error ''attachment padding length prefix exceeds buffer'')
        else slice padded 8 stop)"

section \<open>Lemmas: buckets\<close>

lemma find_bucket: "find (\<lambda>b. n \<le> b) PAD_BUCKETS =
    (if n \<le> 256 then Some 256 else if n \<le> 1024 then Some 1024 else if n \<le> 4096 then Some 4096
     else if n \<le> 16384 then Some 16384 else if n \<le> 65536 then Some 65536 else None)"
  by (simp add: PAD_BUCKETS_def)

lemma pad_target_ge: "n \<le> pad_target n"
proof -
  have "n \<le> (n + 65535) div 65536 * 65536" by linarith
  then show ?thesis by (simp add: pad_target_def find_bucket)
qed

lemma push_drop_le: "push_bit k (drop_bit k n) \<le> (n :: nat)"
  by (simp add: push_bit_eq_mult drop_bit_eq_div)

lemma push_drop_ge: "n \<le> push_bit k (drop_bit k (n + (2 ^ k - 1)))" for n :: nat
proof -
  define m :: nat where "m = 2 ^ k"
  define x where "x = n + (m - 1)"
  have "0 < m" by (simp add: m_def)
  then have "x = x div m * m + x mod m" "x mod m < m" by simp_all
  then have "n \<le> x div m * m" using \<open>0 < m\<close> unfolding x_def by linarith
  then show ?thesis by (simp add: push_bit_eq_mult drop_bit_eq_div x_def m_def)
qed

lemma padme_ge: "n \<le> padme_bucket w n"
  unfolding padme_bucket_def Let_def using push_drop_ge by presburger

lemma att_bucket_ge: "n \<le> att_bucket w n"
  by (auto simp: att_bucket_def find_bucket padme_ge)

text \<open>At width 32 \<open>e\<close> and \<open>s\<close> are the Padme exponents.\<close>

lemma padme_32:
  assumes "2 \<le> n" "n < 2 ^ 32"
  shows "padme_bucket 32 n =
    (let e = bit_len n - 1; k = e - bit_len e in push_bit k (drop_bit k (n + (2 ^ k - 1))))"
proof -
  have b: "bit_len n \<le> 32" "Suc 1 \<le> bit_len n"
    using bit_len_le [OF assms(2)] bit_len_ge [of 1 n] assms(1) by auto
  have "bit_len n - 1 < 2 ^ 5" using b by simp
  then have "bit_len (bit_len n - 1) \<le> 5" by (rule bit_len_le)
  moreover have "0 < bit_len (bit_len n - 1)" using bit_len_bounds [of "bit_len n - 1"] b by simp
  ultimately show ?thesis using b assms by (simp add: padme_bucket_def leading_zeros_def Let_def)
qed

text \<open>At width 64 the same formula leaves no bits to clear: nothing up to 512 GiB is padded.\<close>

lemma padme_64_id:
  assumes "n < 2 ^ 39"
  shows "padme_bucket 64 n = n"
proof (cases "n < 2")
  case False
  define e where "e = bit_len n - 1"
  have b: "bit_len n \<le> 39" "Suc 1 \<le> bit_len n"
    using bit_len_le [OF assms] bit_len_ge [of 1 n] False by auto
  then have e: "64 - 1 - leading_zeros 64 n = e" "1 \<le> e" "e \<le> 38"
    by (auto simp: leading_zeros_def e_def)
  have "bit_len e \<le> 6" using e by (intro bit_len_le) simp
  then have s: "64 - 1 - leading_zeros 32 e + 1 = 32 + bit_len e" by (simp add: leading_zeros_def)
  have "e - (32 + bit_len e) = 0"
  proof (cases "e < 32")
    case False
    then have "6 \<le> bit_len e" using bit_len_ge [of 5 e] by simp
    then show ?thesis using e by simp
  qed simp
  then show ?thesis unfolding padme_bucket_def Let_def e(1) s by simp
qed (simp add: padme_bucket_def)

text \<open>At width 32 the padding above the ladder adds at most one 32nd of the length.\<close>

lemma padme_32_overhead:
  assumes "65536 \<le> n" "n < 2 ^ 32"
  shows "padme_bucket 32 n \<le> n + n div 32"
proof -
  define e where "e = bit_len n - 1"
  define k where "k = e - bit_len e"
  have b: "17 \<le> bit_len n" using bit_len_ge [of 16 n] assms by simp
  have n: "2 ^ e \<le> n" using bit_len_bounds [of n] assms by (simp add: e_def)
  have e: "16 \<le> e" using b by (simp add: e_def)
  then have be: "5 \<le> bit_len e" using bit_len_ge [of 4 e] by simp
  have "(2 :: nat) ^ k \<le> 2 ^ (e - 5)" unfolding k_def using be by (intro power_increasing) auto
  also have "\<dots> = 2 ^ e div 32" using e by (simp add: power_diff)
  also have "\<dots> \<le> n div 32" using n by (rule div_le_mono)
  finally have "(2 :: nat) ^ k \<le> n div 32" .
  moreover have "padme_bucket 32 n \<le> n + (2 ^ k - 1)"
    using padme_32 [OF _ assms(2)] assms(1) push_drop_le by (simp add: e_def k_def Let_def)
  ultimately show ?thesis by linarith
qed

section \<open>Lemmas: the paddings are codecs that show the bucket only\<close>

lemma length_resize0: "length bs \<le> n \<Longrightarrow> length (resize0 n bs) = n"
  by (simp add: resize0_def)

lemma take_resize0: "k \<le> length bs \<Longrightarrow> length bs \<le> n \<Longrightarrow> take k (resize0 n bs) = take k bs"
  by (simp add: resize0_def)

lemma slice_resize0:
  "length p + length body \<le> n \<Longrightarrow>
   slice (resize0 n (p @ body)) (length p) (length p + length body) = Inr body"
  by (simp add: slice_def resize0_def)

lemma length_pad_plaintext: "length (pad_plaintext body) = pad_target (4 + length body)"
  unfolding pad_plaintext_def using pad_target_ge [of "4 + length body"]
  by (intro length_resize0) simp

lemma length_pad_attachment: "length (pad_attachment w body) = att_bucket w (8 + length body)"
  unfolding pad_attachment_def using att_bucket_ge [of "8 + length body" w]
  by (intro length_resize0) simp

lemma unpad_pad_plaintext:
  assumes "32 \<le> w" "4 + length body < 2 ^ 32"
  shows "unpad_plaintext w (pad_plaintext body) = Inr body"
proof -
  have l: "length (to_be 4 (length body) @ body) \<le> pad_target (4 + length body)"
    using pad_target_ge [of "4 + length body"] by simp
  have "(2 :: nat) ^ 32 \<le> 2 ^ w" using assms(1) by (intro power_increasing) auto
  then have m: "(4 + length body) mod 2 ^ w = 4 + length body" "length body mod 2 ^ w = length body"
    using assms(2) by (auto intro!: mod_less)
  have p: "pad_plaintext body = resize0 (pad_target (4 + length body)) (to_be 4 (length body) @ body)"
    using assms(2) by (simp add: pad_plaintext_def)
  have "from_be (take 4 (pad_plaintext body)) = length body"
    unfolding p using l assms(2) by (simp add: take_resize0 from_to_be)
  moreover have "slice (pad_plaintext body) 4 (4 + length body) = Inr body"
    unfolding p using slice_resize0 [of "to_be 4 (length body)" body] l by simp
  ultimately show ?thesis
    using pad_target_ge [of "4 + length body"] m
    by (simp add: unpad_plaintext_def length_pad_plaintext Let_def)
qed

lemma unpad_pad_attachment:
  assumes "w \<le> 64" "8 + length body < 2 ^ w"
  shows "unpad_attachment w (pad_attachment w body) = Inr body"
proof -
  have l: "length (to_be 8 (length body) @ body) \<le> att_bucket w (8 + length body)"
    using att_bucket_ge [of "8 + length body" w] by simp
  have "(2 :: nat) ^ w \<le> 2 ^ 64" using assms(1) by (intro power_increasing) auto
  then have "length body < 256 ^ 8" using assms(2) by simp
  then have "from_be (take 8 (pad_attachment w body)) = length body"
    unfolding pad_attachment_def using l by (simp add: take_resize0 from_to_be)
  moreover have "slice (pad_attachment w body) 8 (8 + length body) = Inr body"
    unfolding pad_attachment_def using slice_resize0 [of "to_be 8 (length body)" body] l by simp
  ultimately show ?thesis
    using att_bucket_ge [of "8 + length body" w] assms(2)
    by (simp add: unpad_attachment_def length_pad_attachment Let_def)
qed

interpretation pad32: padding pad_plaintext "unpad_plaintext 32" "\<lambda>b. 4 + length b < 2 ^ 32"
    "\<lambda>n. pad_target (4 + n)"
  by unfold_locales (auto intro: unpad_pad_plaintext length_pad_plaintext)

interpretation pad64: padding pad_plaintext "unpad_plaintext 64" "\<lambda>b. 4 + length b < 2 ^ 32"
    "\<lambda>n. pad_target (4 + n)"
  by unfold_locales (auto intro: unpad_pad_plaintext length_pad_plaintext)

interpretation att32: padding "pad_attachment 32" "unpad_attachment 32" "\<lambda>b. 8 + length b < 2 ^ 32"
    "\<lambda>n. att_bucket 32 (8 + n)"
  by unfold_locales (auto intro: unpad_pad_attachment length_pad_attachment)

interpretation att64: padding "pad_attachment 64" "unpad_attachment 64" "\<lambda>b. 8 + length b < 2 ^ 64"
    "\<lambda>n. att_bucket 64 (8 + n)"
  by unfold_locales (auto intro: unpad_pad_attachment length_pad_attachment)

text \<open>A prefix close to the width of \<open>usize\<close> wraps the bound check, and the slice panics.\<close>

lemma unpad_plaintext_panic:
  assumes "w = 32" "4 \<le> length padded" "2 ^ 32 - 4 \<le> from_be (take 4 padded)"
  shows "is_panic (unpad_plaintext w padded)"
proof -
  define len where "len = from_be (take 4 padded)"
  have "len < 2 ^ 32" using from_be_less [of "take 4 padded"] assms(2) by (simp add: len_def)
  then obtain r where r: "4 + len = 2 ^ 32 + r" "r < 4"
    using assms(3) by (auto simp: len_def [symmetric] dest!: le_Suc_ex)
  then have "(4 + len) mod 2 ^ 32 = r" "len mod 2 ^ 32 = len" using \<open>len < 2 ^ 32\<close> by simp_all
  then show ?thesis
    using r assms(1,2) by (simp add: unpad_plaintext_def slice_def len_def [symmetric] Let_def)
qed

lemma unpad_plaintext_no_panic_64: "\<not> is_panic (unpad_plaintext 64 padded)"
proof (cases "length padded < 4")
  case False
  define len where "len = from_be (take 4 padded)"
  have "len < 2 ^ 32" using from_be_less [of "take 4 padded"] False by (simp add: len_def)
  then have "(4 + len) mod 2 ^ 64 = 4 + len" "len mod 2 ^ 64 = len" by simp_all
  then show ?thesis by (simp add: unpad_plaintext_def slice_def len_def [symmetric] Let_def)
qed (simp add: unpad_plaintext_def)

section \<open>Properties\<close>

text \<open>C15. On both widths of \<open>usize\<close> a padded message unpads to itself, and its padded length is a
  function of the length of the body that never truncates it.\<close>

theorem message_padding:
  assumes "4 + length body < 2 ^ 32"
  shows "unpad_plaintext 32 (pad_plaintext body) = Inr body \<and>
    unpad_plaintext 64 (pad_plaintext body) = Inr body \<and>
    length (pad_plaintext body) = pad_target (4 + length body) \<and>
    4 + length body \<le> length (pad_plaintext body)"
  using pad32.dec_enc [OF assms] pad64.dec_enc [OF assms] pad64.length_enc [OF assms]
    pad_target_ge [of "4 + length body"] by simp

theorem message_padding_witness:
  "unpad_plaintext 32 (pad_plaintext [1, 2, 3]) = Inr [1, 2, 3] \<and> length (pad_plaintext [1, 2, 3]) = 256"
  using message_padding [of "[1, 2, 3]"] by (simp add: pad_target_def PAD_BUCKETS_def)



text \<open>Unpadding a message never panics where \<open>usize\<close> has 64 bits; where it has 32, a length
  prefix within four of the maximum wraps the bound check and the slice panics.\<close>

theorem unpad_panic_width:
  "\<not> is_panic (unpad_plaintext 64 padded) \<and>
   (4 \<le> length padded \<and> 2 ^ 32 - 4 \<le> from_be (take 4 padded) \<longrightarrow> is_panic (unpad_plaintext 32 padded))"
  using unpad_plaintext_no_panic_64 unpad_plaintext_panic [OF refl] by blast

theorem unpad_panic_width_witness:
  "is_panic (unpad_plaintext 32 (replicate 256 255)) \<and> \<not> is_panic (unpad_plaintext 64 (replicate 256 255))"
proof -
  have "take 4 (replicate 256 (255 :: byte)) = [255, 255, 255, 255]" by (simp add: eval_nat_numeral)
  then have "2 ^ 32 - 4 \<le> from_be (take 4 (replicate 256 255))" by (simp add: from_be_def be_val_def)
  then show ?thesis using unpad_panic_width [of "replicate 256 255"] by simp
qed

end
