(* ===== verification/Crypto.thy ===== *)
theory Crypto
imports Identity Padding
begin

text \<open>
  The sealing layer of \<open>capsules/hey-core/src/crypto.rs\<close>: the key schedule, the hybrid
  envelope and the attachment blob.

  The primitives come from crates outside the repository (\<open>x25519-dalek\<close>, \<open>ml-kem\<close>,
  \<open>hkdf\<close>, \<open>chacha20poly1305\<close>, \<open>ed25519-compact\<close>, \<open>sha2\<close>, \<open>base64\<close>); they are the fields
  of the record \<open>prims\<close>, an argument of every definition that uses one, together with
  the width of \<open>usize\<close>. \<open>prims_ok\<close> states what those crates document, and random values
  drawn from \<open>OsRng\<close> are arguments.
\<close>

section \<open>Primitives\<close>

record prims =
  usize_bits :: nat
  x_pub :: "bytes \<Rightarrow> bytes"
  x_dh :: "bytes \<Rightarrow> bytes \<Rightarrow> bytes"
  hkdf :: "bytes option \<Rightarrow> bytes \<Rightarrow> string \<Rightarrow> nat \<Rightarrow> bytes"
  hkdf_prk :: "bytes \<Rightarrow> string \<Rightarrow> nat \<Rightarrow> bytes"
  kem_gen :: "bytes \<Rightarrow> bytes \<times> bytes"
  kem_encaps :: "bytes \<Rightarrow> bytes \<Rightarrow> bytes \<times> bytes"
  kem_decaps :: "bytes \<Rightarrow> bytes \<Rightarrow> bytes"
  aead_seal :: "bytes \<Rightarrow> bytes \<Rightarrow> bytes \<Rightarrow> bytes"
  aead_open :: "bytes \<Rightarrow> bytes \<Rightarrow> bytes \<Rightarrow> bytes option"
  b64_enc :: "bytes \<Rightarrow> string"
  b64_dec :: "string \<Rightarrow> bytes option"
  sha256 :: "bytes \<Rightarrow> bytes"
  ed_pub :: "bytes \<Rightarrow> bytes"
  ed_raw_sign :: "bytes \<Rightarrow> bytes \<Rightarrow> bytes"
  ed_raw_verify :: "bytes \<Rightarrow> bytes \<Rightarrow> bytes \<Rightarrow> bool"

definition prims_ok :: "prims \<Rightarrow> bool" where
  "prims_ok P =
    ((usize_bits P = 32 \<or> usize_bits P = 64) \<and>
     (\<forall>a. length (x_pub P a) = 32) \<and>
     (\<forall>a b. length (x_dh P a b) = 32) \<and>
     (\<forall>a b. x_dh P a (x_pub P b) = x_dh P b (x_pub P a)) \<and>
     (\<forall>s i t n. length (hkdf P s i t n) = n) \<and>
     (\<forall>k t n. length (hkdf_prk P k t n) = n) \<and>
     (\<forall>r. length (fst (kem_gen P r)) = 2400 \<and> length (snd (kem_gen P r)) = 1184) \<and>
     (\<forall>e r. length (fst (kem_encaps P e r)) = 1088) \<and>
     (\<forall>g r. kem_decaps P (fst (kem_gen P g)) (fst (kem_encaps P (snd (kem_gen P g)) r)) =
            snd (kem_encaps P (snd (kem_gen P g)) r)) \<and>
     (\<forall>k n p. aead_open P k n (aead_seal P k n p) = Some p) \<and>
     (\<forall>k n p. length (aead_seal P k n p) = length p + 16) \<and>
     (\<forall>b. b64_dec P (b64_enc P b) = Some b) \<and>
     (\<forall>b. length (sha256 P b) = 32) \<and>
     (\<forall>s. length (ed_pub P s) = 32) \<and>
     (\<forall>s m. length (ed_raw_sign P s m) = 64) \<and>
     (\<forall>s m. ed_raw_verify P (ed_pub P s) m (ed_raw_sign P s m)))"

section \<open>Key schedule\<close>

record user_keys =
  x25519_priv :: bytes
  x25519_pub :: bytes
  ml_kem_secret_bytes :: bytes
  ml_kem_public_bytes :: bytes

record public_keys =
  x25519_pub_b64 :: string
  ml_kem_pub_b64 :: string

definition user_public :: "prims \<Rightarrow> user_keys \<Rightarrow> public_keys" where
  "user_public P u = \<lparr>x25519_pub_b64 = b64_enc P (x25519_pub u),
                      ml_kem_pub_b64 = b64_enc P (ml_kem_public_bytes u)\<rparr>"

text \<open>The private half of an X25519 pair is the seed itself.\<close>

definition x25519_from_seed :: "prims \<Rightarrow> bytes \<Rightarrow> bytes \<times> bytes" where
  "x25519_from_seed P seed = (seed, x_pub P seed)"

definition keys_from_seed_and_kem :: "prims \<Rightarrow> bytes \<Rightarrow> bytes \<Rightarrow> bytes \<Rightarrow> user_keys" where
  "keys_from_seed_and_kem P seed kem_secret kem_public =
     (let (priv, pub) = x25519_from_seed P seed in
      \<lparr>x25519_priv = priv, x25519_pub = pub,
       ml_kem_secret_bytes = kem_secret, ml_kem_public_bytes = kem_public\<rparr>)"

definition HKDF_INFO :: string where
  "HKDF_INFO = ''hey-messenger/hpq-1''"

definition derive_key :: "prims \<Rightarrow> bytes \<Rightarrow> bytes \<Rightarrow> bytes" where
  "derive_key P x25519_secret kem_secret = hkdf P None (x25519_secret @ kem_secret) HKDF_INFO 32"

definition dh :: "prims \<Rightarrow> bytes \<Rightarrow> bytes \<Rightarrow> bytes" where
  "dh P our_priv their_pub = x_dh P our_priv their_pub"

definition ratchet_keypair :: "prims \<Rightarrow> bytes \<Rightarrow> bytes \<times> bytes" where
  "ratchet_keypair P seed = (seed, x_pub P seed)"

definition root_init :: "prims \<Rightarrow> bytes \<Rightarrow> bytes \<Rightarrow> bytes" where
  "root_init P x3dh kem_ss = hkdf P None (x3dh @ kem_ss) ''hey-chat/ratchet/root-init/v1'' 32"

definition kdf_rk :: "prims \<Rightarrow> bytes \<Rightarrow> bytes \<Rightarrow> bytes \<times> bytes" where
  "kdf_rk P rk dh_out = (let out = hkdf P (Some rk) dh_out ''hey-chat/ratchet/root/v1'' 64
     in (take 32 out, drop 32 out))"

definition kdf_rk_hybrid :: "prims \<Rightarrow> bytes \<Rightarrow> bytes \<Rightarrow> bytes \<Rightarrow> bytes \<times> bytes" where
  "kdf_rk_hybrid P rk dh_out kem_ss =
     (let out = hkdf P (Some rk) (dh_out @ kem_ss) ''hey-chat/ratchet/root-hybrid/v1'' 64
      in (take 32 out, drop 32 out))"

definition kdf_ck :: "prims \<Rightarrow> bytes \<Rightarrow> bytes \<times> bytes" where
  "kdf_ck P ck = (hkdf_prk P ck ''hey-chat/ratchet/mk/v1'' 32, hkdf_prk P ck ''hey-chat/ratchet/ck/v1'' 32)"

section \<open>Envelopes\<close>

record hpq_envelope =
  env_v :: string
  env_eph :: string
  env_kem :: string
  env_n :: string
  env_ct :: string

definition ENVELOPE_VERSION :: string where
  "ENVELOPE_VERSION = ''hpq-2''"

text \<open>Encapsulation and decapsulation with the size checks of the code (\<open>try_into\<close>).\<close>

definition ml_kem_encapsulate_local :: "prims \<Rightarrow> bytes \<Rightarrow> bytes \<Rightarrow> (bytes \<times> bytes) res" where
  "ml_kem_encapsulate_local P kem_pub rnd =
     (if length kem_pub \<noteq> 1184 then Inl (Error ''ml-kem encapsulation key wrong size'')
      else Inr (kem_encaps P kem_pub rnd))"

definition ml_kem_decapsulate_local :: "prims \<Rightarrow> bytes \<Rightarrow> bytes \<Rightarrow> bytes res" where
  "ml_kem_decapsulate_local P kem_ct kem_secret =
     (if length kem_secret \<noteq> 2400 then Inl (Error ''ml-kem decapsulation key wrong size'')
      else if length kem_ct \<noteq> 1088 then Inl (Error ''ml-kem ciphertext wrong size'')
      else Inr (kem_decaps P kem_secret kem_ct))"

definition encrypt_to_hybrid ::
    "prims \<Rightarrow> string \<Rightarrow> bytes \<Rightarrow> bytes \<Rightarrow> bytes \<Rightarrow> bytes \<Rightarrow> bytes \<Rightarrow> hpq_envelope res" where
  "encrypt_to_hybrid P plaintext recipient_x25519_pub recipient_kem_pub eph_seed kem_rnd nonce =
     (let x25519_secret = x_dh P eph_seed recipient_x25519_pub in
      bindR (ml_kem_encapsulate_local P recipient_kem_pub kem_rnd) (\<lambda>(kem_ct, kem_secret).
      let key = derive_key P x25519_secret kem_secret;
          ct = aead_seal P key nonce (pad_plaintext (as_bytes plaintext))
      in Inr \<lparr>env_v = ENVELOPE_VERSION, env_eph = b64_enc P (x_pub P eph_seed),
              env_kem = b64_enc P kem_ct, env_n = b64_enc P nonce, env_ct = b64_enc P ct\<rparr>))"

definition encrypt_with_mk ::
    "prims \<Rightarrow> string \<Rightarrow> bytes \<Rightarrow> bytes \<Rightarrow> bytes \<Rightarrow> bytes \<Rightarrow> bytes \<Rightarrow> hpq_envelope res" where
  "encrypt_with_mk P plaintext mk recipient_kem_pub ratchet_dh_pub kem_rnd nonce =
     bindR (ml_kem_encapsulate_local P recipient_kem_pub kem_rnd) (\<lambda>(kem_ct, kem_secret).
      let key = derive_key P mk kem_secret;
          ct = aead_seal P key nonce (pad_plaintext (as_bytes plaintext))
      in Inr \<lparr>env_v = ENVELOPE_VERSION, env_eph = b64_enc P ratchet_dh_pub,
              env_kem = b64_enc P kem_ct, env_n = b64_enc P nonce, env_ct = b64_enc P ct\<rparr>)"

definition envelope_recipient_inputs :: "prims \<Rightarrow> hpq_envelope \<Rightarrow> (bytes \<times> bytes) res" where
  "envelope_recipient_inputs P env =
     bindR (of_option ''eph b64'' (b64_dec P (env_eph env))) (\<lambda>eph.
     bindR (of_option ''kem b64'' (b64_dec P (env_kem env))) (\<lambda>kem_ct. Inr (eph, kem_ct)))"

definition open_with_secrets :: "prims \<Rightarrow> hpq_envelope \<Rightarrow> bytes \<Rightarrow> bytes \<Rightarrow> string res" where
  "open_with_secrets P env x25519_shared kem_shared =
     bindR (guardR (env_v env = ''hpq-1'' \<or> env_v env = ''hpq-2'') ''unsupported envelope version'') (\<lambda>_.
     bindR (of_option ''nonce b64'' (b64_dec P (env_n env))) (\<lambda>nonce.
     bindR (guardR (length nonce = 12) ''nonce wrong size'') (\<lambda>_.
     bindR (of_option ''ct b64'' (b64_dec P (env_ct env))) (\<lambda>ct.
     bindR (of_option ''chacha decrypt'' (aead_open P (derive_key P x25519_shared kem_shared) nonce ct)) (\<lambda>pt.
     bindR (if env_v env = ''hpq-2'' then unpad_plaintext (usize_bits P) pt else Inr pt) (\<lambda>body.
     of_option ''plaintext not utf-8'' (from_utf8 body)))))))"

text \<open>\<open>Ciphertext::clone_from_slice\<close> panics on a ciphertext of another size.\<close>

definition decrypt_hybrid :: "prims \<Rightarrow> hpq_envelope \<Rightarrow> user_keys \<Rightarrow> string res" where
  "decrypt_hybrid P env keys =
     bindR (envelope_recipient_inputs P env) (\<lambda>(eph, kem_ct).
     bindR (guardR (length eph = 32) ''eph wrong size'') (\<lambda>_.
     bindR (guardR (length (ml_kem_secret_bytes keys) = 2400) ''ml-kem decapsulation key wrong size'') (\<lambda>_.
     if length kem_ct \<noteq> 1088 then Inl (Panic ''slice of the wrong length'')
     else open_with_secrets P env (x_dh P (x25519_priv keys) eph)
            (kem_decaps P (ml_kem_secret_bytes keys) kem_ct))))"

section \<open>Attachments\<close>

definition ATT_PAD_MAGIC :: bytes where
  "ATT_PAD_MAGIC = as_bytes ''HPA1''"

definition encrypt_attachment :: "prims \<Rightarrow> bytes \<Rightarrow> bytes \<Rightarrow> bytes \<Rightarrow> bytes \<times> string" where
  "encrypt_attachment P plaintext key nonce =
     (ATT_PAD_MAGIC @ nonce @ aead_seal P key nonce (pad_attachment (usize_bits P) plaintext),
      b64_enc P key)"

definition decrypt_attachment :: "prims \<Rightarrow> bytes \<Rightarrow> string \<Rightarrow> bytes res" where
  "decrypt_attachment P blob key_b64 =
     bindR (of_option ''attachment key b64'' (b64_dec P key_b64)) (\<lambda>key.
     bindR (guardR (length key = 32) ''attachment key must be 32 bytes'') (\<lambda>_.
     let padded_format = (4 \<le> length blob \<and> take 4 blob = ATT_PAD_MAGIC);
         body = (if padded_format then drop 4 blob else blob)
     in bindR (guardR (12 + 16 \<le> length body) ''attachment ciphertext too short (nonce+tag)'') (\<lambda>_.
        bindR (of_option ''attachment decrypt (auth fail)'' (aead_open P key (take 12 body) (drop 12 body))) (\<lambda>pt.
        if padded_format then unpad_attachment (usize_bits P) pt else Inr pt))))"

section \<open>A concrete instance of the primitives\<close>

text \<open>Functions that satisfy \<open>prims_ok\<close>, used to apply theorems at concrete inputs.\<close>

definition fit :: "nat \<Rightarrow> bytes \<Rightarrow> bytes" where
  "fit n bs = take n (bs @ replicate n 0)"

definition sample_prims :: "nat \<Rightarrow> prims" where
  "sample_prims w = \<lparr>
     usize_bits = w,
     x_pub = fit 32,
     x_dh = (\<lambda>a b. map2 (\<lambda>x y. x + y) (fit 32 a) (fit 32 b)),
     hkdf = (\<lambda>s i t n. fit n (i @ as_bytes t)),
     hkdf_prk = (\<lambda>k t n. fit n (take 8 k @ drop 17 (as_bytes t))),
     kem_gen = (\<lambda>r. (fit 2400 r, fit 1184 r)),
     kem_encaps = (\<lambda>e r. (fit 1088 (fit 32 r), fit 32 r)),
     kem_decaps = (\<lambda>d c. take 32 c),
     aead_seal = (\<lambda>k n p. p @ fit 16 k),
     aead_open = (\<lambda>k n c. if drop (length c - 16) c = fit 16 k then Some (take (length c - 16) c) else None),
     b64_enc = of_bytes,
     b64_dec = (\<lambda>s. Some (as_bytes s)),
     sha256 = fit 32,
     ed_pub = fit 32,
     ed_raw_sign = (\<lambda>s m. fit 32 s @ fit 32 m),
     ed_raw_verify = (\<lambda>p m g. g = p @ fit 32 m)\<rparr>"

lemma length_fit [simp]: "length (fit n bs) = n"
  by (simp add: fit_def)

lemma fit_fit [simp]: "n \<le> m \<Longrightarrow> take n (fit m (fit n bs)) = fit n bs"
  by (simp add: fit_def)

lemma fit_id: "length bs = n \<Longrightarrow> fit n bs = bs"
  by (simp add: fit_def)

lemma sample_dh_commute: "map2 (\<lambda>x y. x + y) (fit 32 a) (fit 32 (fit 32 b)) =
    map2 (\<lambda>x y. x + y) (fit 32 b) (fit 32 (fit 32 a))"
proof -
  have "map2 (\<lambda>x y. x + y) xs ys = map2 (\<lambda>x y. x + y) ys xs" for xs ys :: bytes
    by (rule nth_equalityI) (auto simp: add.commute)
  then show ?thesis by (simp add: fit_id)
qed

lemma sample_prims_ok: "w = 32 \<or> w = 64 \<Longrightarrow> prims_ok (sample_prims w)"
  using sample_dh_commute by (simp add: prims_ok_def sample_prims_def fit_fit)

lemma usize_sample [simp]: "usize_bits (sample_prims w) = w"
  by (simp add: sample_prims_def)

section \<open>Lemmas\<close>

named_theorems prim_laws \<open>the documented laws of the primitives\<close>

lemma prims_okD [prim_laws]:
  assumes "prims_ok P"
  shows "length (x_pub P a) = 32" "length (x_dh P a b) = 32"
    "length (hkdf P s i t n) = n" "length (hkdf_prk P k t n) = n"
    "length (fst (kem_gen P r)) = 2400" "length (snd (kem_gen P r)) = 1184"
    "length (fst (kem_encaps P e r)) = 1088"
    "kem_decaps P (fst (kem_gen P g)) (fst (kem_encaps P (snd (kem_gen P g)) r)) =
       snd (kem_encaps P (snd (kem_gen P g)) r)"
    "aead_open P k n' (aead_seal P k n' p) = Some p"
    "length (aead_seal P k n' p) = length p + 16"
    "b64_dec P (b64_enc P bs) = Some bs"
    "length (sha256 P bs) = 32" "length (ed_pub P sd) = 32" "length (ed_raw_sign P sd bs) = 64"
    "ed_raw_verify P (ed_pub P sd) bs (ed_raw_sign P sd bs)"
  using assms unfolding prims_ok_def by simp_all

lemma x_dh_commute: "prims_ok P \<Longrightarrow> x_dh P a (x_pub P b) = x_dh P b (x_pub P a)"
  unfolding prims_ok_def by metis

lemma prims_ok_width: "prims_ok P \<Longrightarrow> usize_bits P = 32 \<or> usize_bits P = 64"
  unfolding prims_ok_def by blast

lemma length_kdf_rk [simp]: "prims_ok P \<Longrightarrow> length (fst (kdf_rk P rk d)) = 32 \<and> length (snd (kdf_rk P rk d)) = 32"
  by (simp add: kdf_rk_def Let_def prim_laws)

lemma length_kdf_rk_hybrid [simp]: "prims_ok P \<Longrightarrow>
    length (fst (kdf_rk_hybrid P rk d ss)) = 32 \<and> length (snd (kdf_rk_hybrid P rk d ss)) = 32"
  by (simp add: kdf_rk_hybrid_def Let_def prim_laws)

lemma length_kdf_ck [simp]: "prims_ok P \<Longrightarrow> length (fst (kdf_ck P ck)) = 32 \<and> length (snd (kdf_ck P ck)) = 32"
  by (simp add: kdf_ck_def prim_laws)

text \<open>Opening a sealed body with the secrets it was sealed under gives the body back.\<close>

lemma open_sealed:
  assumes P: "prims_ok P" and s: "4 + length s < 2 ^ 32" "utf8_valid (as_bytes s)"
    and n: "length nonce = 12"
    and e: "env_v env = ''hpq-2''" "env_n env = b64_enc P nonce"
      "env_ct env = b64_enc P (aead_seal P (derive_key P x k) nonce (pad_plaintext (as_bytes s)))"
  shows "open_with_secrets P env x k = Inr s"
proof -
  have "unpad_plaintext (usize_bits P) (pad_plaintext (as_bytes s)) = Inr (as_bytes s)"
    using prims_ok_width [OF P] s(1) by (intro unpad_pad_plaintext) auto
  then show ?thesis
    using s n e P by (simp add: open_with_secrets_def prim_laws from_utf8_def)
qed

lemma encrypt_to_hybrid_ok:
  assumes "length kp = 1184"
  shows "encrypt_to_hybrid P s xp kp eph rnd nonce = Inr \<lparr>env_v = ENVELOPE_VERSION,
     env_eph = b64_enc P (x_pub P eph), env_kem = b64_enc P (fst (kem_encaps P kp rnd)),
     env_n = b64_enc P nonce, env_ct = b64_enc P (aead_seal P
       (derive_key P (x_dh P eph xp) (snd (kem_encaps P kp rnd))) nonce (pad_plaintext (as_bytes s)))\<rparr>"
  using assms by (simp add: encrypt_to_hybrid_def ml_kem_encapsulate_local_def split: prod.split)

lemma encrypt_with_mk_ok:
  assumes "length kp = 1184"
  shows "encrypt_with_mk P s mk kp dhp rnd nonce = Inr \<lparr>env_v = ENVELOPE_VERSION,
     env_eph = b64_enc P dhp, env_kem = b64_enc P (fst (kem_encaps P kp rnd)),
     env_n = b64_enc P nonce, env_ct = b64_enc P (aead_seal P
       (derive_key P mk (snd (kem_encaps P kp rnd))) nonce (pad_plaintext (as_bytes s)))\<rparr>"
  using assms by (simp add: encrypt_with_mk_def ml_kem_encapsulate_local_def split: prod.split)

lemma hybrid_roundtrip:
  assumes P: "prims_ok P" and s: "4 + length s < 2 ^ 32" "utf8_valid (as_bytes s)"
    and n: "length nonce = 12"
    and k: "keys = keys_from_seed_and_kem P seed (fst (kem_gen P g)) (snd (kem_gen P g))"
  shows "bindR (encrypt_to_hybrid P s (x25519_pub keys) (ml_kem_public_bytes keys) eph rnd nonce)
     (\<lambda>env. decrypt_hybrid P env keys) = Inr s"
proof -
  define xs where "xs = x_dh P eph (x_pub P seed)"
  have d: "x_dh P seed (x_pub P eph) = xs" unfolding xs_def by (rule x_dh_commute [OF P])
  show ?thesis
    using s n P d
    by (simp add: k keys_from_seed_and_kem_def x25519_from_seed_def encrypt_to_hybrid_ok prim_laws
        decrypt_hybrid_def envelope_recipient_inputs_def ENVELOPE_VERSION_def open_sealed xs_def [symmetric])
qed

lemma attachment_roundtrip:
  assumes P: "prims_ok P" and l: "8 + length body < 2 ^ usize_bits P"
    and k: "length key = 32" "length nonce = 12"
  shows "decrypt_attachment P (fst (encrypt_attachment P body key nonce))
     (snd (encrypt_attachment P body key nonce)) = Inr body"
proof -
  have "unpad_attachment (usize_bits P) (pad_attachment (usize_bits P) body) = Inr body"
    using prims_ok_width [OF P] l by (intro unpad_pad_attachment) auto
  moreover have "length ATT_PAD_MAGIC = 4" by (simp add: ATT_PAD_MAGIC_def)
  ultimately show ?thesis
    using k P by (simp add: decrypt_attachment_def encrypt_attachment_def prim_laws)
qed

lemma length_attachment_blob:
  assumes "prims_ok P" "length nonce = 12"
  shows "length (fst (encrypt_attachment P body key nonce)) = att_bucket (usize_bits P) (8 + length body) + 32"
  using assms by (simp add: encrypt_attachment_def ATT_PAD_MAGIC_def length_pad_attachment prim_laws)

section \<open>Properties\<close>

text \<open>C12. An envelope sealed to a recipient's advertised keys opens with the recipient's own keys
  and gives the plaintext back.\<close>

theorem envelope_roundtrip:
  assumes "prims_ok P" "4 + length s < 2 ^ 32" "utf8_valid (as_bytes s)" "length nonce = 12"
    and "keys = keys_from_seed_and_kem P seed (fst (kem_gen P g)) (snd (kem_gen P g))"
  shows "bindR (encrypt_to_hybrid P s (x25519_pub keys) (ml_kem_public_bytes keys) eph rnd nonce)
     (\<lambda>env. decrypt_hybrid P env keys) = Inr s"
  by (rule hybrid_roundtrip [OF assms])

theorem envelope_roundtrip_witness:
  "bindR (encrypt_to_hybrid (sample_prims 32) ''hello'' (x_pub (sample_prims 32) [1])
       (snd (kem_gen (sample_prims 32) [2])) [3] [4] (replicate 12 0))
     (\<lambda>env. decrypt_hybrid (sample_prims 32) env
       (keys_from_seed_and_kem (sample_prims 32) [1] (fst (kem_gen (sample_prims 32) [2]))
         (snd (kem_gen (sample_prims 32) [2])))) = Inr ''hello''"
  using envelope_roundtrip [OF sample_prims_ok [of 32], where s = "''hello''" and nonce = "replicate 12 0"
      and seed = "[1]" and g = "[2]" and eph = "[3]" and rnd = "[4]"]
  by (simp add: utf8_valid_def as_bytes_def byte_of_char_def keys_from_seed_and_kem_def x25519_from_seed_def)

text \<open>C13. An encrypted attachment decrypts to the file under the key that travels with the
  message, and the stored blob is the bucket of the file plus a fixed overhead of 32 bytes.\<close>

theorem attachment_seal:
  assumes "prims_ok P" "8 + length body < 2 ^ usize_bits P" "length key = 32" "length nonce = 12"
  shows "decrypt_attachment P (fst (encrypt_attachment P body key nonce))
      (snd (encrypt_attachment P body key nonce)) = Inr body \<and>
    length (fst (encrypt_attachment P body key nonce)) = att_bucket (usize_bits P) (8 + length body) + 32"
  using attachment_roundtrip [OF assms] length_attachment_blob [OF assms(1,4)] by blast

theorem attachment_seal_witness:
  "decrypt_attachment (sample_prims 64)
      (fst (encrypt_attachment (sample_prims 64) [7, 8] (replicate 32 1) (replicate 12 2)))
      (snd (encrypt_attachment (sample_prims 64) [7, 8] (replicate 32 1) (replicate 12 2))) = Inr [7, 8]"
  using attachment_seal [OF sample_prims_ok [of 64], of "[7, 8]" "replicate 32 1" "replicate 12 2"] by simp

end
