(* ===== verification/Json.thy ===== *)
theory Json
imports Prelude Complex_Main
begin

text \<open>
  JSON values as \<open>serde_json\<close> represents them. Integers are those that fit \<open>i64\<close> or
  \<open>u64\<close>, any other number is a finite float (a rational); an object is the list of its
  members, with the accessors \<open>get\<close>, \<open>as_str\<close> and so on that the code uses.
\<close>

datatype json = JNull | JBool bool | JInt int | JFloat rat | JStr string
  | JArr "json list" | JObj "(string \<times> json) list"

fun j_get :: "string \<Rightarrow> json \<Rightarrow> json option" where
  "j_get k (JObj ms) = map_of ms k"
| "j_get k _ = None"

fun j_str :: "json \<Rightarrow> string option" where
  "j_str (JStr s) = Some s"
| "j_str _ = None"

fun j_int :: "json \<Rightarrow> int option" where
  "j_int (JInt i) = Some i"
| "j_int _ = None"

fun j_bool :: "json \<Rightarrow> bool option" where
  "j_bool (JBool b) = Some b"
| "j_bool _ = None"

fun j_arr :: "json \<Rightarrow> json list option" where
  "j_arr (JArr l) = Some l"
| "j_arr _ = None"

definition j_get_str :: "string \<Rightarrow> json \<Rightarrow> string option" where
  "j_get_str k v = Option.bind (j_get k v) j_str"

end
