(* ===== verification/Events.thy ===== *)
theory Events
imports Crypto Json "HOL-Library.List_Lexorder" "HOL-Library.Char_ord"
begin

text \<open>
  \<open>capsules/hey-core/src/events.rs\<close>: the canonical text of a JSON value, and signed events.
  \<open>jstr\<close> is \<open>serde_json::to_string\<close> on strings, the quoted and escaped literal.
\<close>

section \<open>Canonical text\<close>

fun nat_str :: "nat \<Rightarrow> string" where
  "nat_str n = (if n < 10 then [char_of (48 + n)] else nat_str (n div 10) @ [char_of (48 + n mod 10)])"

declare nat_str.simps [simp del]

definition int_str :: "int \<Rightarrow> string" where
  "int_str i = (if i < 0 then CHR ''-'' # nat_str (nat (- i)) else nat_str (nat i))"

fun commas :: "string list \<Rightarrow> string" where
  "commas [] = []"
| "commas [x] = x"
| "commas (x # y # ys) = x @ '','' @ commas (y # ys)"

text \<open>A float whose value is an integer below 2^63 is written as that integer, any other as 0.\<close>

definition float_int :: "rat \<Rightarrow> int" where
  "float_int q = (if of_int \<lfloor>q\<rfloor> = q \<and> \<bar>q\<bar> < 2 ^ 63 then \<lfloor>q\<rfloor> else 0)"

fun write_canonical :: "(string \<Rightarrow> string) \<Rightarrow> json \<Rightarrow> string" where
  "write_canonical jstr JNull = ''null''"
| "write_canonical jstr (JBool b) = (if b then ''true'' else ''false'')"
| "write_canonical jstr (JInt i) = int_str i"
| "write_canonical jstr (JFloat q) = int_str (float_int q)"
| "write_canonical jstr (JStr s) = jstr s"
| "write_canonical jstr (JArr vs) = ''['' @ commas (map (write_canonical jstr) vs) @ '']''"
| "write_canonical jstr (JObj ms) = ''{'' @ commas (map (\<lambda>(k, t). jstr k @ '':'' @ t)
     (sort_key fst (map (\<lambda>(k, v). (k, write_canonical jstr v)) ms))) @ ''}''"

definition canonicalize :: "(string \<Rightarrow> string) \<Rightarrow> json \<Rightarrow> string" where
  "canonicalize jstr v = write_canonical jstr v"

definition bytes_to_sign :: "(string \<Rightarrow> string) \<Rightarrow> string \<Rightarrow> json \<Rightarrow> string \<Rightarrow> int \<Rightarrow> string" where
  "bytes_to_sign jstr event_type payload sender_did ts = canonicalize jstr
     (JObj [(''type'', JStr event_type), (''payload'', payload), (''sender_did'', JStr sender_did), (''ts'', JInt ts)])"

section \<open>Signed events\<close>

record signed_event =
  ev_type :: string
  ev_payload :: json
  ev_sender_did :: string
  ev_ts :: int
  ev_signature :: string

text \<open>\<open>session\<close> is the DID of the current session, \<open>sign\<close> the identity provider.\<close>

definition create_signed_event :: "(string \<Rightarrow> string) \<Rightarrow> string option \<Rightarrow> (string \<Rightarrow> json res) \<Rightarrow> int \<Rightarrow>
    string \<Rightarrow> json \<Rightarrow> signed_event res" where
  "create_signed_event jstr session sign now event_type payload =
     (if event_type = [] then Inl (Error ''event.type is required'')
      else bindR (case session of
          Some d \<Rightarrow> if strip_prefix ''did:key:z'' d \<noteq> None then Inr d
                    else Inl (Error ''provider-backed event: no session did:key'')
        | None \<Rightarrow> Inl (Error ''provider-backed event: no session did:key'')) (\<lambda>sender_did.
      let ts = max now 0 in
      bindR (sign (bytes_to_sign jstr event_type payload sender_did ts)) (\<lambda>resp.
      let d = (case j_get ''data'' resp of Some x \<Rightarrow> x | None \<Rightarrow> resp) in
      bindR (of_option ''provider sign: no signature_hex'' (j_get_str ''signature_hex'' d)) (\<lambda>signature.
      Inr \<lparr>ev_type = event_type, ev_payload = payload, ev_sender_did = sender_did, ev_ts = ts,
           ev_signature = signature\<rparr>))))"

datatype verify_result = Valid | Invalid string

definition verify_signed_event :: "prims \<Rightarrow> (string \<Rightarrow> string) \<Rightarrow> signed_event \<Rightarrow> verify_result res" where
  "verify_signed_event P jstr event =
     (if ev_type event = [] then Inr (Invalid ''bad-type'')
      else if strip_prefix ''did:key:z'' (ev_sender_did event) = None then Inr (Invalid ''bad-sender_did'')
      else if ev_ts event \<le> 0 then Inr (Invalid ''bad-ts'')
      else if length (ev_signature event) \<noteq> 128 then Inr (Invalid ''bad-signature-shape'')
      else case did_key_to_public_key (ev_sender_did event) of
        Inl _ \<Rightarrow> Inr (Invalid ''unresolvable-did'')
      | Inr pk \<Rightarrow> bindR (ed_verify (ed_raw_verify P)
            (as_bytes (bytes_to_sign jstr (ev_type event) (ev_payload event) (ev_sender_did event) (ev_ts event)))
            (ev_signature event) pk)
          (\<lambda>ok. Inr (if ok then Valid else Invalid ''signature-mismatch'')))"

section \<open>Lemmas: numbers\<close>

definition is_digit :: "char \<Rightarrow> bool" where
  "is_digit c = (48 \<le> (of_char c :: nat) \<and> (of_char c :: nat) \<le> 57)"

lemma nat_str_digits: "list_all is_digit (nat_str n) \<and> nat_str n \<noteq> []"
proof (induction n rule: nat_str.induct)
  case (1 n)
  have "n mod 10 < 10" by simp
  then show ?case using 1 by (cases "n < 10") (auto simp: nat_str.simps [of n] is_digit_def)
qed

definition digits_val :: "string \<Rightarrow> nat" where
  "digits_val s = foldl (\<lambda>a c. 10 * a + (of_char c - 48)) 0 s"

lemma digits_val_nat_str: "digits_val (nat_str n) = n"
proof (induction n rule: nat_str.induct)
  case (1 n)
  show ?case using 1 by (cases "n < 10") (auto simp: nat_str.simps [of n] digits_val_def)
qed

text \<open>What may follow a value inside a canonical text.\<close>

definition delimited :: "string \<Rightarrow> bool" where
  "delimited r = (r = [] \<or> hd r \<in> {CHR '','', CHR '']'', CHR ''}''})"

lemma digits_delimited:
  assumes "list_all is_digit s" "list_all is_digit t" "s @ r = t @ r'" "delimited r" "delimited r'"
  shows "s = t \<and> r = r'"
proof -
  have "takeWhile is_digit r = []" if "delimited r" for r
    using that by (cases r) (auto simp: delimited_def is_digit_def)
  then have "takeWhile is_digit (s @ r) = s" "takeWhile is_digit (t @ r') = t"
    using assms(1,2,4,5) by (simp_all add: takeWhile_append list_all_iff)
  then have "s = t" using assms(3) by simp
  then show ?thesis using assms(3) by simp
qed

lemma int_str_inject:
  assumes "int_str i @ r = int_str j @ r'" "delimited r" "delimited r'"
  shows "i = j \<and> r = r'"
proof -
  have ne: "hd (nat_str n) \<noteq> CHR ''-''" for n
    using nat_str_digits [of n] by (cases "nat_str n") (auto simp: is_digit_def)
  have inj: "m = n \<and> r = r'" if "nat_str m @ r = nat_str n @ r'" for m n
    using digits_delimited [OF _ _ that assms(2,3)] nat_str_digits digits_val_nat_str by metis
  have hd_app: "hd (nat_str n @ s) = hd (nat_str n)" for n s using nat_str_digits [of n] by simp
  show ?thesis
  proof (cases "i < 0"; cases "j < 0")
    assume "i < 0" "j < 0"
    then show ?thesis using assms(1) inj [of "nat (- i)" "nat (- j)"] by (simp add: int_str_def) linarith
  next
    assume "i < 0" "\<not> j < 0"
    then show ?thesis using assms(1) ne hd_app by (metis int_str_def append_Cons list.sel(1))
  next
    assume "\<not> i < 0" "j < 0"
    then show ?thesis using assms(1) ne hd_app by (metis int_str_def append_Cons list.sel(1))
  next
    assume "\<not> i < 0" "\<not> j < 0"
    then show ?thesis using assms(1) inj [of "nat i" "nat j"] by (simp add: int_str_def) linarith
  qed
qed

section \<open>Lemmas: the canonical text determines the normal form\<close>

text \<open>Members sorted by key and numbers replaced by the integer they are written as.\<close>

fun json_norm :: "json \<Rightarrow> json" where
  "json_norm (JFloat q) = JInt (float_int q)"
| "json_norm (JArr vs) = JArr (map json_norm vs)"
| "json_norm (JObj ms) = JObj (sort_key fst (map (\<lambda>(k, v). (k, json_norm v)) ms))"
| "json_norm v = v"

fun normal :: "json \<Rightarrow> bool" where
  "normal (JFloat q) = False"
| "normal (JArr vs) = list_all normal vs"
| "normal (JObj ms) = (sorted (map fst ms) \<and> list_all (\<lambda>(k, v). normal v) ms)"
| "normal v = True"

text \<open>What \<open>serde_json\<close> documents of a string literal: it is delimited by quotes and can be read
  off the front of a text.\<close>

definition jstr_ok :: "(string \<Rightarrow> string) \<Rightarrow> bool" where
  "jstr_ok jstr = ((\<forall>s. jstr s \<noteq> [] \<and> hd (jstr s) = CHR 0x22) \<and>
     (\<forall>s t r r'. jstr s @ r = jstr t @ r' \<longrightarrow> s = t \<and> r = r'))"

lemma jstr_okD:
  assumes "jstr_ok jstr"
  shows "jstr s \<noteq> []" "hd (jstr s) = CHR 0x22" "jstr s @ r = jstr t @ r' \<Longrightarrow> s = t \<and> r = r'"
  using assms unfolding jstr_ok_def by blast+

lemma insort_key_map:
  assumes "\<And>y. fst (h y) = fst y"
  shows "insort_key fst (h x) (map h xs) = map h (insort_key fst x xs)"
  by (induction xs) (simp_all add: assms)

lemma sort_key_map:
  assumes "\<And>y. fst (h y) = fst y"
  shows "sort_key fst (map h xs) = map h (sort_key fst xs)"
  by (induction xs) (simp_all add: insort_key_map [of h, OF assms])

lemma map_snd_map: "map (\<lambda>(k, t). f k t) (map (\<lambda>(k, v). (k, g v)) ms) = map (\<lambda>(k, v). f k (g v)) ms"
  by auto

definition member_text :: "(string \<Rightarrow> string) \<Rightarrow> string \<times> json \<Rightarrow> string" where
  "member_text jstr m = jstr (fst m) @ '':'' @ write_canonical jstr (snd m)"

lemma write_obj: "write_canonical jstr (JObj ms) = ''{'' @ commas (map (member_text jstr) (sort_key fst ms)) @ ''}''"
proof -
  have "sort_key fst (map (\<lambda>(k, v). (k, write_canonical jstr v)) ms) =
      map (\<lambda>(k, v). (k, write_canonical jstr v)) (sort_key fst ms)"
    by (rule sort_key_map) auto
  moreover have "member_text jstr = (\<lambda>m. jstr (fst m) @ '':'' @ write_canonical jstr (snd m))"
    by (rule ext) (rule member_text_def)
  ultimately show ?thesis by (simp add: comp_def case_prod_beta)
qed

lemma write_norm: "write_canonical jstr (json_norm v) = write_canonical jstr v"
proof (induction v rule: json_norm.induct)
  case (3 ms)
  let ?h = "\<lambda>(k, v). (k, json_norm v)"
  have "sort_key fst (map ?h ms) = map ?h (sort_key fst ms)" by (rule sort_key_map) auto
  then have "sort_key fst (sort_key fst (map ?h ms)) = map ?h (sort_key fst ms)"
    by (metis sort_key_id_if_sorted sorted_sort_key)
  moreover have "map (member_text jstr) (map ?h (sort_key fst ms)) = map (member_text jstr) (sort_key fst ms)"
    using 3 by (auto simp: member_text_def)
  ultimately show ?case unfolding json_norm.simps write_obj by (simp only:)
qed (auto cong: map_cong)

lemma normal_norm: "normal (json_norm v)"
proof (induction v rule: json_norm.induct)
  case (3 ms)
  then show ?case by (auto simp: list_all_iff)
qed (auto simp: list_all_iff)

fun value_kind :: "json \<Rightarrow> nat" where
  "value_kind JNull = 0" | "value_kind (JBool _) = 1" | "value_kind (JInt _) = 2" | "value_kind (JFloat _) = 2"
| "value_kind (JStr _) = 3" | "value_kind (JArr _) = 4" | "value_kind (JObj _) = 5"

definition char_kind :: "char \<Rightarrow> nat" where
  "char_kind c = (if c = CHR ''n'' then 0 else if c = CHR ''t'' \<or> c = CHR ''f'' then 1
     else if c = CHR 0x22 then 3 else if c = CHR ''['' then 4 else if c = CHR ''{'' then 5
     else if is_digit c \<or> c = CHR ''-'' then 2 else 6)"

lemma int_str_head: "int_str i \<noteq> [] \<and> char_kind (hd (int_str i)) = 2"
  using nat_str_digits [of "nat i"] nat_str_digits [of "nat (- i)"]
  by (cases "nat_str (nat i)") (auto simp: int_str_def char_kind_def is_digit_def)

lemma write_head:
  assumes "jstr_ok jstr"
  shows "write_canonical jstr v \<noteq> [] \<and> char_kind (hd (write_canonical jstr v)) = value_kind v"
  using int_str_head jstr_okD(1,2) [OF assms] by (cases v) (auto simp: char_kind_def)

lemma kind_less: "value_kind v < 6"
  by (cases v) auto

lemma write_hd_closing:
  assumes "jstr_ok jstr" "c = CHR '']'' \<or> c = CHR ''}'' \<or> c = CHR '',''"
  shows "write_canonical jstr v @ r \<noteq> c # r'"
proof
  assume "write_canonical jstr v @ r = c # r'"
  then have "hd (write_canonical jstr v) = c" using write_head [OF assms(1), of v] by (metis hd_append list.sel(1))
  then have "char_kind c < 6" using write_head [OF assms(1), of v] kind_less [of v] by simp
  then show False using assms(2) by (auto simp: char_kind_def is_digit_def)
qed

text \<open>Reading a comma-separated body back, for elements that can be read back.\<close>

definition readable :: "('a \<Rightarrow> string) \<Rightarrow> 'a \<Rightarrow> ('a \<Rightarrow> bool) \<Rightarrow> bool" where
  "readable f x Q = (\<forall>y r r'. Q y \<longrightarrow> delimited r \<longrightarrow> delimited r' \<longrightarrow> f x @ r = f y @ r' \<longrightarrow> x = y \<and> r = r')"

lemma commas_Cons: "commas (x # xs) = x @ (if xs = [] then [] else '','' @ commas xs)"
  by (cases xs) auto

lemma commas_inject:
  assumes c: "c = CHR '']'' \<or> c = CHR ''}''"
    and hd: "\<And>x r r'. Q x \<Longrightarrow> f x @ r \<noteq> c # r'"
  shows "\<forall>x \<in> set xs. Q x \<and> readable f x Q \<Longrightarrow> \<forall>y \<in> set ys. Q y \<Longrightarrow>
    commas (map f xs) @ c # r = commas (map f ys) @ c # r' \<Longrightarrow> xs = ys \<and> r = r'"
proof (induction xs arbitrary: ys)
  case Nil
  then show ?case using hd by (cases ys) (auto simp: commas_Cons, metis)
next
  case (Cons x xs)
  have "ys \<noteq> []"
  proof
    assume "ys = []"
    then have "f x @ (if xs = [] then [] else '','' @ commas (map f xs)) @ c # r = c # r'"
      using Cons.prems(3) by (simp add: commas_Cons)
    then show False using hd Cons.prems(1) by simp
  qed
  then obtain y ys' where ys: "ys = y # ys'" by (cases ys) auto
  define t where "t = (if xs = [] then [] else '','' @ commas (map f xs)) @ c # r"
  define u where "u = (if ys' = [] then [] else '','' @ commas (map f ys')) @ c # r'"
  have e: "f x @ t = f y @ u" using Cons.prems(3) by (simp add: ys commas_Cons t_def u_def)
  have "delimited t" "delimited u" using c by (auto simp: t_def u_def delimited_def)
  then have xy: "x = y" "t = u" using Cons.prems(1,2) e by (auto simp: ys readable_def)
  show ?case
  proof (cases "xs = []"; cases "ys' = []")
    assume "xs \<noteq> []" "ys' \<noteq> []"
    then have "commas (map f xs) @ c # r = commas (map f ys') @ c # r'" using xy(2) by (simp add: t_def u_def)
    then show ?thesis using Cons.IH [of ys'] Cons.prems(1,2) xy(1) by (simp add: ys)
  qed (use xy c in \<open>auto simp: t_def u_def ys\<close>)
qed

lemma member_readable:
  assumes j: "jstr_ok jstr" and v: "readable (write_canonical jstr) (snd m) normal"
  shows "readable (member_text jstr) m (\<lambda>m. normal (snd m))"
  unfolding readable_def
proof (intro allI impI)
  fix y r r' assume y: "normal (snd y)" "delimited r" "delimited r'"
    "member_text jstr m @ r = member_text jstr y @ r'"
  then have "jstr (fst m) @ '':'' @ write_canonical jstr (snd m) @ r =
      jstr (fst y) @ '':'' @ write_canonical jstr (snd y) @ r'"
    by (simp add: member_text_def)
  from jstr_okD(3) [OF j this]
  have "fst m = fst y" "write_canonical jstr (snd m) @ r = write_canonical jstr (snd y) @ r'" by auto
  then show "m = y \<and> r = r'" using v y by (auto simp: readable_def prod_eq_iff)
qed

lemma write_kind:
  assumes "jstr_ok jstr" "write_canonical jstr v @ r = write_canonical jstr w @ r'"
  shows "value_kind w = value_kind v"
  using assms write_head [OF assms(1), of v] write_head [OF assms(1), of w] by (metis hd_append)

lemma write_inject:
  assumes j: "jstr_ok jstr"
  shows "normal v \<Longrightarrow> readable (write_canonical jstr) v normal"
proof (induction v)
  case (JArr vs)
  show ?case unfolding readable_def
  proof (intro allI impI)
    fix y r r' assume y: "normal y" "delimited r" "delimited r'"
      "write_canonical jstr (JArr vs) @ r = write_canonical jstr y @ r'"
    then obtain ws where ws: "y = JArr ws" using write_kind [OF j y(4)] by (cases y) auto
    have "vs = ws \<and> r = r'"
    proof (rule commas_inject [where f = "write_canonical jstr" and Q = normal and c = "CHR '']''"])
      show "\<forall>x \<in> set vs. normal x \<and> readable (write_canonical jstr) x normal"
        using JArr by (simp add: list_all_iff)
    qed (use y ws write_hd_closing [OF j] in \<open>auto simp: list_all_iff\<close>)
    then show "JArr vs = y \<and> r = r'" using ws by simp
  qed
next
  case (JObj ms)
  show ?case unfolding readable_def
  proof (intro allI impI)
    fix y r r' assume y: "normal y" "delimited r" "delimited r'"
      "write_canonical jstr (JObj ms) @ r = write_canonical jstr y @ r'"
    then obtain ws where ws: "y = JObj ws" using write_kind [OF j y(4)] by (cases y) auto
    have s: "sort_key fst ms = ms" "sort_key fst ws = ws"
      using JObj.prems y(1) ws by (simp_all add: sort_key_id_if_sorted)
    have "ms = ws \<and> r = r'"
    proof (rule commas_inject [where f = "member_text jstr" and Q = "\<lambda>m. normal (snd m)" and c = "CHR ''}''"])
      show "\<forall>m \<in> set ms. normal (snd m) \<and> readable (member_text jstr) m (\<lambda>m. normal (snd m))"
      proof
        fix m assume m: "m \<in> set ms"
        have "normal (snd m)" using JObj.prems m by (auto simp: list_all_iff)
        then show "normal (snd m) \<and> readable (member_text jstr) m (\<lambda>m. normal (snd m))"
          using member_readable [OF j] JObj.IH [OF m] by (simp add: snds.intros)
      qed
      show "\<forall>m \<in> set ws. normal (snd m)" using y(1) ws by (auto simp: list_all_iff)
      show "commas (map (member_text jstr) ms) @ CHR ''}'' # r = commas (map (member_text jstr) ws) @ CHR ''}'' # r'"
        using y(4) unfolding ws write_obj s by simp
      show "member_text jstr x @ r \<noteq> CHR ''}'' # r'" for x r r'
        using jstr_okD(1,2) [OF j, of "fst x"] by (cases "jstr (fst x)") (auto simp: member_text_def)
    qed simp
    then show "JObj ms = y \<and> r = r'" using ws by simp
  qed
next
  case (JInt i)
  show ?case unfolding readable_def
  proof (intro allI impI)
    fix y r r' assume y: "normal y" "delimited r" "delimited r'"
      "write_canonical jstr (JInt i) @ r = write_canonical jstr y @ r'"
    have "value_kind y = value_kind (JInt i)" by (rule write_kind [OF j y(4)])
    then obtain k where k: "y = JInt k" using y(1) by (cases y) auto
    then have "int_str i @ r = int_str k @ r'" using y(4) by simp
    from int_str_inject [OF this y(2,3)] show "JInt i = y \<and> r = r'" using k by simp
  qed
next
  case (JStr s)
  show ?case unfolding readable_def
  proof (intro allI impI)
    fix y r r' assume y: "normal y" "delimited r" "delimited r'"
      "write_canonical jstr (JStr s) @ r = write_canonical jstr y @ r'"
    have "value_kind y = value_kind (JStr s)" by (rule write_kind [OF j y(4)])
    then obtain t where t: "y = JStr t" by (cases y) auto
    then have "jstr s @ r = jstr t @ r'" using y(4) by simp
    from jstr_okD(3) [OF j this] show "JStr s = y \<and> r = r'" using t by simp
  qed
next
  case JNull
  show ?case unfolding readable_def
  proof (intro allI impI)
    fix y r r' assume y: "normal y" "delimited r" "delimited r'"
      "write_canonical jstr JNull @ r = write_canonical jstr y @ r'"
    have "value_kind y = value_kind JNull" by (rule write_kind [OF j y(4)])
    then show "JNull = y \<and> r = r'" using y by (cases y) auto
  qed
next
  case (JBool b)
  show ?case unfolding readable_def
  proof (intro allI impI)
    fix y r r' assume y: "normal y" "delimited r" "delimited r'"
      "write_canonical jstr (JBool b) @ r = write_canonical jstr y @ r'"
    then obtain c where "y = JBool c" using write_kind [OF j y(4)] by (cases y) auto
    then show "JBool b = y \<and> r = r'" using y(4) by (cases b; cases c) simp_all
  qed
qed simp

lemma canonicalize_iff:
  assumes "jstr_ok jstr"
  shows "canonicalize jstr v = canonicalize jstr w \<longleftrightarrow> json_norm v = json_norm w"
proof
  assume "canonicalize jstr v = canonicalize jstr w"
  then have "write_canonical jstr (json_norm v) @ [] = write_canonical jstr (json_norm w) @ []"
    by (simp add: canonicalize_def write_norm)
  then show "json_norm v = json_norm w"
    using write_inject [OF assms normal_norm [of v]] normal_norm [of w]
    unfolding readable_def by (metis delimited_def)
next
  assume "json_norm v = json_norm w"
  then show "canonicalize jstr v = canonicalize jstr w"
    unfolding canonicalize_def by (metis write_norm)
qed

section \<open>Lemmas: verification\<close>

lemma ed_verify_sign:
  "prims_ok P \<Longrightarrow> ed_verify (ed_raw_verify P) m (ed_sign (ed_raw_sign P) m seed) (ed_pub P seed) = Inr True"
  by (simp add: ed_verify_def ed_sign_def hex_roundtrip prim_laws)

lemma hex_pairs_ascii: "list_all (\<lambda>c. (of_char c :: nat) < 128) s \<Longrightarrow> length s mod 2 = 0 \<Longrightarrow> \<not> is_panic (hex_pairs s)"
proof (induction s rule: hex_pairs.induct)
  case (3 c d cs)
  then have n: "\<not> (is_cont c \<or> (cs \<noteq> [] \<and> is_cont (hd cs)))"
    by (auto simp: is_cont_def neq_Nil_conv)
  show ?case
  proof (cases "from_str_radix_16 c d")
    case None
    then show ?thesis using n by (simp only: hex_pairs.simps if_False option.case is_panic.simps simp_thms)
  next
    case (Some b)
    have "\<not> is_panic (hex_pairs cs)" using 3 n Some by simp
    then show ?thesis using n Some by (simp add: is_panic_bindR)
  qed
qed auto

lemma ed_verify_ascii:
  assumes "list_all (\<lambda>c. (of_char c :: nat) < 128) sg"
  shows "\<not> is_panic (ed_verify rv m sg pk)"
proof -
  have "\<not> is_panic (hex_to_bytes sg)" using hex_pairs_ascii [OF assms] by (simp add: hex_to_bytes_def)
  then show ?thesis by (auto simp: ed_verify_def split: sum.splits fault.splits)
qed

lemma ed_verify_panic: "is_panic (hex_to_bytes sg) \<Longrightarrow> is_panic (ed_verify rv m sg pk)"
  by (cases "hex_to_bytes sg") (auto simp: ed_verify_def split: fault.splits)

text \<open>An event as a holder of the key signs it.\<close>

definition signed_by :: "prims \<Rightarrow> (string \<Rightarrow> string) \<Rightarrow> bytes \<Rightarrow> string \<Rightarrow> json \<Rightarrow> int \<Rightarrow> signed_event" where
  "signed_by P jstr seed t payload ts = (let did = public_key_to_did_key (ed_pub P seed) in
     \<lparr>ev_type = t, ev_payload = payload, ev_sender_did = did, ev_ts = ts,
      ev_signature = ed_sign (ed_raw_sign P) (as_bytes (bytes_to_sign jstr t payload did ts)) seed\<rparr>)"

lemma did_key_prefix: "strip_prefix ''did:key:z'' (public_key_to_did_key pk) = Some (base58_encode (ed25519_pub_multicodec @ pk))"
  unfolding strip_prefix_iff public_key_to_did_key_def by (rule refl)

lemma signed_by_valid:
  assumes "prims_ok P" "t \<noteq> []" "0 < ts"
  shows "verify_signed_event P jstr (signed_by P jstr seed t payload ts) = Inr Valid"
proof -
  have k: "did_key_to_public_key (public_key_to_did_key (ed_pub P seed)) = Inr (ed_pub P seed)"
    using did_key.dec_enc [of "ed_pub P seed"] assms(1) by (simp add: prim_laws)
  have "length (ev_signature (signed_by P jstr seed t payload ts)) = 128"
    using assms(1) by (simp add: signed_by_def Let_def ed_sign_def prim_laws)
  then show ?thesis
    using assms k unfolding verify_signed_event_def by (simp add: signed_by_def Let_def did_key_prefix ed_verify_sign)
qed

section \<open>Properties\<close>

text \<open>C21. Two values have the same canonical text exactly when they are equal up to the order of
  object members and the coercion of floats: the signature covers every member and nothing
  else but the fractional numbers, which are all signed as 0.\<close>

theorem canonical_text_injective:
  assumes "jstr_ok jstr"
  shows "canonicalize jstr v = canonicalize jstr w \<longleftrightarrow> json_norm v = json_norm w"
  by (rule canonicalize_iff [OF assms])

text \<open>An event signed by a provider that holds the key of the session's DID verifies.\<close>

theorem signed_event_verifies:
  assumes "prims_ok P" "sender = public_key_to_did_key (ed_pub P seed)"
    and "\<And>m. sign m = Inr (JObj [(''data'', JObj [(''signature_hex'', JStr (ed_sign (ed_raw_sign P) (as_bytes m) seed))])])"
    and "create_signed_event jstr (Some sender) sign now event_type payload = Inr ev" "0 < now"
  shows "verify_signed_event P jstr ev = Inr Valid"
proof -
  have t: "event_type \<noteq> []" using assms(4) by (auto simp: create_signed_event_def)
  have "ev = signed_by P jstr seed event_type payload now"
    using assms(3-5) t by (simp add: create_signed_event_def j_get_str_def signed_by_def Let_def assms(2) did_key_prefix)
  then show ?thesis using signed_by_valid [OF assms(1) t assms(5)] by simp
qed

text \<open>If verifying an event panics, its signature field is not ASCII; the witness is an event
  with a two-byte character in that field, on which it does.\<close>

theorem verify_panics_only_on_non_ascii:
  assumes "is_panic (verify_signed_event P jstr ev)"
  shows "\<not> list_all (\<lambda>c. (of_char c :: nat) < 128) (ev_signature ev)"
proof
  assume a: "list_all (\<lambda>c. (of_char c :: nat) < 128) (ev_signature ev)"
  have "is_panic (verify_signed_event P jstr ev) \<Longrightarrow> \<exists>m pk. is_panic (ed_verify (ed_raw_verify P) m (ev_signature ev) pk)"
    unfolding verify_signed_event_def by (auto simp: is_panic_bindR split: if_splits sum.splits)
  then show False using assms ed_verify_ascii [OF a] by blast
qed

definition sample_event :: signed_event where
  "sample_event = \<lparr>ev_type = ''post'', ev_payload = JNull,
     ev_sender_did = public_key_to_did_key (replicate 32 1), ev_ts = 1,
     ev_signature = ''0'' @ [char_of (195 :: nat), char_of (169 :: nat)] @ replicate 125 (CHR ''0'')\<rparr>"

lemma sample_event_panics: "is_panic (verify_signed_event (sample_prims 64) (\<lambda>s. s) sample_event)"
proof -
  have s: "strip_prefix ''did:key:z'' (ev_sender_did sample_event) \<noteq> None"
    by (simp add: sample_event_def public_key_to_did_key_def)
  have k: "did_key_to_public_key (ev_sender_did sample_event) = Inr (replicate 32 1)"
    using did_key.dec_enc [of "replicate 32 1"] by (simp add: sample_event_def)
  have "is_panic (hex_to_bytes (ev_signature sample_event))"
    by (simp add: sample_event_def hex_to_bytes_def is_cont_def)
  then have p: "is_panic (ed_verify rv m (ev_signature sample_event) pk)" for rv m pk
    by (rule ed_verify_panic)
  have "ev_type sample_event \<noteq> []" "\<not> ev_ts sample_event \<le> 0" "length (ev_signature sample_event) = 128"
    by (simp_all add: sample_event_def)
  then show ?thesis using s unfolding verify_signed_event_def k by (simp add: is_panic_bindR p)
qed

definition sample_jstr :: "string \<Rightarrow> string" where
  "sample_jstr s = CHR 0x22 # replicate (length s) (CHR ''1'') @ CHR ''0'' # s"

lemma sample_jstr_ok: "jstr_ok sample_jstr"
proof -
  have len: "m = n \<and> x = y" if "replicate m (CHR ''1'') @ CHR ''0'' # x = replicate n (CHR ''1'') @ CHR ''0'' # y" for m n x y
    using that
  proof (induction m arbitrary: n)
    case 0
    then show ?case by (cases n) auto
  next
    case (Suc m)
    then show ?case by (cases n) auto
  qed
  show ?thesis unfolding jstr_ok_def
  proof (intro conjI allI impI)
    fix s t r r' assume "sample_jstr s @ r = sample_jstr t @ r'"
    then have "length s = length t" "s @ r = t @ r'"
      using len [of "length s" "s @ r" "length t" "t @ r'"] by (auto simp: sample_jstr_def)
    then show "s = t" "r = r'" by auto
  qed (simp_all add: sample_jstr_def)
qed

theorem canonical_text_injective_witness:
  "canonicalize sample_jstr (JObj [(''b'', JFloat (3/2)), (''a'', JInt 1)]) =
   canonicalize sample_jstr (JObj [(''a'', JInt 1), (''b'', JInt 0)])"
  unfolding canonical_text_injective [OF sample_jstr_ok]
  by (simp add: float_int_def floor_divide_of_int_eq [of 3 2, where 'a = rat, simplified] list_less_def lexord_def)

theorem verify_panics_only_on_non_ascii_witness:
  "is_panic (verify_signed_event (sample_prims 64) (\<lambda>s. s) sample_event) \<and>
   \<not> list_all (\<lambda>c. (of_char c :: nat) < 128) (ev_signature sample_event)"
  using sample_event_panics verify_panics_only_on_non_ascii [OF sample_event_panics] by blast

theorem signed_event_verifies_witness:
  "\<exists>ev. create_signed_event (\<lambda>s. s) (Some (public_key_to_did_key (ed_pub (sample_prims 64) [5])))
       (\<lambda>m. Inr (JObj [(''data'', JObj [(''signature_hex'',
          JStr (ed_sign (ed_raw_sign (sample_prims 64)) (as_bytes m) [5]))])])) 1 ''post'' JNull = Inr ev \<and>
     verify_signed_event (sample_prims 64) (\<lambda>s. s) ev = Inr Valid"
proof -
  define sg where "sg = (\<lambda>m. Inr (JObj [(''data'', JObj [(''signature_hex'',
          JStr (ed_sign (ed_raw_sign (sample_prims 64)) (as_bytes m) [5]))])]) :: json res)"
  define d where "d = public_key_to_did_key (ed_pub (sample_prims 64) [5])"
  have "strip_prefix ''did:key:z'' d \<noteq> None" by (simp add: d_def public_key_to_did_key_def)
  then obtain ev where ev: "create_signed_event (\<lambda>s. s) (Some d) sg 1 ''post'' JNull = Inr ev"
    by (auto simp: create_signed_event_def sg_def j_get_str_def)
  have "verify_signed_event (sample_prims 64) (\<lambda>s. s) ev = Inr Valid"
    by (rule signed_event_verifies [OF sample_prims_ok d_def _ ev]) (simp_all add: sg_def)
  then show ?thesis using ev unfolding sg_def d_def by blast
qed

end
