(* ===== verification/Ratchet.thy ===== *)
theory Ratchet
imports Crypto
begin

text \<open>
  The Double Ratchet core of \<open>capsules/hey-core/src/api/dms.rs\<close> (no I/O): the state, the
  two initialisations, the DH/KEM turn and the sending and receiving steps.

  Key material is hex in the state, as the code stores it. The code mutates a state it throws
  away on error; here a step returns the new state with its result or an error. The values a
  turn draws from \<open>OsRng\<close> are the record \<open>turn_rand\<close> and the clock is the argument \<open>now\<close>.
  Counters are \<open>u32\<close>, written as numbers with the saturation or wrap-around of the code.
\<close>

section \<open>State\<close>

record ratchet_header =
  h_dh :: string
  h_pn :: nat
  h_n :: nat
  h_kem_ct :: "string option"
  h_kem_pub :: "string option"

record skipped_key =
  sk_dh :: string
  sk_n :: nat
  sk_mk :: string
  sk_stored_at :: int

record ratchet_state =
  rs_rk :: string
  rs_cks :: "string option"
  rs_ckr :: "string option"
  rs_dhs_priv :: string
  rs_dhs_pub :: string
  rs_dhr_pub :: "string option"
  rs_ns :: nat
  rs_nr :: nat
  rs_pn :: nat
  rs_skipped :: "skipped_key list"
  rs_kem_priv :: "string option"
  rs_kem_pub :: "string option"
  rs_peer_kem_pub :: "string option"
  rs_send_kem_ct :: "string option"

record turn_rand =
  tr_dh :: bytes
  tr_encaps :: bytes
  tr_gen :: bytes

definition MAX_SKIP :: nat where
  "MAX_SKIP = 1000"

definition MAX_SKIPPED_KEYS :: nat where
  "MAX_SKIPPED_KEYS = 2000"

definition SKIPPED_TTL_MS :: int where
  "SKIPPED_TTL_MS = 7 * 24 * 60 * 60 * 1000"

definition is_bootstrapped :: "ratchet_state \<Rightarrow> bool" where
  "is_bootstrapped st = (rs_rk st \<noteq> [])"

definition seed32 :: "string \<Rightarrow> bytes res" where
  "seed32 hex = bindR (hex_to_bytes hex) (\<lambda>v.
     if length v \<noteq> 32 then Inl (Error ''seed must be 32 bytes'') else Inr v)"

definition hx :: "bytes \<Rightarrow> string" where
  "hx b = bytes_to_hex b"

definition b32 :: "string \<Rightarrow> bytes res" where
  "b32 hex = seed32 hex"

section \<open>Turns\<close>

text \<open>The secret folded into the receiving root step: hybrid exactly when there is one.\<close>

definition root_step :: "prims \<Rightarrow> bytes \<Rightarrow> bytes \<Rightarrow> bytes option \<Rightarrow> bytes \<times> bytes" where
  "root_step P rk dh_out kem_ss = (case kem_ss of
     Some ss \<Rightarrow> kdf_rk_hybrid P rk dh_out ss | None \<Rightarrow> kdf_rk P rk dh_out)"

definition dh_ratchet ::
    "prims \<Rightarrow> turn_rand \<Rightarrow> ratchet_state \<Rightarrow> bytes \<Rightarrow> bytes option \<Rightarrow> ratchet_state res" where
  "dh_ratchet P R st dh_pub recv_kem_ss =
     bindR (b32 (rs_dhs_priv st)) (\<lambda>dhs_priv.
     bindR (b32 (rs_rk st)) (\<lambda>rk0.
     let (rk1, ckr) = root_step P rk0 (dh P dhs_priv dh_pub) recv_kem_ss;
         st1 = st\<lparr>rs_pn := rs_ns st, rs_ns := 0, rs_nr := 0,
                  rs_dhr_pub := Some (hx dh_pub), rs_ckr := Some (hx ckr)\<rparr>;
         (new_priv, new_pub) = ratchet_keypair P (tr_dh R);
         dh_send = dh P new_priv dh_pub
     in bindR (case rs_peer_kem_pub st1 of
          Some peer_kem_b64 \<Rightarrow>
            bindR (of_option ''peer_kem_pub b64'' (b64_dec P peer_kem_b64)) (\<lambda>peer_kem.
            bindR (ml_kem_encapsulate_local P peer_kem (tr_encaps R)) (\<lambda>(kem_ct, kem_ss).
            let (rk2, cks) = kdf_rk_hybrid P rk1 dh_send kem_ss;
                (new_kem_priv, new_kem_pub) = kem_gen P (tr_gen R)
            in Inr (rk2, cks, st1\<lparr>rs_kem_priv := Some (b64_enc P new_kem_priv),
                                 rs_kem_pub := Some (b64_enc P new_kem_pub),
                                 rs_send_kem_ct := Some (b64_enc P kem_ct)\<rparr>)))
        | None \<Rightarrow> (let (rk2, cks) = kdf_rk P rk1 dh_send in Inr (rk2, cks, st1\<lparr>rs_send_kem_ct := None\<rparr>)))
        (\<lambda>(rk2, cks, st2). Inr (st2\<lparr>rs_dhs_priv := hx new_priv, rs_dhs_pub := hx new_pub,
                                   rs_rk := hx rk2, rs_cks := Some (hx cks)\<rparr>))))"

definition ratchet_init_initiator :: "prims \<Rightarrow> turn_rand \<Rightarrow> bytes \<Rightarrow> bytes \<Rightarrow> ratchet_state" where
  "ratchet_init_initiator P R sk peer_prekey_pub =
     (let (dhs_priv, dhs_pub) = ratchet_keypair P (tr_dh R);
          (rk, cks) = kdf_rk P sk (dh P dhs_priv peer_prekey_pub);
          (kem_priv, kem_pub) = kem_gen P (tr_gen R)
      in \<lparr>rs_rk = hx rk, rs_cks = Some (hx cks), rs_ckr = None,
          rs_dhs_priv = hx dhs_priv, rs_dhs_pub = hx dhs_pub,
          rs_dhr_pub = Some (hx peer_prekey_pub), rs_ns = 0, rs_nr = 0, rs_pn = 0,
          rs_skipped = [], rs_kem_priv = Some (b64_enc P kem_priv),
          rs_kem_pub = Some (b64_enc P kem_pub),
          rs_peer_kem_pub = None, rs_send_kem_ct = None\<rparr>)"

text \<open>The responder draws a KEM pair of its own first (\<open>gen0\<close>), then turns.\<close>

definition ratchet_init_responder ::
    "prims \<Rightarrow> bytes \<Rightarrow> turn_rand \<Rightarrow> bytes \<Rightarrow> bytes \<Rightarrow> bytes \<Rightarrow> bytes \<Rightarrow> bytes option \<Rightarrow> ratchet_state res" where
  "ratchet_init_responder P gen0 R sk prekey_priv prekey_pub peer_dh_pub peer_kem_pub =
     (let (kem_priv, kem_pub) = kem_gen P gen0 in
      dh_ratchet P R
        \<lparr>rs_rk = hx sk, rs_cks = None, rs_ckr = None,
         rs_dhs_priv = hx prekey_priv, rs_dhs_pub = hx prekey_pub,
         rs_dhr_pub = None, rs_ns = 0, rs_nr = 0, rs_pn = 0,
         rs_skipped = [], rs_kem_priv = Some (b64_enc P kem_priv),
         rs_kem_pub = Some (b64_enc P kem_pub),
         rs_peer_kem_pub = map_option (b64_enc P) peer_kem_pub, rs_send_kem_ct = None\<rparr>
        peer_dh_pub None)"

section \<open>Skipped keys\<close>

definition evict_skipped :: "int \<Rightarrow> ratchet_state \<Rightarrow> ratchet_state" where
  "evict_skipped now st =
     (let cutoff = now - SKIPPED_TTL_MS;
          kept = filter (\<lambda>k. cutoff \<le> sk_stored_at k) (rs_skipped st)
      in st\<lparr>rs_skipped := (if length kept > MAX_SKIPPED_KEYS
                          then drop (length kept - MAX_SKIPPED_KEYS) kept else kept)\<rparr>)"

text \<open>The loop \<open>while st.nr < until\<close>, \<open>k\<close> iterations from index \<open>nr\<close> on: the stashed keys and
  the chain key it ends with.\<close>

fun skip_loop :: "prims \<Rightarrow> int \<Rightarrow> string \<Rightarrow> nat \<Rightarrow> nat \<Rightarrow> bytes \<Rightarrow> skipped_key list \<times> bytes" where
  "skip_loop P now dhr 0 nr ckr = ([], ckr)"
| "skip_loop P now dhr (Suc k) nr ckr =
     (let (mk, ckr_next) = kdf_ck P ckr;
          (ks, ck) = skip_loop P now dhr k (nr + 1) ckr_next
      in (\<lparr>sk_dh = dhr, sk_n = nr, sk_mk = hx mk, sk_stored_at = now\<rparr> # ks, ck))"

definition sat_add32 :: "nat \<Rightarrow> nat \<Rightarrow> nat" where
  "sat_add32 a b = min (a + b) (2 ^ 32 - 1)"

definition skip_message_keys :: "prims \<Rightarrow> int \<Rightarrow> ratchet_state \<Rightarrow> nat \<Rightarrow> ratchet_state res" where
  "skip_message_keys P now st stop =
     (if stop > sat_add32 (rs_nr st) MAX_SKIP
      then Inl (Error ''ratchet: would skip past MAX_SKIP'')
      else case rs_ckr st of
        None \<Rightarrow> Inr st
      | Some ckr_hex \<Rightarrow>
          bindR (of_option ''skip without dhr'' (rs_dhr_pub st)) (\<lambda>dhr.
          bindR (b32 ckr_hex) (\<lambda>ckr.
          let (ks, ck) = skip_loop P now dhr (stop - rs_nr st) (rs_nr st) ckr
          in Inr (evict_skipped now
               (st\<lparr>rs_skipped := rs_skipped st @ ks, rs_nr := max (rs_nr st) stop,
                   rs_ckr := Some (hx ck)\<rparr>)))))"

text \<open>\<open>position\<close> and \<open>remove\<close>: the first entry with the given chain and index.\<close>

fun take_skipped :: "string \<Rightarrow> nat \<Rightarrow> skipped_key list \<Rightarrow> (skipped_key \<times> skipped_key list) option" where
  "take_skipped d n [] = None"
| "take_skipped d n (k # ks) =
     (if sk_dh k = d \<and> sk_n k = n then Some (k, ks)
      else map_option (\<lambda>(x, r). (x, k # r)) (take_skipped d n ks))"

definition try_skipped ::
    "ratchet_state \<Rightarrow> string \<Rightarrow> nat \<Rightarrow> (bytes option \<times> ratchet_state) res" where
  "try_skipped st dh_hex n = (case take_skipped dh_hex n (rs_skipped st) of
     Some (k, rest) \<Rightarrow> bindR (b32 (sk_mk k)) (\<lambda>mk. Inr (Some mk, st\<lparr>rs_skipped := rest\<rparr>))
   | None \<Rightarrow> Inr (None, st))"

section \<open>Steps\<close>

definition ratchet_step_send :: "prims \<Rightarrow> ratchet_state \<Rightarrow> (bytes \<times> ratchet_header \<times> ratchet_state) res" where
  "ratchet_step_send P st =
     bindR (of_option ''ratchet has no sending chain yet'' (rs_cks st)) (\<lambda>cks.
     bindR (b32 cks) (\<lambda>ck.
     let (mk, cks_next) = kdf_ck P ck in
     bindR (b32 (rs_dhs_pub st)) (\<lambda>dhs.
     Inr (mk, \<lparr>h_dh = b64_enc P dhs, h_pn = rs_pn st, h_n = rs_ns st,
               h_kem_ct = rs_send_kem_ct st, h_kem_pub = rs_kem_pub st\<rparr>,
          st\<lparr>rs_cks := Some (hx cks_next), rs_ns := (rs_ns st + 1) mod 2 ^ 32\<rparr>))))"

text \<open>The most keys a message can force the receiver to derive before its own.\<close>

definition new_epoch :: "ratchet_state \<Rightarrow> string \<Rightarrow> bool" where
  "new_epoch st dh_hex = (rs_dhr_pub st \<noteq> Some dh_hex)"

definition total_skip :: "ratchet_state \<Rightarrow> string \<Rightarrow> nat \<Rightarrow> nat \<Rightarrow> nat" where
  "total_skip st dh_hex pn n =
     (if new_epoch st dh_hex then sat_add32 (pn - rs_nr st) n else sat_add32 0 (n - rs_nr st))"

text \<open>The KEM half of a turn: decapsulate the ciphertext, or refuse a turn without one from
  a peer that has advertised a rolling key.\<close>

definition turn_kem_secret :: "prims \<Rightarrow> ratchet_state \<Rightarrow> string option \<Rightarrow> bytes option res" where
  "turn_kem_secret P st kem_ct_b64 = (case kem_ct_b64 of
     Some ct_b64 \<Rightarrow>
       bindR (of_option ''hybrid turn but we hold no rolling KEM private'' (rs_kem_priv st)) (\<lambda>priv_b64.
       bindR (of_option ''rolling kem_ct b64'' (b64_dec P ct_b64)) (\<lambda>ct.
       bindR (of_option ''rolling kem_priv b64'' (b64_dec P priv_b64)) (\<lambda>dk.
       bindR (ml_kem_decapsulate_local P ct dk) (\<lambda>ss. Inr (Some ss)))))
   | None \<Rightarrow> (if rs_peer_kem_pub st \<noteq> None
       then Inl (Error ''ratchet: hybrid contact received a classical turn (downgrade refused)'')
       else Inr None))"

text \<open>Step 3 of \<open>ratchet_step_recv\<close>: a new epoch ends the old chain at \<open>pn\<close> and turns.\<close>

definition recv_turn :: "prims \<Rightarrow> turn_rand \<Rightarrow> int \<Rightarrow> ratchet_state \<Rightarrow> bytes \<Rightarrow> nat \<Rightarrow>
    string option \<Rightarrow> string option \<Rightarrow> ratchet_state res" where
  "recv_turn P R now st dh_bytes pn kem_ct_b64 kem_pub_b64 =
     bindR (turn_kem_secret P st kem_ct_b64) (\<lambda>recv_kem_ss.
     let st1 = (case kem_pub_b64 of Some kp \<Rightarrow> st\<lparr>rs_peer_kem_pub := Some kp\<rparr> | None \<Rightarrow> st) in
     bindR (skip_message_keys P now st1 pn) (\<lambda>st2.
     dh_ratchet P R st2 dh_bytes recv_kem_ss))"

text \<open>Step 4: skip to \<open>n\<close> within the current chain and derive the next key.\<close>

definition recv_chain :: "prims \<Rightarrow> int \<Rightarrow> ratchet_state \<Rightarrow> nat \<Rightarrow> (bytes \<times> ratchet_state) res" where
  "recv_chain P now st n =
     bindR (skip_message_keys P now st n) (\<lambda>st1.
     bindR (of_option ''ratchet has no receiving chain'' (rs_ckr st1)) (\<lambda>ckr.
     bindR (b32 ckr) (\<lambda>ck.
     let (mk, ckr_next) = kdf_ck P ck in
     Inr (mk, st1\<lparr>rs_ckr := Some (hx ckr_next), rs_nr := (rs_nr st1 + 1) mod 2 ^ 32\<rparr>))))"

definition ratchet_step_recv :: "prims \<Rightarrow> turn_rand \<Rightarrow> int \<Rightarrow> ratchet_state \<Rightarrow> string \<Rightarrow> bytes \<Rightarrow>
    nat \<Rightarrow> nat \<Rightarrow> string option \<Rightarrow> string option \<Rightarrow> (bytes \<times> ratchet_state) res" where
  "ratchet_step_recv P R now st dh_hex dh_bytes pn n kem_ct_b64 kem_pub_b64 =
     bindR (try_skipped st dh_hex n) (\<lambda>(found, st0). case found of
       Some mk \<Rightarrow> Inr (mk, st0)
     | None \<Rightarrow>
         if total_skip st0 dh_hex pn n > MAX_SKIP
         then Inl (Error ''ratchet: combined skip exceeds MAX_SKIP'')
         else bindR (if new_epoch st0 dh_hex
                     then recv_turn P R now st0 dh_bytes pn kem_ct_b64 kem_pub_b64 else Inr st0)
                (\<lambda>st1. recv_chain P now st1 n))"

section \<open>Lemmas: hex fields\<close>

lemma b32_hx [simp]: "length b = 32 \<Longrightarrow> b32 (hx b) = Inr b"
  by (simp add: b32_def seed32_def hx_def hex_roundtrip)

lemma b32_length [dest]: "b32 s = Inr b \<Longrightarrow> length b = 32"
  by (auto simp: b32_def seed32_def res_inv split: if_splits)

lemma hx_inject [simp]: "hx a = hx b \<longleftrightarrow> a = b"
  by (simp add: hx_def hex.enc_inject)

section \<open>Lemmas: chains\<close>

text \<open>The chain key and the message key at an index of the chain that starts at \<open>g\<close>.\<close>

fun ck_at :: "prims \<Rightarrow> bytes \<Rightarrow> nat \<Rightarrow> bytes" where
  "ck_at P g 0 = g"
| "ck_at P g (Suc k) = snd (kdf_ck P (ck_at P g k))"

definition mk_at :: "prims \<Rightarrow> bytes \<Rightarrow> nat \<Rightarrow> bytes" where
  "mk_at P g k = fst (kdf_ck P (ck_at P g k))"

lemma length_ck_at [simp]: "prims_ok P \<Longrightarrow> length g = 32 \<Longrightarrow> length (ck_at P g k) = 32"
  by (cases k) auto

lemma length_mk_at [simp]: "prims_ok P \<Longrightarrow> length (mk_at P g k) = 32"
  by (simp add: mk_at_def)

text \<open>What the skipping loop stashes: the message keys of the indices it passes.\<close>

definition stash :: "prims \<Rightarrow> int \<Rightarrow> string \<Rightarrow> bytes \<Rightarrow> nat \<Rightarrow> nat \<Rightarrow> skipped_key list" where
  "stash P now d g a b =
     map (\<lambda>i. \<lparr>sk_dh = d, sk_n = i, sk_mk = hx (mk_at P g i), sk_stored_at = now\<rparr>) [a..<b]"

lemma stash_Cons: "a < b \<Longrightarrow> stash P now d g a b =
    \<lparr>sk_dh = d, sk_n = a, sk_mk = hx (mk_at P g a), sk_stored_at = now\<rparr> # stash P now d g (Suc a) b"
  by (simp add: stash_def upt_conv_Cons)

lemma kdf_ck_at: "kdf_ck P (ck_at P g a) = (mk_at P g a, ck_at P g (Suc a))"
  by (simp add: mk_at_def)

lemma skip_loop_eq: "skip_loop P now d k a (ck_at P g a) = (stash P now d g a (a + k), ck_at P g (a + k))"
proof (induction k arbitrary: a)
  case (Suc k)
  show ?case using Suc.IH [of "Suc a"]
    by (simp add: kdf_ck_at stash_Cons [of a] del: ck_at.simps)
qed (simp add: stash_def)

lemma length_stash [simp]: "length (stash P now d g a b) = b - a"
  by (simp add: stash_def)

lemma length_skip_loop: "length (fst (skip_loop P now d k a ck)) = k"
  by (induction k arbitrary: a ck) (auto split: prod.splits simp: Let_def, metis fst_conv)

section \<open>Lemmas: bounds of the stash\<close>

lemma evict_skipped_length: "length (rs_skipped (evict_skipped now st)) \<le> MAX_SKIPPED_KEYS"
  by (simp add: evict_skipped_def Let_def)

lemma evict_skipped_le: "length (rs_skipped (evict_skipped now st)) \<le> length (rs_skipped st)"
proof -
  have "length (filter (\<lambda>k. now - SKIPPED_TTL_MS \<le> sk_stored_at k) (rs_skipped st)) \<le> length (rs_skipped st)"
    by (rule length_filter_le)
  then show ?thesis unfolding evict_skipped_def Let_def
    by (simp del: length_filter_le)
qed

lemma evict_skipped_fields: "rs_nr (evict_skipped now st) = rs_nr st" "rs_ckr (evict_skipped now st) = rs_ckr st"
    "rs_peer_kem_pub (evict_skipped now st) = rs_peer_kem_pub st"
  by (simp_all add: evict_skipped_def Let_def)

lemma take_skipped_length: "take_skipped d n ks = Some (k, r) \<Longrightarrow> length ks = Suc (length r)"
  by (induction ks arbitrary: r) (auto split: if_splits)

lemma skip_message_keys_stash:
  assumes "skip_message_keys P now st stop = Inr st'"
  shows "length (rs_skipped st') \<le> max (length (rs_skipped st)) MAX_SKIPPED_KEYS"
    and "length (rs_skipped st') \<le> length (rs_skipped st) + (stop - rs_nr st)"
    and "rs_nr st' = (if rs_ckr st = None then rs_nr st else max (rs_nr st) stop)"
    and "rs_peer_kem_pub st' = rs_peer_kem_pub st" "rs_ckr st' = None \<longleftrightarrow> rs_ckr st = None"
proof -
  have "length (rs_skipped st') \<le> max (length (rs_skipped st)) MAX_SKIPPED_KEYS \<and>
     length (rs_skipped st') \<le> length (rs_skipped st) + (stop - rs_nr st) \<and>
     rs_nr st' = (if rs_ckr st = None then rs_nr st else max (rs_nr st) stop) \<and>
     rs_peer_kem_pub st' = rs_peer_kem_pub st \<and> (rs_ckr st' = None \<longleftrightarrow> rs_ckr st = None)"
  proof (cases "rs_ckr st")
    case None
    then show ?thesis using assms by (auto simp: skip_message_keys_def split: if_splits)
  next
    case (Some ckr_hex)
    then obtain d ck where d: "rs_dhr_pub st = Some d" "b32 ckr_hex = Inr ck"
      using assms by (auto simp: skip_message_keys_def res_inv split: if_splits)
    obtain ks c where *: "skip_loop P now d (stop - rs_nr st) (rs_nr st) ck = (ks, c)" by force
    have st': "evict_skipped now (st\<lparr>rs_skipped := rs_skipped st @ ks, rs_nr := max (rs_nr st) stop,
                   rs_ckr := Some (hx c)\<rparr>) = st'"
      using assms Some d * by (auto simp: skip_message_keys_def split: if_splits)
    have "length ks = stop - rs_nr st" using * length_skip_loop by (metis fst_conv)
    then show ?thesis
      using Some st' [symmetric] evict_skipped_length [of now] evict_skipped_le [of now
          "st\<lparr>rs_skipped := rs_skipped st @ ks, rs_nr := max (rs_nr st) stop, rs_ckr := Some (hx c)\<rparr>"]
      by (simp add: evict_skipped_fields le_max_iff_disj)
  qed
  then show "length (rs_skipped st') \<le> max (length (rs_skipped st)) MAX_SKIPPED_KEYS"
    and "length (rs_skipped st') \<le> length (rs_skipped st) + (stop - rs_nr st)"
    and "rs_nr st' = (if rs_ckr st = None then rs_nr st else max (rs_nr st) stop)"
    and "rs_peer_kem_pub st' = rs_peer_kem_pub st" "rs_ckr st' = None \<longleftrightarrow> rs_ckr st = None"
    by blast+
qed

lemma dh_ratchet_fields:
  assumes "dh_ratchet P R st d ss = Inr st'"
  shows "rs_skipped st' = rs_skipped st" "rs_nr st' = 0" "rs_ns st' = 0" "rs_pn st' = rs_ns st"
    "rs_dhr_pub st' = Some (hx d)" "rs_ckr st' \<noteq> None" "rs_cks st' \<noteq> None"
    "rs_dhs_pub st' = hx (x_pub P (tr_dh R))" "rs_dhs_priv st' = hx (tr_dh R)"
    "rs_peer_kem_pub st' = rs_peer_kem_pub st"
    "rs_send_kem_ct st' = None \<longleftrightarrow> rs_peer_kem_pub st = None"
proof -
  have "rs_skipped st' = rs_skipped st \<and> rs_nr st' = 0 \<and> rs_ns st' = 0 \<and> rs_pn st' = rs_ns st \<and>
    rs_dhr_pub st' = Some (hx d) \<and> rs_ckr st' \<noteq> None \<and> rs_cks st' \<noteq> None \<and>
    rs_dhs_pub st' = hx (x_pub P (tr_dh R)) \<and> rs_dhs_priv st' = hx (tr_dh R) \<and>
    rs_peer_kem_pub st' = rs_peer_kem_pub st \<and>
    (rs_send_kem_ct st' = None \<longleftrightarrow> rs_peer_kem_pub st = None)"
  proof (cases "rs_peer_kem_pub st")
    case None
    then show ?thesis using assms
      by (auto simp: dh_ratchet_def res_inv ratchet_keypair_def Let_def case_prod_beta)
  next
    case (Some kp)
    then show ?thesis using assms
      by (auto simp: dh_ratchet_def res_inv ratchet_keypair_def Let_def case_prod_beta)
  qed
  then show "rs_skipped st' = rs_skipped st" "rs_nr st' = 0" "rs_ns st' = 0" "rs_pn st' = rs_ns st"
    "rs_dhr_pub st' = Some (hx d)" "rs_ckr st' \<noteq> None" "rs_cks st' \<noteq> None"
    "rs_dhs_pub st' = hx (x_pub P (tr_dh R))" "rs_dhs_priv st' = hx (tr_dh R)"
    "rs_peer_kem_pub st' = rs_peer_kem_pub st"
    "rs_send_kem_ct st' = None \<longleftrightarrow> rs_peer_kem_pub st = None"
    by blast+
qed

section \<open>Lemmas: the receiving step\<close>

lemma sat_add32_le: "sat_add32 a b \<le> MAX_SKIP \<longleftrightarrow> a + b \<le> MAX_SKIP"
  by (auto simp: sat_add32_def MAX_SKIP_def min_def)

lemma try_skipped_cases:
  assumes "try_skipped st d n = Inr (found, st0)"
  obtains (hit) k r mk where "take_skipped d n (rs_skipped st) = Some (k, r)" "b32 (sk_mk k) = Inr mk"
      "found = Some mk" "st0 = st\<lparr>rs_skipped := r\<rparr>"
    | (miss) "take_skipped d n (rs_skipped st) = None" "found = None" "st0 = st"
  using assms by (auto simp: try_skipped_def res_inv split: option.splits)

text \<open>A successful receipt either took a stashed key or turned (on a new epoch) and then
  advanced the chain, within the work bound.\<close>

lemma ratchet_step_recv_cases:
  assumes "ratchet_step_recv P R now st d db pn n kct kpub = Inr (mk, st')"
  obtains (stashed) k r where "take_skipped d n (rs_skipped st) = Some (k, r)" "b32 (sk_mk k) = Inr mk"
      "st' = st\<lparr>rs_skipped := r\<rparr>"
    | (derived) st1 where "take_skipped d n (rs_skipped st) = None" "total_skip st d pn n \<le> MAX_SKIP"
      "if new_epoch st d then recv_turn P R now st db pn kct kpub = Inr st1 else st1 = st"
      "recv_chain P now st1 n = Inr (mk, st')"
proof -
  obtain found st0 where t: "try_skipped st d n = Inr (found, st0)"
    using assms by (auto simp: ratchet_step_recv_def res_inv)
  from t show thesis
  proof (cases rule: try_skipped_cases)
    case (hit k r m)
    then show thesis using assms t by (intro stashed) (auto simp: ratchet_step_recv_def)
  next
    case miss
    then show thesis using assms t derived
      by (auto simp: ratchet_step_recv_def res_inv split: if_splits)
  qed
qed

lemma recv_chain_fields:
  assumes "recv_chain P now st n = Inr (mk, st')"
  shows "length (rs_skipped st') \<le> max (length (rs_skipped st)) MAX_SKIPPED_KEYS"
    and "length (rs_skipped st') \<le> length (rs_skipped st) + (n - rs_nr st)"
    and "rs_peer_kem_pub st' = rs_peer_kem_pub st"
proof -
  obtain st1 where "skip_message_keys P now st n = Inr st1"
      "rs_skipped st' = rs_skipped st1" "rs_peer_kem_pub st' = rs_peer_kem_pub st1"
    using assms by (auto simp: recv_chain_def res_inv Let_def case_prod_beta)
  then show "length (rs_skipped st') \<le> max (length (rs_skipped st)) MAX_SKIPPED_KEYS"
    and "length (rs_skipped st') \<le> length (rs_skipped st) + (n - rs_nr st)"
    and "rs_peer_kem_pub st' = rs_peer_kem_pub st"
    using skip_message_keys_stash by metis+
qed

lemma recv_turn_fields:
  assumes "recv_turn P R now st db pn kct kpub = Inr st'"
  shows "length (rs_skipped st') \<le> max (length (rs_skipped st)) MAX_SKIPPED_KEYS"
    and "length (rs_skipped st') \<le> length (rs_skipped st) + (pn - rs_nr st)" and "rs_nr st' = 0"
    and "rs_peer_kem_pub st' = (case kpub of Some kp \<Rightarrow> Some kp | None \<Rightarrow> rs_peer_kem_pub st)"
    and "kct = None \<Longrightarrow> rs_peer_kem_pub st = None"
    and "rs_dhs_priv st' = hx (tr_dh R)" and "rs_ns st' = 0"
proof -
  define st1 where "st1 = (case kpub of Some kp \<Rightarrow> st\<lparr>rs_peer_kem_pub := Some kp\<rparr> | None \<Rightarrow> st)"
  obtain ss st2 where *: "turn_kem_secret P st kct = Inr ss" "skip_message_keys P now st1 pn = Inr st2"
      "dh_ratchet P R st2 db ss = Inr st'"
    using assms by (auto simp: recv_turn_def res_inv Let_def st1_def [symmetric])
  have 1: "rs_skipped st1 = rs_skipped st" "rs_nr st1 = rs_nr st"
      "rs_peer_kem_pub st1 = (case kpub of Some kp \<Rightarrow> Some kp | None \<Rightarrow> rs_peer_kem_pub st)"
    by (simp_all add: st1_def split: option.split)
  note f = dh_ratchet_fields [OF *(3)] skip_message_keys_stash [OF *(2)]
  show "length (rs_skipped st') \<le> max (length (rs_skipped st)) MAX_SKIPPED_KEYS"
    and "length (rs_skipped st') \<le> length (rs_skipped st) + (pn - rs_nr st)" and "rs_nr st' = 0"
    and "rs_peer_kem_pub st' = (case kpub of Some kp \<Rightarrow> Some kp | None \<Rightarrow> rs_peer_kem_pub st)"
    and "rs_dhs_priv st' = hx (tr_dh R)" and "rs_ns st' = 0"
    using f 1 by simp_all
  show "kct = None \<Longrightarrow> rs_peer_kem_pub st = None"
    using *(1) by (auto simp: turn_kem_secret_def split: if_splits)
qed

lemma recv_skipped_bound:
  assumes "length (rs_skipped st) \<le> MAX_SKIPPED_KEYS"
    and "ratchet_step_recv P R now st d db pn n kct kpub = Inr (mk, st')"
  shows "length (rs_skipped st') \<le> MAX_SKIPPED_KEYS \<and>
    length (rs_skipped st') \<le> length (rs_skipped st) + MAX_SKIP"
  using assms(2)
proof (cases rule: ratchet_step_recv_cases)
  case (stashed k r)
  then show ?thesis using take_skipped_length assms(1) by fastforce
next
  case (derived st1)
  note c = recv_chain_fields [OF derived(4)]
  show ?thesis
  proof (cases "new_epoch st d")
    case True
    then have t: "recv_turn P R now st db pn kct kpub = Inr st1" using derived(3) by simp
    note f = recv_turn_fields [OF t]
    have "(pn - rs_nr st) + n \<le> MAX_SKIP" using derived(2) True by (simp add: total_skip_def sat_add32_le)
    then show ?thesis using c(1,2) f(1-3) assms(1) by (simp add: max_def split: if_splits)
  next
    case False
    then have "st1 = st" "n - rs_nr st \<le> MAX_SKIP"
      using derived by (simp_all add: total_skip_def sat_add32_le)
    then show ?thesis using c(1,2) assms(1) by simp
  qed
qed

lemma recv_peer_kem:
  assumes "ratchet_step_recv P R now st d db pn n kct kpub = Inr (mk, st')"
    and "rs_peer_kem_pub st \<noteq> None"
  shows "rs_peer_kem_pub st' \<noteq> None \<and>
    (kct = None \<longrightarrow> rs_dhr_pub st = Some d \<or> (\<exists>k \<in> set (rs_skipped st). sk_dh k = d \<and> sk_n k = n))"
  using assms(1)
proof (cases rule: ratchet_step_recv_cases)
  case (stashed k r)
  have "take_skipped d n ks = Some (k, r) \<Longrightarrow> \<exists>k \<in> set ks. sk_dh k = d \<and> sk_n k = n" for ks k r
    by (induction ks arbitrary: r) (auto split: if_splits)
  then show ?thesis using stashed assms(2) by auto
next
  case (derived st1)
  note c = recv_chain_fields [OF derived(4)]
  show ?thesis
  proof (cases "new_epoch st d")
    case True
    then show ?thesis using derived(3) recv_turn_fields(4,5) [of P R now st db pn kct kpub st1] c(3) assms(2)
      by (auto split: option.splits)
  next
    case False
    then show ?thesis using derived(3) c(3) assms(2) by (simp add: new_epoch_def)
  qed
qed

section \<open>Properties\<close>

text \<open>C10. A message whose header counters are forged cannot make the receiver stash more than
  1000 keys, and the stash never holds more than 2000.\<close>

theorem ratchet_work_bound:
  assumes "length (rs_skipped st) \<le> MAX_SKIPPED_KEYS"
    and "ratchet_step_recv P R now st d db pn n kct kpub = Inr (mk, st')"
  shows "length (rs_skipped st') \<le> MAX_SKIPPED_KEYS \<and>
    length (rs_skipped st') \<le> length (rs_skipped st) + MAX_SKIP"
  by (rule recv_skipped_bound [OF assms])

text \<open>C11. A contact that has advertised a rolling KEM key stays hybrid: no receipt forgets the
  key, and a message without a KEM ciphertext is only accepted on the chain already being
  read or from a key stashed for it.\<close>

theorem ratchet_no_downgrade:
  assumes "ratchet_step_recv P R now st d db pn n kct kpub = Inr (mk, st')"
    and "rs_peer_kem_pub st \<noteq> None"
  shows "rs_peer_kem_pub st' \<noteq> None \<and>
    (kct = None \<longrightarrow> rs_dhr_pub st = Some d \<or> (\<exists>k \<in> set (rs_skipped st). sk_dh k = d \<and> sk_n k = n))"
  by (rule recv_peer_kem [OF assms])

definition sample_recv_state :: ratchet_state where
  "sample_recv_state = \<lparr>rs_rk = hx (replicate 32 1), rs_cks = None, rs_ckr = Some (hx (replicate 32 2)),
     rs_dhs_priv = hx (replicate 32 3), rs_dhs_pub = hx (replicate 32 3), rs_dhr_pub = Some ''aa'',
     rs_ns = 0, rs_nr = 0, rs_pn = 0, rs_skipped = [], rs_kem_priv = None, rs_kem_pub = None,
     rs_peer_kem_pub = Some ''k'', rs_send_kem_ct = None\<rparr>"

lemma sample_recv: "\<exists>mk st. ratchet_step_recv (sample_prims 64) R 0 sample_recv_state ''aa'' [] 0 0 None None = Inr (mk, st)"
  by (simp add: ratchet_step_recv_def try_skipped_def sample_recv_state_def total_skip_def new_epoch_def
      sat_add32_def MAX_SKIP_def recv_chain_def skip_message_keys_def evict_skipped_def Let_def case_prod_beta)

theorem ratchet_work_bound_witness:
  "\<exists>mk st. ratchet_step_recv (sample_prims 64) \<lparr>tr_dh = [], tr_encaps = [], tr_gen = []\<rparr> 0 sample_recv_state ''aa'' [] 0 0 None None
      = Inr (mk, st) \<and> length (rs_skipped st) \<le> MAX_SKIPPED_KEYS"
  using sample_recv ratchet_work_bound [of sample_recv_state] by (fastforce simp: sample_recv_state_def)

theorem ratchet_no_downgrade_witness:
  "\<exists>mk st. ratchet_step_recv (sample_prims 64) \<lparr>tr_dh = [], tr_encaps = [], tr_gen = []\<rparr> 0 sample_recv_state ''aa'' [] 0 0 None None
      = Inr (mk, st) \<and> rs_peer_kem_pub st \<noteq> None"
proof -
  obtain mk st where "ratchet_step_recv (sample_prims 64) \<lparr>tr_dh = [], tr_encaps = [], tr_gen = []\<rparr> 0
      sample_recv_state ''aa'' [] 0 0 None None = Inr (mk, st)" using sample_recv by blast
  then show ?thesis using ratchet_no_downgrade [of "sample_prims 64" _ 0 sample_recv_state]
    by (fastforce simp: sample_recv_state_def)
qed

end
