(* ===== verification/Ratchet_Sync.thy ===== *)
theory Ratchet_Sync
imports Ratchet
begin

text \<open>
  Two devices running the ratchet of \<open>Ratchet\<close> against each other over a network that
  reorders and loses messages: the joint states, the steps, and the invariant that makes
  every receiver derive the key its sender sealed with.
\<close>

section \<open>The joint system\<close>

text \<open>One side: its ratchet and the messages on their way to it, each with the key the sender
  sealed it under (known to the model only).\<close>

record side =
  sd_st :: ratchet_state
  sd_in :: "(ratchet_header \<times> bytes) list"

type_synonym joint = "side \<times> side \<times> string set"

text \<open>The receiving step as \<open>receive_ratchet_message\<close> calls it: the ratchet key of the header
  is decoded and passed both raw and in hex.\<close>

definition recv_header :: "prims \<Rightarrow> turn_rand \<Rightarrow> int \<Rightarrow> ratchet_state \<Rightarrow> ratchet_header \<Rightarrow>
    (bytes \<times> ratchet_state) res" where
  "recv_header P R now st h =
     bindR (of_option ''eph b64'' (b64_dec P (h_dh h))) (\<lambda>d.
     ratchet_step_recv P R now st (hx d) d (h_pn h) (h_n h) (h_kem_ct h) (h_kem_pub h))"

definition hdr_hex :: "prims \<Rightarrow> ratchet_header \<Rightarrow> string" where
  "hdr_hex P h = (case b64_dec P (h_dh h) of Some d \<Rightarrow> hx d | None \<Rightarrow> [])"

text \<open>The conditions under which a delivery is required to succeed: the message stays within
  the skip bound, nothing in the stash is old or in excess, and a turn draws a ratchet key
  that has not been used.\<close>

definition deliverable :: "prims \<Rightarrow> string set \<Rightarrow> turn_rand \<Rightarrow> int \<Rightarrow> ratchet_state \<Rightarrow> ratchet_header \<Rightarrow> bool" where
  "deliverable P used R now st h =
     (total_skip st (hdr_hex P h) (h_pn h) (h_n h) \<le> MAX_SKIP \<and>
      length (rs_skipped st) + MAX_SKIP \<le> MAX_SKIPPED_KEYS \<and>
      (\<forall>k \<in> set (rs_skipped st). now - SKIPPED_TTL_MS \<le> sk_stored_at k) \<and>
      length (tr_dh R) = 32 \<and> hx (x_pub P (tr_dh R)) \<notin> used)"

inductive half_step :: "prims \<Rightarrow> joint \<Rightarrow> joint \<Rightarrow> bool" for P where
  send: "ratchet_step_send P (sd_st a) = Inr (mk, h, st) \<Longrightarrow> rs_ns (sd_st a) + 1 < 2 ^ 32 \<Longrightarrow>
    half_step P (a, b, used) (a\<lparr>sd_st := st\<rparr>, b\<lparr>sd_in := (h, mk) # sd_in b\<rparr>, used)"
| recv: "(h, mk) \<in> set (sd_in a) \<Longrightarrow> deliverable P used R now (sd_st a) h \<Longrightarrow>
    recv_header P R now (sd_st a) h = Inr (mk', st) \<Longrightarrow>
    half_step P (a, b, used)
      (\<lparr>sd_st = st, sd_in = removeAll (h, mk) (sd_in a)\<rparr>, b, insert (rs_dhs_pub st) used)"
| lose: "half_step P (a, b, used) (a\<lparr>sd_in := remove1 m (sd_in a)\<rparr>, b, used)"

inductive joint_step :: "prims \<Rightarrow> joint \<Rightarrow> joint \<Rightarrow> bool" for P where
  left: "half_step P (a, b, u) (a', b', u') \<Longrightarrow> joint_step P (a, b, u) (a', b', u')"
| right: "half_step P (b, a, u) (b', a', u') \<Longrightarrow> joint_step P (a, b, u) (a', b', u')"

text \<open>The state the handshake leaves: the accepter ran \<open>ratchet_init_initiator\<close> against the
  inviter's prekey, the inviter \<open>ratchet_init_responder\<close> on the accepter's first keys. The
  accepter's rolling KEM key rides the handshake or not.\<close>

inductive joint_start :: "prims \<Rightarrow> joint \<Rightarrow> bool" for P where
  start: "length sk = 32 \<Longrightarrow> length prekey = 32 \<Longrightarrow> length (tr_dh Ra) = 32 \<Longrightarrow> length (tr_dh Rb) = 32 \<Longrightarrow>
    a = ratchet_init_initiator P Ra sk (x_pub P prekey) \<Longrightarrow>
    kp = None \<or> kp = Some (snd (kem_gen P (tr_gen Ra))) \<Longrightarrow>
    ratchet_init_responder P gen0 Rb sk prekey (x_pub P prekey) (x_pub P (tr_dh Ra)) kp = Inr b \<Longrightarrow>
    distinct [x_pub P prekey, x_pub P (tr_dh Ra), x_pub P (tr_dh Rb)] \<Longrightarrow>
    joint_start P (\<lparr>sd_st = a, sd_in = []\<rparr>, \<lparr>sd_st = b, sd_in = []\<rparr>,
      {hx (x_pub P prekey), rs_dhs_pub a, rs_dhs_pub b})"

inductive joint_reachable :: "prims \<Rightarrow> joint \<Rightarrow> bool" for P where
  init: "joint_start P j \<Longrightarrow> joint_reachable P j"
| step: "joint_reachable P j \<Longrightarrow> joint_step P j j' \<Longrightarrow> joint_reachable P j'"

section \<open>The invariant\<close>

text \<open>\<open>G\<close> maps the hex of a ratchet key to the first chain key of the chain it opens.\<close>

definition party :: "prims \<Rightarrow> (string \<Rightarrow> bytes) \<Rightarrow> string set \<Rightarrow> ratchet_state \<Rightarrow> bytes \<Rightarrow> bytes \<Rightarrow> bytes \<Rightarrow> bool" where
  "party P G used st p r g =
     (length p = 32 \<and> length r = 32 \<and> rs_dhs_priv st = hx p \<and> rs_dhs_pub st = hx (x_pub P p) \<and>
      rs_rk st = hx r \<and> length (G (hx (x_pub P p))) = 32 \<and>
      rs_cks st = Some (hx (ck_at P (G (hx (x_pub P p))) (rs_ns st))) \<and> rs_ns st < 2 ^ 32 \<and>
      rs_kem_priv st = Some (b64_enc P (fst (kem_gen P g))) \<and>
      rs_kem_pub st = Some (b64_enc P (snd (kem_gen P g))) \<and>
      hx (x_pub P p) \<in> used \<and>
      (\<forall>e \<in> set (rs_skipped st). sk_dh e \<in> used \<and> sk_mk e = hx (mk_at P (G (sk_dh e)) (sk_n e))))"

definition stashed :: "ratchet_state \<Rightarrow> string \<Rightarrow> nat \<Rightarrow> bool" where
  "stashed st d n = (\<exists>e \<in> set (rs_skipped st). sk_dh e = d \<and> sk_n e = n)"

definition on_chain :: "prims \<Rightarrow> (string \<Rightarrow> bytes) \<Rightarrow> string set \<Rightarrow> ratchet_state \<Rightarrow> string \<Rightarrow> bool" where
  "on_chain P G used st d = (rs_dhr_pub st = Some d \<and> d \<in> used \<and> length (G d) = 32 \<and>
     rs_ckr st = Some (hx (ck_at P (G d) (rs_nr st))))"

definition msgs_ok :: "prims \<Rightarrow> (string \<Rightarrow> bytes) \<Rightarrow> string set \<Rightarrow> (ratchet_header \<times> bytes) list \<Rightarrow> bool" where
  "msgs_ok P G used ms =
     (distinct (map (\<lambda>m. (hdr_hex P (fst m), h_n (fst m))) ms) \<and>
      (\<forall>(h, mk) \<in> set ms. \<exists>d. h_dh h = b64_enc P d \<and> hx d \<in> used \<and> mk = mk_at P (G (hx d)) (h_n h) \<and> h_n h < 2 ^ 32 - 1))"

text \<open>A message on its way to the side that made the last turn is stashed there or ahead on the
  chain it reads; one on its way to the other side may also start the turn that side has not
  made, or be left on the previous chain.\<close>

definition to_latest :: "prims \<Rightarrow> ratchet_state \<Rightarrow> ratchet_state \<Rightarrow> ratchet_header \<Rightarrow> bool" where
  "to_latest P l f h =
     ((hdr_hex P h = rs_dhs_pub f \<longrightarrow> h_n h < rs_ns f) \<and>
      (stashed l (hdr_hex P h) (h_n h) \<or> hdr_hex P h = rs_dhs_pub f \<and> rs_nr l \<le> h_n h))"

definition to_follower :: "prims \<Rightarrow> ratchet_state \<Rightarrow> ratchet_state \<Rightarrow> ratchet_header \<Rightarrow> bool" where
  "to_follower P l f h =
     ((hdr_hex P h = rs_dhs_pub l \<longrightarrow> h_n h < rs_ns l) \<and>
      (stashed f (hdr_hex P h) (h_n h) \<or>
       hdr_hex P h = rs_dhs_pub l \<and> h_pn h = rs_pn l \<and> h_kem_ct h = rs_send_kem_ct l \<and>
         h_kem_pub h = rs_kem_pub l \<or>
       rs_dhr_pub f = Some (hdr_hex P h) \<and> rs_ckr f \<noteq> None \<and> rs_nr f \<le> h_n h \<and> h_n h < rs_pn l))"

text \<open>\<open>linked L F\<close>: \<open>L\<close> made the last turn, so it already reads \<open>F\<close>'s current chain, while \<open>F\<close>
  has not seen \<open>L\<close>'s current chain yet and reaches \<open>L\<close>'s root key by one root step.\<close>

definition turn_ahead :: "prims \<Rightarrow> (string \<Rightarrow> bytes) \<Rightarrow> ratchet_state \<Rightarrow> ratchet_state \<Rightarrow>
    bytes \<Rightarrow> bytes \<Rightarrow> bytes \<Rightarrow> bytes \<Rightarrow> bool" where
  "turn_ahead P G l f lp lr fp fr = (\<exists>ss. turn_kem_secret P f (rs_send_kem_ct l) = Inr ss \<and>
     root_step P fr (dh P fp (x_pub P lp)) ss = (lr, G (hx (x_pub P lp))))"

definition reads_old :: "prims \<Rightarrow> (string \<Rightarrow> bytes) \<Rightarrow> string set \<Rightarrow> ratchet_state \<Rightarrow> bool" where
  "reads_old P G used f = (rs_ckr f = None \<and> rs_nr f = 0 \<or> (\<exists>d. on_chain P G used f d))"

definition link_at :: "prims \<Rightarrow> (string \<Rightarrow> bytes) \<Rightarrow> string set \<Rightarrow> ratchet_state \<Rightarrow> (ratchet_header \<times> bytes) list \<Rightarrow>
    ratchet_state \<Rightarrow> (ratchet_header \<times> bytes) list \<Rightarrow>
    bytes \<Rightarrow> bytes \<Rightarrow> bytes \<Rightarrow> bytes \<Rightarrow> bytes \<Rightarrow> bytes \<Rightarrow> bool" where
  "link_at P G used l il f fi lp lr lg fp fr fg =
    (party P G used l lp lr lg \<and> party P G used f fp fr fg \<and>
     msgs_ok P G used il \<and> msgs_ok P G used fi \<and>
     on_chain P G used l (rs_dhs_pub f) \<and> rs_nr l \<le> rs_ns f \<and>
     turn_ahead P G l f lp lr fp fr \<and>
     rs_dhr_pub f \<noteq> Some (rs_dhs_pub l) \<and> reads_old P G used f \<and>
     rs_nr f \<le> rs_pn l \<and> rs_pn l < 2 ^ 32 \<and>
     (\<forall>m \<in> set il. to_latest P l f (fst m)) \<and>
     (\<forall>m \<in> set fi. to_follower P l f (fst m)))"

definition linked :: "prims \<Rightarrow> (string \<Rightarrow> bytes) \<Rightarrow> string set \<Rightarrow> side \<Rightarrow> side \<Rightarrow> bool" where
  "linked P G used L F = (\<exists>lp lr lg fp fr fg.
     link_at P G used (sd_st L) (sd_in L) (sd_st F) (sd_in F) lp lr lg fp fr fg)"

definition joint_inv :: "prims \<Rightarrow> joint \<Rightarrow> bool" where
  "joint_inv P j = (case j of (a, b, used) \<Rightarrow> \<exists>G. linked P G used a b \<or> linked P G used b a)"

section \<open>Single steps\<close>

lemma evict_none:
  "\<forall>k \<in> set (rs_skipped st). now - SKIPPED_TTL_MS \<le> sk_stored_at k \<Longrightarrow>
   length (rs_skipped st) \<le> MAX_SKIPPED_KEYS \<Longrightarrow> evict_skipped now st = st"
  by (simp add: evict_skipped_def)

lemma stash_props [simp]:
  "e \<in> set (stash P now d g a b) \<longleftrightarrow>
   (\<exists>i. a \<le> i \<and> i < b \<and> e = \<lparr>sk_dh = d, sk_n = i, sk_mk = hx (mk_at P g i), sk_stored_at = now\<rparr>)"
  by (auto simp: stash_def)

lemma ttl_pos: "now - SKIPPED_TTL_MS \<le> now"
  by (simp add: SKIPPED_TTL_MS_def)

lemma skip_sync:
  assumes P: "prims_ok P" and c: "on_chain P G used st d"
    and b: "stop \<le> rs_nr st + MAX_SKIP" "stop < 2 ^ 32"
    and s: "length (rs_skipped st) + (stop - rs_nr st) \<le> MAX_SKIPPED_KEYS"
      "\<forall>k \<in> set (rs_skipped st). now - SKIPPED_TTL_MS \<le> sk_stored_at k"
  shows "skip_message_keys P now st stop = Inr (st
    \<lparr>rs_skipped := rs_skipped st @ stash P now d (G d) (rs_nr st) stop,
     rs_nr := max (rs_nr st) stop, rs_ckr := Some (hx (ck_at P (G d) (max (rs_nr st) stop)))\<rparr>)"
proof -
  define st' where "st' = st
    \<lparr>rs_skipped := rs_skipped st @ stash P now d (G d) (rs_nr st) stop,
     rs_nr := max (rs_nr st) stop, rs_ckr := Some (hx (ck_at P (G d) (max (rs_nr st) stop)))\<rparr>"
  have e: "evict_skipped now st' = st'"
    using s ttl_pos by (intro evict_none) (auto simp: st'_def)
  have m: "rs_nr st + (stop - rs_nr st) = max (rs_nr st) stop" by simp
  have "stash P now d (G d) (rs_nr st) (max (rs_nr st) stop) = stash P now d (G d) (rs_nr st) stop"
    by (simp add: stash_def max_def)
  then have "skip_message_keys P now st stop = Inr (evict_skipped now st')"
    using c b P by (simp add: skip_message_keys_def on_chain_def sat_add32_def skip_loop_eq m st'_def)
  then show ?thesis by (simp add: e) (simp add: st'_def)
qed

lemma recv_chain_sync:
  assumes P: "prims_ok P" and c: "on_chain P G used st d"
    and b: "rs_nr st \<le> n" "n \<le> rs_nr st + MAX_SKIP" "n < 2 ^ 32 - 1"
    and s: "length (rs_skipped st) + (n - rs_nr st) \<le> MAX_SKIPPED_KEYS"
      "\<forall>k \<in> set (rs_skipped st). now - SKIPPED_TTL_MS \<le> sk_stored_at k"
  shows "recv_chain P now st n = Inr (mk_at P (G d) n, st
    \<lparr>rs_skipped := rs_skipped st @ stash P now d (G d) (rs_nr st) n,
     rs_nr := Suc n, rs_ckr := Some (hx (ck_at P (G d) (Suc n)))\<rparr>)"
proof -
  have "length (ck_at P (G d) n) = 32" using P c by (simp add: on_chain_def)
  then show ?thesis
    using skip_sync [OF P c b(2) _ s] b
    by (simp add: recv_chain_def max_absorb2 kdf_ck_at del: ck_at.simps)
qed

lemma take_skipped_Some:
  "take_skipped d n ks = Some (k, r) \<Longrightarrow> sk_dh k = d \<and> sk_n k = n \<and> set ks = insert k (set r)"
  by (induction ks arbitrary: r) (auto split: if_splits)

lemma take_skipped_None: "take_skipped d n ks = None \<longleftrightarrow> \<not> (\<exists>e \<in> set ks. sk_dh e = d \<and> sk_n e = n)"
  by (induction ks) auto

lemma recv_stashed:
  assumes "prims_ok P" and "stashed st d n"
    and "\<forall>e \<in> set (rs_skipped st). sk_mk e = hx (mk_at P (G (sk_dh e)) (sk_n e))"
  obtains r where "ratchet_step_recv P R now st d db pn n kct kpub = Inr (mk_at P (G d) n, st\<lparr>rs_skipped := r\<rparr>)"
    "set r \<subseteq> set (rs_skipped st)"
    "\<And>d' n'. (d', n') \<noteq> (d, n) \<Longrightarrow> stashed (st\<lparr>rs_skipped := r\<rparr>) d' n' = stashed st d' n'"
proof -
  obtain k r where t: "take_skipped d n (rs_skipped st) = Some (k, r)"
    using assms(2) take_skipped_None [of d n "rs_skipped st"]
    by (cases "take_skipped d n (rs_skipped st)") (auto simp: stashed_def)
  note * = take_skipped_Some [OF t]
  show thesis
  proof (rule that [of r])
    have "sk_mk k = hx (mk_at P (G d) n)" using * assms(3) by auto
    then show "ratchet_step_recv P R now st d db pn n kct kpub = Inr (mk_at P (G d) n, st\<lparr>rs_skipped := r\<rparr>)"
      using t assms(1) by (simp add: ratchet_step_recv_def try_skipped_def)
  qed (use * in \<open>auto simp: stashed_def\<close>)
qed

lemma recv_current:
  assumes "prims_ok P" "on_chain P G used st d" "\<not> stashed st d n"
    and "total_skip st d pn n \<le> MAX_SKIP" "rs_nr st \<le> n" "n < 2 ^ 32 - 1"
    and "length (rs_skipped st) + MAX_SKIP \<le> MAX_SKIPPED_KEYS"
    and "\<forall>k \<in> set (rs_skipped st). now - SKIPPED_TTL_MS \<le> sk_stored_at k"
  shows "ratchet_step_recv P R now st d db pn n kct kpub = Inr (mk_at P (G d) n, st
    \<lparr>rs_skipped := rs_skipped st @ stash P now d (G d) (rs_nr st) n,
     rs_nr := Suc n, rs_ckr := Some (hx (ck_at P (G d) (Suc n)))\<rparr>)"
proof -
  have ne: "\<not> new_epoch st d" using assms(2) by (simp add: on_chain_def new_epoch_def)
  then have b: "n - rs_nr st \<le> MAX_SKIP" using assms(4) by (simp add: total_skip_def sat_add32_le)
  have "take_skipped d n (rs_skipped st) = None" using assms(3) by (simp add: take_skipped_None stashed_def)
  then show ?thesis
    using ne assms(4) recv_chain_sync [OF assms(1,2,5) _ assms(6) _ assms(8)] b assms(7)
    by (simp add: ratchet_step_recv_def try_skipped_def)
qed

section \<open>The turn\<close>

lemma dh_ratchet_hybrid:
  assumes "prims_ok P" "rs_dhs_priv st = hx p" "length p = 32" "rs_rk st = hx r" "length r = 32"
    and "rs_peer_kem_pub st = Some (b64_enc P ek)" "length ek = 1184"
    and "root_step P r (dh P p d) ss = (rkm, c)"
    and "kdf_rk_hybrid P rkm (dh P (tr_dh R) d) (snd (kem_encaps P ek (tr_encaps R))) = (rkn, cn)"
  shows "dh_ratchet P R st d ss = Inr (st
    \<lparr>rs_pn := rs_ns st, rs_ns := 0, rs_nr := 0, rs_dhr_pub := Some (hx d), rs_ckr := Some (hx c),
     rs_kem_priv := Some (b64_enc P (fst (kem_gen P (tr_gen R)))),
     rs_kem_pub := Some (b64_enc P (snd (kem_gen P (tr_gen R)))),
     rs_send_kem_ct := Some (b64_enc P (fst (kem_encaps P ek (tr_encaps R)))),
     rs_dhs_priv := hx (tr_dh R), rs_dhs_pub := hx (x_pub P (tr_dh R)),
     rs_rk := hx rkn, rs_cks := Some (hx cn)\<rparr>)"
  using assms
  by (simp add: dh_ratchet_def ml_kem_encapsulate_local_def ratchet_keypair_def prim_laws case_prod_beta Let_def)

text \<open>The side that has not turned yet receives the first message it sees of the other side's
  new chain, at index \<open>n\<close>.\<close>

definition turned :: "prims \<Rightarrow> turn_rand \<Rightarrow> (string \<Rightarrow> bytes) \<Rightarrow> ratchet_state \<Rightarrow> skipped_key list \<Rightarrow>
    bytes \<Rightarrow> bytes \<Rightarrow> bytes \<Rightarrow> bytes \<Rightarrow> nat \<Rightarrow> ratchet_state" where
  "turned P R G f sk d ek rkn cn n = f
    \<lparr>rs_skipped := sk, rs_pn := rs_ns f, rs_ns := 0, rs_nr := Suc n,
     rs_dhr_pub := Some (hx d), rs_ckr := Some (hx (ck_at P (G (hx d)) (Suc n))),
     rs_kem_priv := Some (b64_enc P (fst (kem_gen P (tr_gen R)))),
     rs_kem_pub := Some (b64_enc P (snd (kem_gen P (tr_gen R)))),
     rs_peer_kem_pub := Some (b64_enc P ek),
     rs_send_kem_ct := Some (b64_enc P (fst (kem_encaps P ek (tr_encaps R)))),
     rs_dhs_priv := hx (tr_dh R), rs_dhs_pub := hx (x_pub P (tr_dh R)),
     rs_rk := hx rkn, rs_cks := Some (hx cn)\<rparr>"

lemma recv_turn_sync:
  assumes P: "prims_ok P" and f: "rs_dhs_priv f = hx p" "length p = 32" "rs_rk f = hx r" "length r = 32"
    and k: "turn_kem_secret P f kct = Inr ss" "length ek = 1184"
    and root: "root_step P r (dh P p d) ss = (rkm, G (hx d))" "length (G (hx d)) = 32" "hx d \<in> used"
    and root2: "kdf_rk_hybrid P rkm (dh P (tr_dh R) d) (snd (kem_encaps P ek (tr_encaps R))) = (rkn, cn)"
    and new: "rs_dhr_pub f \<noteq> Some (hx d)" and old: "reads_old P G used f" "rs_nr f \<le> pn" "pn < 2 ^ 32"
    and ns: "\<not> stashed f (hx d) n" and n: "n < 2 ^ 32 - 1"
    and b: "total_skip f (hx d) pn n \<le> MAX_SKIP"
    and s: "length (rs_skipped f) + MAX_SKIP \<le> MAX_SKIPPED_KEYS"
      "\<forall>k \<in> set (rs_skipped f). now - SKIPPED_TTL_MS \<le> sk_stored_at k"
  obtains sk where "ratchet_step_recv P R now f (hx d) d pn n kct (Some (b64_enc P ek)) =
      Inr (mk_at P (G (hx d)) n, turned P R G f sk d ek rkn cn n)"
    "sk = rs_skipped f @ (case rs_dhr_pub f of Some d0 \<Rightarrow>
        (if rs_ckr f = None then [] else stash P now d0 (G d0) (rs_nr f) pn) | None \<Rightarrow> [])
      @ stash P now (hx d) (G (hx d)) 0 n"
proof -
  define f1 where "f1 = f\<lparr>rs_peer_kem_pub := Some (b64_enc P ek)\<rparr>"
  have tot: "pn - rs_nr f + n \<le> MAX_SKIP"
    using b new by (simp add: total_skip_def new_epoch_def sat_add32_le)
  define old_sk where "old_sk = (case rs_dhr_pub f of Some d0 \<Rightarrow>
        (if rs_ckr f = None then [] else stash P now d0 (G d0) (rs_nr f) pn) | None \<Rightarrow> [])"
  have "\<exists>c nr. skip_message_keys P now f1 pn =
      Inr (f1\<lparr>rs_skipped := rs_skipped f @ old_sk, rs_nr := nr, rs_ckr := c\<rparr>)"
  proof (cases "rs_ckr f = None")
    case True
    then have "old_sk = []" by (simp add: old_sk_def split: option.split)
    moreover have "skip_message_keys P now f1 pn = Inr f1"
      using True tot old(3) by (simp add: skip_message_keys_def f1_def sat_add32_def)
    moreover have "f1\<lparr>rs_skipped := rs_skipped f, rs_nr := rs_nr f1, rs_ckr := rs_ckr f1\<rparr> = f1"
      by (simp add: f1_def)
    ultimately show ?thesis by (metis append_Nil2)
  next
    case False
    then obtain d0 where o: "on_chain P G used f d0" using old(1) by (auto simp: reads_old_def)
    then have o1: "on_chain P G used f1 d0" by (simp add: on_chain_def f1_def)
    have "pn \<le> rs_nr f1 + MAX_SKIP" using tot by (simp add: f1_def)
    then show ?thesis
      using skip_sync [OF P o1 _ old(3), of now] s tot o False
      by (simp add: f1_def old_sk_def on_chain_def) blast
  qed
  then obtain c nr where sm: "skip_message_keys P now f1 pn =
      Inr (f1\<lparr>rs_skipped := rs_skipped f @ old_sk, rs_nr := nr, rs_ckr := c\<rparr>)" by blast
  define f2 where "f2 = turned P R G (f\<lparr>rs_skipped := rs_skipped f @ old_sk\<rparr>) (rs_skipped f @ old_sk) d ek rkn cn 0
    \<lparr>rs_nr := 0, rs_ckr := Some (hx (G (hx d)))\<rparr>"
  have t: "recv_turn P R now f d pn kct (Some (b64_enc P ek)) = Inr f2"
  proof -
    define f3 where "f3 = f1\<lparr>rs_skipped := rs_skipped f @ old_sk, rs_nr := nr, rs_ckr := c\<rparr>"
    have "dh_ratchet P R f3 d ss = Inr f2"
      using dh_ratchet_hybrid [of P f3 p r ek d ss rkm "G (hx d)" R rkn cn] P f k(2) root root2
      by (simp add: f3_def f1_def f2_def turned_def)
    then show ?thesis
      using k(1) sm by (simp add: recv_turn_def f1_def [symmetric] f3_def)
  qed
  have lo: "length old_sk \<le> pn - rs_nr f"
    by (auto simp: old_sk_def split: option.split)
  have oc: "on_chain P G used f2 (hx d)" using root by (simp add: on_chain_def f2_def turned_def)
  have "length (rs_skipped f2) + n \<le> MAX_SKIPPED_KEYS" using tot s lo by (simp add: f2_def turned_def)
  moreover have "\<forall>k \<in> set (rs_skipped f2). now - SKIPPED_TTL_MS \<le> sk_stored_at k"
    using s(2) ttl_pos by (auto simp: f2_def turned_def old_sk_def split: option.split)
  moreover have "rs_nr f2 = 0" "n \<le> MAX_SKIP" using tot by (simp_all add: f2_def)
  ultimately have rc: "recv_chain P now f2 n = Inr (mk_at P (G (hx d)) n, f2
    \<lparr>rs_skipped := rs_skipped f2 @ stash P now (hx d) (G (hx d)) 0 n,
     rs_nr := Suc n, rs_ckr := Some (hx (ck_at P (G (hx d)) (Suc n)))\<rparr>)"
    using recv_chain_sync [OF P oc _ _ n, of now] by simp
  have "take_skipped (hx d) n (rs_skipped f) = None" using ns by (simp add: take_skipped_None stashed_def)
  then have "ratchet_step_recv P R now f (hx d) d pn n kct (Some (b64_enc P ek)) =
      Inr (mk_at P (G (hx d)) n, turned P R G f (rs_skipped f @ old_sk @ stash P now (hx d) (G (hx d)) 0 n) d ek rkn cn n)"
    using t rc b new
    by (simp add: ratchet_step_recv_def try_skipped_def new_epoch_def) (simp add: f2_def turned_def)
  then show thesis using that by (simp add: old_sk_def)
qed

section \<open>Frame lemmas\<close>

lemma party_mono:
  "party P G used st p r g \<Longrightarrow> \<forall>d \<in> used. G' d = G d \<Longrightarrow> used \<subseteq> used' \<Longrightarrow> party P G' used' st p r g"
  unfolding party_def by auto

lemma on_chain_mono:
  "on_chain P G used st d \<Longrightarrow> \<forall>d \<in> used. G' d = G d \<Longrightarrow> used \<subseteq> used' \<Longrightarrow> on_chain P G' used' st d"
  unfolding on_chain_def by auto

lemma reads_old_mono:
  "reads_old P G used st \<Longrightarrow> \<forall>d \<in> used. G' d = G d \<Longrightarrow> used \<subseteq> used' \<Longrightarrow> reads_old P G' used' st"
  unfolding reads_old_def using on_chain_mono by metis

lemma msgs_ok_mono:
  "msgs_ok P G used ms \<Longrightarrow> \<forall>d \<in> used. G' d = G d \<Longrightarrow> used \<subseteq> used' \<Longrightarrow> msgs_ok P G' used' ms"
  unfolding msgs_ok_def by (auto 0 4)

lemma msgs_ok_remove:
  assumes "msgs_ok P G used ms" "m \<in> set ms"
  shows "msgs_ok P G used (removeAll m ms) \<and> (\<forall>m' \<in> set (removeAll m ms).
     m' \<in> set ms \<and> (hdr_hex P (fst m'), h_n (fst m')) \<noteq> (hdr_hex P (fst m), h_n (fst m)))"
proof -
  have i: "inj_on (\<lambda>m. (hdr_hex P (fst m), h_n (fst m))) (set ms)" and d: "distinct (map (\<lambda>m. (hdr_hex P (fst m), h_n (fst m))) ms)"
    using assms(1) by (simp_all add: msgs_ok_def distinct_map)
  then have "\<forall>m' \<in> set (removeAll m ms). (hdr_hex P (fst m'), h_n (fst m')) \<noteq> (hdr_hex P (fst m), h_n (fst m))"
    using assms(2) inj_onD by fastforce
  moreover have "distinct (map (\<lambda>m. (hdr_hex P (fst m), h_n (fst m))) (removeAll m ms))"
    using d inj_on_subset [OF i, of "set ms - {m}"] by (simp add: distinct_map distinct_removeAll)
  ultimately show ?thesis using assms(1) by (auto simp: msgs_ok_def)
qed

lemma msgs_ok_remove1:
  assumes "msgs_ok P G used ms"
  shows "msgs_ok P G used (remove1 m ms)"
proof -
  have "inj_on (\<lambda>m. (hdr_hex P (fst m), h_n (fst m))) (set (remove1 m ms))"
    using assms set_remove1_subset [of m ms] by (auto simp: msgs_ok_def distinct_map intro: inj_on_subset)
  then show ?thesis
    using assms set_remove1_subset [of m ms] by (auto simp: msgs_ok_def distinct_map distinct_remove1)
qed

lemma hdr_hex_enc [simp]: "prims_ok P \<Longrightarrow> h_dh h = b64_enc P d \<Longrightarrow> hdr_hex P h = hx d"
  by (simp add: hdr_hex_def prim_laws)

lemma msgs_okD:
  assumes "msgs_ok P G used ms" "(h, mk) \<in> set ms" "prims_ok P"
  obtains d where "h_dh h = b64_enc P d" "hdr_hex P h = hx d" "hx d \<in> used"
    "mk = mk_at P (G (hx d)) (h_n h)" "h_n h < 2 ^ 32 - 1"
  using assms by (fastforce simp: msgs_ok_def)

lemma send_sync:
  assumes "prims_ok P" "party P G used st p r g" "rs_ns st + 1 < 2 ^ 32"
  shows "ratchet_step_send P st = Inr (mk_at P (G (rs_dhs_pub st)) (rs_ns st),
    \<lparr>h_dh = b64_enc P (x_pub P p), h_pn = rs_pn st, h_n = rs_ns st,
     h_kem_ct = rs_send_kem_ct st, h_kem_pub = rs_kem_pub st\<rparr>,
    st\<lparr>rs_cks := Some (hx (ck_at P (G (rs_dhs_pub st)) (Suc (rs_ns st)))), rs_ns := Suc (rs_ns st)\<rparr>)"
  using assms by (simp add: ratchet_step_send_def party_def kdf_ck_at prim_laws del: ck_at.simps)

lemma party_send:
  "party P G used st p r g \<Longrightarrow> rs_ns st + 1 < 2 ^ 32 \<Longrightarrow>
   party P G used (st\<lparr>rs_cks := Some (hx (ck_at P (G (rs_dhs_pub st)) (Suc (rs_ns st)))), rs_ns := Suc (rs_ns st)\<rparr>) p r g"
  by (simp add: party_def)

section \<open>Each step keeps the invariant\<close>

lemma msgs_ok_Cons:
  assumes "prims_ok P" "msgs_ok P G used ms" "h_dh h = b64_enc P d" "hx d \<in> used"
    "h_n h < 2 ^ 32 - 1" "mk = mk_at P (G (hx d)) (h_n h)"
    "\<forall>m \<in> set ms. hdr_hex P (fst m) = hx d \<longrightarrow> h_n (fst m) < h_n h"
  shows "msgs_ok P G used ((h, mk) # ms)"
proof -
  have h: "hdr_hex P h = hx d" using assms by simp
  have "(hdr_hex P h, h_n h) \<notin> set (map (\<lambda>m. (hdr_hex P (fst m), h_n (fst m))) ms)"
  proof
    assume "(hdr_hex P h, h_n h) \<in> set (map (\<lambda>m. (hdr_hex P (fst m), h_n (fst m))) ms)"
    then obtain m where "m \<in> set ms" "hdr_hex P (fst m) = hdr_hex P h" "h_n (fst m) = h_n h" by force
    then show False using assms(7) h by force
  qed
  then show ?thesis using assms(2-6) unfolding msgs_ok_def by auto
qed

lemma link_send_latest:
  assumes P: "prims_ok P" and a: "link_at P G used l il f fi lp lr lg fp fr fg"
    and s: "ratchet_step_send P l = Inr (mk, h, st)" "rs_ns l + 1 < 2 ^ 32"
  shows "link_at P G used st il f ((h, mk) # fi) lp lr lg fp fr fg"
proof -
  have pl: "party P G used l lp lr lg" and m: "msgs_ok P G used fi"
    and t: "\<forall>m \<in> set fi. to_follower P l f (fst m)" using a by (simp_all add: link_at_def)
  have lp: "rs_dhs_pub l = hx (x_pub P lp)" "hx (x_pub P lp) \<in> used" using pl by (simp_all add: party_def)
  have e: "mk = mk_at P (G (hx (x_pub P lp))) (rs_ns l)"
      "h = \<lparr>h_dh = b64_enc P (x_pub P lp), h_pn = rs_pn l, h_n = rs_ns l,
         h_kem_ct = rs_send_kem_ct l, h_kem_pub = rs_kem_pub l\<rparr>"
      "st = l\<lparr>rs_cks := Some (hx (ck_at P (G (rs_dhs_pub l)) (Suc (rs_ns l)))), rs_ns := Suc (rs_ns l)\<rparr>"
    using s(1) send_sync [OF P pl s(2)] lp by auto
  have pl': "party P G used st lp lr lg" unfolding e by (rule party_send [OF pl s(2)])
  have h: "hdr_hex P h = rs_dhs_pub l" by (simp add: e P lp)
  have m': "msgs_ok P G used ((h, mk) # fi)"
    by (rule msgs_ok_Cons [OF P m, of _ "x_pub P lp"])
      (use lp s(2) t in \<open>auto simp: e(1,2) to_follower_def\<close>)
  have f: "\<forall>m \<in> set ((h, mk) # fi). to_follower P st f (fst m)"
    using t h by (auto simp: to_follower_def e(2,3))
  show ?thesis
    using a pl' m' f unfolding link_at_def
    by (simp add: on_chain_def turn_ahead_def to_latest_def stashed_def e(3))
qed

lemma link_send_follower:
  assumes P: "prims_ok P" and a: "link_at P G used l il f fi lp lr lg fp fr fg"
    and s: "ratchet_step_send P f = Inr (mk, h, st)" "rs_ns f + 1 < 2 ^ 32"
  shows "link_at P G used l ((h, mk) # il) st fi lp lr lg fp fr fg"
proof -
  have pl: "party P G used f fp fr fg" and m: "msgs_ok P G used il" and n: "rs_nr l \<le> rs_ns f"
    and t: "\<forall>m \<in> set il. to_latest P l f (fst m)" using a by (simp_all add: link_at_def)
  have lp: "rs_dhs_pub f = hx (x_pub P fp)" "hx (x_pub P fp) \<in> used" using pl by (simp_all add: party_def)
  have e: "mk = mk_at P (G (hx (x_pub P fp))) (rs_ns f)"
      "h = \<lparr>h_dh = b64_enc P (x_pub P fp), h_pn = rs_pn f, h_n = rs_ns f,
         h_kem_ct = rs_send_kem_ct f, h_kem_pub = rs_kem_pub f\<rparr>"
      "st = f\<lparr>rs_cks := Some (hx (ck_at P (G (rs_dhs_pub f)) (Suc (rs_ns f)))), rs_ns := Suc (rs_ns f)\<rparr>"
    using s(1) send_sync [OF P pl s(2)] lp by auto
  have pl': "party P G used st fp fr fg" unfolding e by (rule party_send [OF pl s(2)])
  have h: "hdr_hex P h = rs_dhs_pub f" by (simp add: e P lp)
  have m': "msgs_ok P G used ((h, mk) # il)"
    by (rule msgs_ok_Cons [OF P m, of _ "x_pub P fp"])
      (use lp s(2) t in \<open>auto simp: e(1,2) to_latest_def\<close>)
  have f: "\<forall>m \<in> set ((h, mk) # il). to_latest P l st (fst m)"
    using t h n by (auto simp: to_latest_def e(2,3))
  show ?thesis
    using a pl' m' f unfolding link_at_def
    by (simp add: on_chain_def turn_ahead_def to_follower_def stashed_def reads_old_def turn_kem_secret_def e(3) cong: option.case_cong)
qed

definition entries_ok :: "prims \<Rightarrow> (string \<Rightarrow> bytes) \<Rightarrow> string set \<Rightarrow> skipped_key list \<Rightarrow> bool" where
  "entries_ok P G used ks = (\<forall>e \<in> set ks. sk_dh e \<in> used \<and> sk_mk e = hx (mk_at P (G (sk_dh e)) (sk_n e)))"

lemma party_entries: "party P G used st p r g \<Longrightarrow> entries_ok P G used (rs_skipped st)"
  by (simp add: party_def entries_ok_def)

lemma entries_ok_append [simp]: "entries_ok P G used (ks @ js) \<longleftrightarrow> entries_ok P G used ks \<and> entries_ok P G used js"
  by (auto simp: entries_ok_def)

lemma entries_ok_stash: "d \<in> used \<Longrightarrow> entries_ok P G used (stash P now d (G d) a b)"
  by (auto simp: entries_ok_def)

text \<open>Replacing the stash and the receiving chain leaves the rest of a state alone.\<close>

definition upd_recv :: "ratchet_state \<Rightarrow> skipped_key list \<Rightarrow> nat \<Rightarrow> string option \<Rightarrow> ratchet_state" where
  "upd_recv st sk k c = st\<lparr>rs_skipped := sk, rs_nr := k, rs_ckr := c\<rparr>"

lemma upd_recv_fields [simp]:
  "rs_skipped (upd_recv st sk k c) = sk" "rs_nr (upd_recv st sk k c) = k" "rs_ckr (upd_recv st sk k c) = c"
  "rs_dhs_pub (upd_recv st sk k c) = rs_dhs_pub st" "rs_dhr_pub (upd_recv st sk k c) = rs_dhr_pub st"
  "rs_ns (upd_recv st sk k c) = rs_ns st" "rs_pn (upd_recv st sk k c) = rs_pn st"
  by (simp_all add: upd_recv_def)

lemma upd_recv_frame:
  "party P G used st p r g \<Longrightarrow> entries_ok P G used sk \<Longrightarrow> party P G used (upd_recv st sk k c) p r g"
  "to_follower P (upd_recv st sk k c) f h = to_follower P st f h"
  "to_latest P l (upd_recv st sk k c) h = to_latest P l st h"
  "turn_ahead P G (upd_recv st sk k c) f lp lr fp fr = turn_ahead P G st f lp lr fp fr"
  "turn_ahead P G l (upd_recv st sk k c) lp lr fp fr = turn_ahead P G l st lp lr fp fr"
  by (simp_all add: party_def entries_ok_def to_follower_def to_latest_def turn_ahead_def upd_recv_def
      turn_kem_secret_def cong: option.case_cong)

lemma link_upd_latest:
  assumes "link_at P G used l il f fi lp lr lg fp fr fg"
    and "entries_ok P G used sk" "on_chain P G used (upd_recv l sk k c) (rs_dhs_pub f)" "k \<le> rs_ns f"
    and "msgs_ok P G used il'" "\<forall>m \<in> set il'. to_latest P (upd_recv l sk k c) f (fst m)"
  shows "link_at P G used (upd_recv l sk k c) il' f fi lp lr lg fp fr fg"
  using assms unfolding link_at_def by (simp add: upd_recv_frame)

lemma link_upd_follower:
  assumes "link_at P G used l il f fi lp lr lg fp fr fg"
    and "entries_ok P G used sk" "reads_old P G used (upd_recv f sk k c)" "k \<le> rs_pn l"
    and "msgs_ok P G used fi'" "\<forall>m \<in> set fi'. to_follower P l (upd_recv f sk k c) (fst m)"
  shows "link_at P G used l il (upd_recv f sk k c) fi' lp lr lg fp fr fg"
  using assms unfolding link_at_def by (simp add: upd_recv_frame)

lemma upd_stash_eq: "st\<lparr>rs_skipped := r\<rparr> = upd_recv st r (rs_nr st) (rs_ckr st)"
  by (simp add: upd_recv_def)

lemma stashed_append: "stashed (upd_recv st (rs_skipped st @ stash P now d g a b) k c) e n \<longleftrightarrow>
    stashed st e n \<or> e = d \<and> a \<le> n \<and> n < b"
proof -
  have "(\<exists>k \<in> set (stash P now d g a b). sk_dh k = e \<and> sk_n k = n) \<longleftrightarrow> e = d \<and> a \<le> n \<and> n < b"
    by (auto simp: stash_def)
  then show ?thesis by (simp only: stashed_def upd_recv_fields set_append bex_Un)
qed

lemma recv_header_eq:
  "prims_ok P \<Longrightarrow> h_dh h = b64_enc P d \<Longrightarrow> recv_header P R now st h =
   ratchet_step_recv P R now st (hx d) d (h_pn h) (h_n h) (h_kem_ct h) (h_kem_pub h)"
  by (simp add: recv_header_def prim_laws)

lemma link_recv_latest:
  assumes P: "prims_ok P" and a: "link_at P G used l il f fi lp lr lg fp fr fg"
    and m: "(h, mk) \<in> set il" and dl: "deliverable P used R now l h"
  obtains st where "recv_header P R now l h = Inr (mk, st)"
    "link_at P G used st (removeAll (h, mk) il) f fi lp lr lg fp fr fg" "rs_dhs_pub st = rs_dhs_pub l"
proof -
  have ms: "msgs_ok P G used il" and pl: "party P G used l lp lr lg"
    and oc: "on_chain P G used l (rs_dhs_pub f)" and nr: "rs_nr l \<le> rs_ns f"
    and tl: "\<forall>m \<in> set il. to_latest P l f (fst m)" using a by (simp_all add: link_at_def)
  obtain d where d: "h_dh h = b64_enc P d" "hdr_hex P h = hx d" "mk = mk_at P (G (hx d)) (h_n h)" "h_n h < 2 ^ 32 - 1"
    using msgs_okD [OF ms m P] by metis
  note rm = msgs_ok_remove [OF ms m]
  have th: "to_latest P l f h" using tl m by force
  show thesis
  proof (cases "stashed l (hx d) (h_n h)")
    case True
    have en: "\<forall>e \<in> set (rs_skipped l). sk_mk e = hx (mk_at P (G (sk_dh e)) (sk_n e))"
      using pl by (simp add: party_def)
    obtain r where r: "recv_header P R now l h = Inr (mk, l\<lparr>rs_skipped := r\<rparr>)" "set r \<subseteq> set (rs_skipped l)"
        "\<And>d' n'. (d', n') \<noteq> (hx d, h_n h) \<Longrightarrow> stashed (l\<lparr>rs_skipped := r\<rparr>) d' n' = stashed l d' n'"
      using recv_stashed [OF P True en] unfolding recv_header_eq [OF P d(1)] d(3) by metis
    have e: "entries_ok P G used r" using party_entries [OF pl] r(2) by (auto simp: entries_ok_def)
    have t: "\<forall>m' \<in> set (removeAll (h, mk) il). to_latest P (upd_recv l r (rs_nr l) (rs_ckr l)) f (fst m')"
      using rm tl r(3) d(2) unfolding upd_stash_eq by (simp add: to_latest_def)
    have o: "on_chain P G used (upd_recv l r (rs_nr l) (rs_ckr l)) (rs_dhs_pub f)"
      using oc by (simp add: on_chain_def)
    have "link_at P G used (upd_recv l r (rs_nr l) (rs_ckr l)) (removeAll (h, mk) il) f fi lp lr lg fp fr fg"
      by (rule link_upd_latest [OF a e o nr rm [THEN conjunct1] t])
    then show thesis using that r(1) unfolding upd_stash_eq by simp
  next
    case False
    have c: "hx d = rs_dhs_pub f" "rs_nr l \<le> h_n h" "h_n h < rs_ns f"
      using th False by (simp_all add: to_latest_def d(2))
    define st where "st = upd_recv l (rs_skipped l @ stash P now (hx d) (G (hx d)) (rs_nr l) (h_n h))
       (Suc (h_n h)) (Some (hx (ck_at P (G (hx d)) (Suc (h_n h)))))"
    have oc': "on_chain P G used l (hx d)" using oc c by simp
    have r: "recv_header P R now l h = Inr (mk, st)"
      unfolding recv_header_eq [OF P d(1)] d(3) st_def upd_recv_def using dl d
      by (intro recv_current [OF P oc' False _ c(2)]) (simp_all add: deliverable_def)
    have e: "entries_ok P G used (rs_skipped l @ stash P now (hx d) (G (hx d)) (rs_nr l) (h_n h))"
      using party_entries [OF pl] oc' by (simp add: entries_ok_stash on_chain_def)
    have t: "\<forall>m' \<in> set (removeAll (h, mk) il). to_latest P st f (fst m')"
    proof
      fix m' assume that: "m' \<in> set (removeAll (h, mk) il)"
      have "to_latest P l f (fst m')" "hdr_hex P (fst m') = hx d \<longrightarrow> h_n (fst m') \<noteq> h_n h"
        using rm tl that d(2) by auto
      then show "to_latest P st f (fst m')" unfolding to_latest_def c(1) [symmetric] st_def stashed_append by auto
    qed
    have o: "on_chain P G used st (rs_dhs_pub f)" using oc' c(1) by (simp add: on_chain_def st_def)
    have "link_at P G used st (removeAll (h, mk) il) f fi lp lr lg fp fr fg"
      unfolding st_def
      by (rule link_upd_latest [OF a e o [unfolded st_def] _ rm [THEN conjunct1] t [unfolded st_def]])
        (use c(3) in simp)
    then show thesis using that r by (simp add: st_def)
  qed
qed

text \<open>The follower receives a stashed message or one of the chain it still reads.\<close>

lemma link_recv_follower_old:
  assumes P: "prims_ok P" and a: "link_at P G used l il f fi lp lr lg fp fr fg"
    and m: "(h, mk) \<in> set fi" and dl: "deliverable P used R now f h"
    and old: "stashed f (hdr_hex P h) (h_n h) \<or> hdr_hex P h \<noteq> rs_dhs_pub l"
  obtains st where "recv_header P R now f h = Inr (mk, st)"
    "link_at P G used l il st (removeAll (h, mk) fi) lp lr lg fp fr fg" "rs_dhs_pub st = rs_dhs_pub f"
proof -
  have ms: "msgs_ok P G used fi" and pl: "party P G used f fp fr fg"
    and ro: "reads_old P G used f" and nr: "rs_nr f \<le> rs_pn l" and nd: "rs_dhr_pub f \<noteq> Some (rs_dhs_pub l)"
    and tl: "\<forall>m \<in> set fi. to_follower P l f (fst m)" using a by (simp_all add: link_at_def)
  obtain d where d: "h_dh h = b64_enc P d" "hdr_hex P h = hx d" "mk = mk_at P (G (hx d)) (h_n h)" "h_n h < 2 ^ 32 - 1"
    using msgs_okD [OF ms m P] by metis
  note rm = msgs_ok_remove [OF ms m]
  have th: "to_follower P l f h" using tl m by force
  show thesis
  proof (cases "stashed f (hx d) (h_n h)")
    case True
    have en: "\<forall>e \<in> set (rs_skipped f). sk_mk e = hx (mk_at P (G (sk_dh e)) (sk_n e))"
      using pl by (simp add: party_def)
    obtain r where r: "recv_header P R now f h = Inr (mk, f\<lparr>rs_skipped := r\<rparr>)" "set r \<subseteq> set (rs_skipped f)"
        "\<And>d' n'. (d', n') \<noteq> (hx d, h_n h) \<Longrightarrow> stashed (f\<lparr>rs_skipped := r\<rparr>) d' n' = stashed f d' n'"
      using recv_stashed [OF P True en] unfolding recv_header_eq [OF P d(1)] d(3) by metis
    have e: "entries_ok P G used r" using party_entries [OF pl] r(2) by (auto simp: entries_ok_def)
    have t: "\<forall>m' \<in> set (removeAll (h, mk) fi). to_follower P l (upd_recv f r (rs_nr f) (rs_ckr f)) (fst m')"
      using rm tl r(3) d(2) unfolding upd_stash_eq by (simp add: to_follower_def)
    have o: "reads_old P G used (upd_recv f r (rs_nr f) (rs_ckr f))"
      using ro by (simp add: reads_old_def on_chain_def)
    have "link_at P G used l il (upd_recv f r (rs_nr f) (rs_ckr f)) (removeAll (h, mk) fi) lp lr lg fp fr fg"
      by (rule link_upd_follower [OF a e o nr rm [THEN conjunct1] t])
    then show thesis using that r(1) unfolding upd_stash_eq by simp
  next
    case False
    have c: "rs_dhr_pub f = Some (hx d)" "rs_ckr f \<noteq> None" "rs_nr f \<le> h_n h" "h_n h < rs_pn l" "hx d \<noteq> rs_dhs_pub l"
      using th False old by (auto simp: to_follower_def d(2))
    define st where "st = upd_recv f (rs_skipped f @ stash P now (hx d) (G (hx d)) (rs_nr f) (h_n h))
       (Suc (h_n h)) (Some (hx (ck_at P (G (hx d)) (Suc (h_n h)))))"
    have oc': "on_chain P G used f (hx d)" using ro c by (auto simp: reads_old_def on_chain_def)
    have r: "recv_header P R now f h = Inr (mk, st)"
      unfolding recv_header_eq [OF P d(1)] d(3) st_def upd_recv_def using dl d
      by (intro recv_current [OF P oc' False _ c(3)]) (simp_all add: deliverable_def)
    have e: "entries_ok P G used (rs_skipped f @ stash P now (hx d) (G (hx d)) (rs_nr f) (h_n h))"
      using party_entries [OF pl] oc' by (simp add: entries_ok_stash on_chain_def)
    have t: "\<forall>m' \<in> set (removeAll (h, mk) fi). to_follower P l st (fst m')"
    proof
      fix m' assume that: "m' \<in> set (removeAll (h, mk) fi)"
      have "to_follower P l f (fst m')" "hdr_hex P (fst m') = hx d \<longrightarrow> h_n (fst m') \<noteq> h_n h"
        using rm tl that d(2) by auto
      then show "to_follower P l st (fst m')" using c(1,2) unfolding to_follower_def st_def stashed_append by auto
    qed
    have o: "reads_old P G used st" using oc' c(1) by (auto simp: reads_old_def on_chain_def st_def)
    have "link_at P G used l il st (removeAll (h, mk) fi) lp lr lg fp fr fg"
      unfolding st_def
      by (rule link_upd_follower [OF a e o [unfolded st_def] _ rm [THEN conjunct1] t [unfolded st_def]])
        (use c(4) in simp)
    then show thesis using that r by (simp add: st_def)
  qed
qed

text \<open>The follower turns: it becomes the side that made the last turn.\<close>

lemma turned_fields [simp]:
  "rs_skipped (turned P R G f sk d ek rk c n) = sk" "rs_nr (turned P R G f sk d ek rk c n) = Suc n"
  "rs_ns (turned P R G f sk d ek rk c n) = 0" "rs_pn (turned P R G f sk d ek rk c n) = rs_ns f"
  "rs_dhs_pub (turned P R G f sk d ek rk c n) = hx (x_pub P (tr_dh R))"
  "rs_dhr_pub (turned P R G f sk d ek rk c n) = Some (hx d)"
  "rs_ckr (turned P R G f sk d ek rk c n) = Some (hx (ck_at P (G (hx d)) (Suc n)))"
  "rs_send_kem_ct (turned P R G f sk d ek rk c n) = Some (b64_enc P (fst (kem_encaps P ek (tr_encaps R))))"
  by (simp_all add: turned_def)

lemma stashed_turned: "stashed (turned P R G f (rs_skipped f @ o1 @ stash P now d g 0 n) x ek rk c k) e i \<longleftrightarrow>
    stashed f e i \<or> (\<exists>s \<in> set o1. sk_dh s = e \<and> sk_n s = i) \<or> e = d \<and> i < n"
proof -
  have "(\<exists>k \<in> set (stash P now d g 0 n). sk_dh k = e \<and> sk_n k = i) \<longleftrightarrow> e = d \<and> i < n"
    by (auto simp: stash_def)
  then show ?thesis by (simp only: stashed_def turned_fields set_append bex_Un)
qed

lemma turn_ahead_turned:
  assumes "prims_ok P" "party P G used l lp lr lg"
    and "kdf_rk_hybrid P lr (dh P (tr_dh R) (x_pub P lp))
           (snd (kem_encaps P (snd (kem_gen P lg)) (tr_encaps R))) = (rkn, cn)"
    and "G' (hx (x_pub P (tr_dh R))) = cn"
  shows "turn_ahead P G' (turned P R G f sk d (snd (kem_gen P lg)) rkn cn n) l (tr_dh R) rkn lp lr"
proof -
  have k: "rs_kem_priv l = Some (b64_enc P (fst (kem_gen P lg)))" using assms(2) by (simp add: party_def)
  have "turn_kem_secret P l (Some (b64_enc P (fst (kem_encaps P (snd (kem_gen P lg)) (tr_encaps R))))) =
      Inr (Some (snd (kem_encaps P (snd (kem_gen P lg)) (tr_encaps R))))"
    using assms(1) k by (simp add: turn_kem_secret_def ml_kem_decapsulate_local_def prim_laws)
  moreover have "dh P lp (x_pub P (tr_dh R)) = dh P (tr_dh R) (x_pub P lp)"
    unfolding dh_def by (rule x_dh_commute [OF assms(1)])
  ultimately show ?thesis using assms(3,4) by (simp add: turn_ahead_def root_step_def)
qed

lemma link_recv_follower_turn:
  assumes P: "prims_ok P" and a: "link_at P G used l il f fi lp lr lg fp fr fg"
    and m: "(h, mk) \<in> set fi" and dl: "deliverable P used R now f h"
    and new: "\<not> stashed f (hdr_hex P h) (h_n h)" "hdr_hex P h = rs_dhs_pub l"
  obtains st G' rkn where "recv_header P R now f h = Inr (mk, st)" "rs_dhs_pub st = hx (x_pub P (tr_dh R))"
    "link_at P G' (insert (rs_dhs_pub st) used) st (removeAll (h, mk) fi) l il (tr_dh R) rkn (tr_gen R) lp lr lg"
proof -
  have pl: "party P G used l lp lr lg" and pf: "party P G used f fp fr fg"
    and mi: "msgs_ok P G used il" and ms: "msgs_ok P G used fi"
    and oc: "on_chain P G used l (rs_dhs_pub f)" and nl: "rs_nr l \<le> rs_ns f"
    and ta: "turn_ahead P G l f lp lr fp fr" and nd: "rs_dhr_pub f \<noteq> Some (rs_dhs_pub l)"
    and ro: "reads_old P G used f" and nr: "rs_nr f \<le> rs_pn l" "rs_pn l < 2 ^ 32"
    and til: "\<forall>m \<in> set il. to_latest P l f (fst m)"
    and tl: "\<forall>m \<in> set fi. to_follower P l f (fst m)" using a by (simp_all add: link_at_def)
  define d where "d = x_pub P lp"
  have L: "rs_dhs_pub l = hx d" "length (G (hx d)) = 32" "hx d \<in> used" "rs_ns l < 2 ^ 32"
      "rs_kem_pub l = Some (b64_enc P (snd (kem_gen P lg)))" "length lp = 32" "length lr = 32"
    using pl by (simp_all add: party_def d_def)
  have F: "rs_dhs_priv f = hx fp" "length fp = 32" "rs_rk f = hx fr" "length fr = 32"
      "rs_dhs_pub f \<in> used" "rs_ns f < 2 ^ 32"
    using pf by (simp_all add: party_def)
  obtain d' where d': "h_dh h = b64_enc P d'" "hdr_hex P h = hx d'" "mk = mk_at P (G (hx d')) (h_n h)" "h_n h < 2 ^ 32 - 1"
    using msgs_okD [OF ms m P] by metis
  have dd: "d' = d" using d'(2) new(2) L(1) by simp
  have th: "to_follower P l f h" using tl m by force
  have hf: "h_n h < rs_ns l" "h_pn h = rs_pn l" "h_kem_ct h = rs_send_kem_ct l"
      "h_kem_pub h = Some (b64_enc P (snd (kem_gen P lg)))"
    using th new L nd by (auto simp: to_follower_def)
  obtain ss where ss: "turn_kem_secret P f (rs_send_kem_ct l) = Inr ss"
      "root_step P fr (dh P fp d) ss = (lr, G (hx d))" using ta by (auto simp: turn_ahead_def d_def)
  obtain rkn cn where k: "kdf_rk_hybrid P lr (dh P (tr_dh R) d)
      (snd (kem_encaps P (snd (kem_gen P lg)) (tr_encaps R))) = (rkn, cn)" by force
  have lk: "length rkn = 32" "length cn = 32" using length_kdf_rk_hybrid [OF P] k by (metis fst_conv snd_conv)+
  have D: "length (tr_dh R) = 32" "hx (x_pub P (tr_dh R)) \<notin> used"
      "total_skip f (hx d) (rs_pn l) (h_n h) \<le> MAX_SKIP"
      "length (rs_skipped f) + MAX_SKIP \<le> MAX_SKIPPED_KEYS"
      "\<forall>k \<in> set (rs_skipped f). now - SKIPPED_TTL_MS \<le> sk_stored_at k"
    using dl d' dd hf by (simp_all add: deliverable_def)
  define o1 where "o1 = (case rs_dhr_pub f of Some d0 \<Rightarrow>
        (if rs_ckr f = None then [] else stash P now d0 (G d0) (rs_nr f) (rs_pn l)) | None \<Rightarrow> [])"
  define sk where "sk = rs_skipped f @ o1 @ stash P now (hx d) (G (hx d)) 0 (h_n h)"
  define st where "st = turned P R G f sk d (snd (kem_gen P lg)) rkn cn (h_n h)"
  have n1: "\<not> stashed f (hx d) (h_n h)" and l1: "length (snd (kem_gen P lg)) = 1184"
    and nd': "rs_dhr_pub f \<noteq> Some (hx d)"
    using new d' dd P nd L(1) by (simp_all add: prim_laws)
  have r: "recv_header P R now f h = Inr (mk, st)"
  proof (rule recv_turn_sync [OF P F(1-4) ss(1) l1 ss(2) L(2,3) k nd' ro nr n1 d'(4) D(3-5)])
    fix sk' assume "ratchet_step_recv P R now f (hx d) d (rs_pn l) (h_n h) (rs_send_kem_ct l)
         (Some (b64_enc P (snd (kem_gen P lg)))) =
        Inr (mk_at P (G (hx d)) (h_n h), turned P R G f sk' d (snd (kem_gen P lg)) rkn cn (h_n h))"
      and "sk' = rs_skipped f @ (case rs_dhr_pub f of Some d0 \<Rightarrow>
        (if rs_ckr f = None then [] else stash P now d0 (G d0) (rs_nr f) (rs_pn l)) | None \<Rightarrow> [])
      @ stash P now (hx d) (G (hx d)) 0 (h_n h)"
    then show ?thesis
      unfolding recv_header_eq [OF P d'(1)] hf dd st_def sk_def o1_def d'(3) by (simp only:)
  qed
  define new_pub where "new_pub = hx (x_pub P (tr_dh R))"
  define G' where "G' = G(new_pub := cn)"
  have G': "\<forall>d \<in> used. G' d = G d" "used \<subseteq> insert new_pub used" "G' new_pub = cn" "G' (hx d) = G (hx d)"
    using D(2) L(3) by (auto simp: G'_def new_pub_def)
  note rm = msgs_ok_remove [OF ms m]
  have so: "(\<exists>s \<in> set o1. sk_dh s = e \<and> sk_n s = i) \<longleftrightarrow>
      rs_dhr_pub f = Some e \<and> rs_ckr f \<noteq> None \<and> rs_nr f \<le> i \<and> i < rs_pn l" for e i
    by (auto simp: o1_def stash_def split: option.split)
  have "entries_ok P G used o1"
    using ro by (auto simp: o1_def entries_ok_def on_chain_def reads_old_def split: option.split)
  then have en: "entries_ok P G used sk"
    using party_entries [OF pf] L(3) by (simp add: sk_def entries_ok_stash)
  have "party P G' (insert new_pub used) st (tr_dh R) rkn (tr_gen R)"
    using en G' lk D(1) unfolding party_def st_def
    by (auto simp: turned_def new_pub_def entries_ok_def)
  moreover have "party P G' (insert new_pub used) l lp lr lg" by (rule party_mono [OF pl G'(1,2)])
  moreover have "msgs_ok P G' (insert new_pub used) (removeAll (h, mk) fi)" "msgs_ok P G' (insert new_pub used) il"
    using msgs_ok_mono [OF rm [THEN conjunct1] G'(1,2)] msgs_ok_mono [OF mi G'(1,2)] by blast+
  moreover have "on_chain P G' (insert new_pub used) st (rs_dhs_pub l)"
    using L G' by (simp add: on_chain_def st_def del: ck_at.simps)
  moreover have "rs_nr st \<le> rs_ns l" "rs_nr l \<le> rs_pn st" "rs_pn st < 2 ^ 32"
    using hf(1) nl F(6) by (simp_all add: st_def)
  moreover have "turn_ahead P G' st l (tr_dh R) rkn lp lr"
    unfolding st_def using k G'(3) unfolding d_def new_pub_def
    by (intro turn_ahead_turned [OF P pl]) simp_all
  moreover have "rs_dhr_pub l \<noteq> Some (rs_dhs_pub st)"
    using oc F(5) D(2) by (auto simp: on_chain_def st_def)
  moreover have "reads_old P G' (insert new_pub used) l"
    using on_chain_mono [OF oc G'(1,2)] by (auto simp: reads_old_def)
  moreover have "\<forall>m' \<in> set (removeAll (h, mk) fi). to_latest P st l (fst m')"
  proof
    fix m' assume m': "m' \<in> set (removeAll (h, mk) fi)"
    have "to_follower P l f (fst m')" using m' tl by simp
    moreover have "hdr_hex P (fst m') = hx d \<longrightarrow> h_n (fst m') \<noteq> h_n h"
      using rm [THEN conjunct2, rule_format, OF m'] d'(2) dd by simp
    ultimately show "to_latest P st l (fst m')"
      unfolding to_latest_def to_follower_def st_def sk_def stashed_turned so L(1) by auto
  qed
  moreover have "\<forall>m' \<in> set il. to_follower P st l (fst m')"
  proof
    fix m' assume m': "m' \<in> set il"
    then have "to_latest P l f (fst m')" using til by blast
    moreover have "hdr_hex P (fst m') \<in> used"
      by (rule msgs_okD [OF mi, of "fst m'" "snd m'"]) (use m' P in simp_all)
    ultimately show "to_follower P st l (fst m')"
      using D(2) oc unfolding to_latest_def to_follower_def st_def on_chain_def by auto
  qed
  ultimately have "link_at P G' (insert new_pub used) st (removeAll (h, mk) fi) l il (tr_dh R) rkn (tr_gen R) lp lr lg"
    unfolding link_at_def by simp
  then show thesis using that [OF r, of G' rkn] by (simp add: st_def new_pub_def)
qed

section \<open>Reachable joint states\<close>

lemma dh_ratchet_classical:
  assumes "prims_ok P" "rs_dhs_priv st = hx p" "length p = 32" "rs_rk st = hx r" "length r = 32"
    and "rs_peer_kem_pub st = None"
    and "root_step P r (dh P p d) ss = (rkm, c)" "kdf_rk P rkm (dh P (tr_dh R) d) = (rkn, cn)"
  shows "dh_ratchet P R st d ss = Inr (st
    \<lparr>rs_pn := rs_ns st, rs_ns := 0, rs_nr := 0, rs_dhr_pub := Some (hx d), rs_ckr := Some (hx c),
     rs_send_kem_ct := None,
     rs_dhs_priv := hx (tr_dh R), rs_dhs_pub := hx (x_pub P (tr_dh R)),
     rs_rk := hx rkn, rs_cks := Some (hx cn)\<rparr>)"
  using assms by (simp add: dh_ratchet_def ratchet_keypair_def case_prod_beta Let_def)

lemma linkedI:
  "link_at P G u (sd_st L) (sd_in L) (sd_st F) (sd_in F) lp lr lg fp fr fg \<Longrightarrow> linked P G u L F"
  unfolding linked_def by blast

lemma linkedE:
  assumes "linked P G u L F"
  obtains lp lr lg fp fr fg where "link_at P G u (sd_st L) (sd_in L) (sd_st F) (sd_in F) lp lr lg fp fr fg"
  using assms unfolding linked_def by blast

text \<open>Both sides can take their next message, and a step of either side keeps the link.\<close>

lemma link_recv_follower:
  assumes P: "prims_ok P" and a: "linked P G u L F" and m: "(h, mk) \<in> set (sd_in F)"
    and dl: "deliverable P u R now (sd_st F) h"
  shows "\<exists>st G'. recv_header P R now (sd_st F) h = Inr (mk, st) \<and>
     (linked P G' (insert (rs_dhs_pub st) u) L \<lparr>sd_st = st, sd_in = removeAll (h, mk) (sd_in F)\<rparr> \<or>
      linked P G' (insert (rs_dhs_pub st) u) \<lparr>sd_st = st, sd_in = removeAll (h, mk) (sd_in F)\<rparr> L)"
proof -
  obtain lp lr lg fp fr fg where l: "link_at P G u (sd_st L) (sd_in L) (sd_st F) (sd_in F) lp lr lg fp fr fg"
    using a by (rule linkedE)
  have pu: "insert (rs_dhs_pub (sd_st F)) u = u" using l by (auto simp: link_at_def party_def)
  show ?thesis
  proof (cases "stashed (sd_st F) (hdr_hex P h) (h_n h) \<or> hdr_hex P h \<noteq> rs_dhs_pub (sd_st L)")
    case True
    then obtain st where "recv_header P R now (sd_st F) h = Inr (mk, st)" "rs_dhs_pub st = rs_dhs_pub (sd_st F)"
        "link_at P G u (sd_st L) (sd_in L) st (removeAll (h, mk) (sd_in F)) lp lr lg fp fr fg"
      using link_recv_follower_old [OF P l m dl] by blast
    moreover from this have "linked P G (insert (rs_dhs_pub st) u) L \<lparr>sd_st = st, sd_in = removeAll (h, mk) (sd_in F)\<rparr>"
      using pu by (intro linkedI) simp
    ultimately show ?thesis by blast
  next
    case False
    then obtain st G' rkn where "recv_header P R now (sd_st F) h = Inr (mk, st)"
        "link_at P G' (insert (rs_dhs_pub st) u) st (removeAll (h, mk) (sd_in F)) (sd_st L) (sd_in L)
           (tr_dh R) rkn (tr_gen R) lp lr lg"
      using link_recv_follower_turn [OF P l m dl] by blast
    moreover from this have "linked P G' (insert (rs_dhs_pub st) u) \<lparr>sd_st = st, sd_in = removeAll (h, mk) (sd_in F)\<rparr> L"
      by (intro linkedI) simp
    ultimately show ?thesis by blast
  qed
qed

lemma link_recv_latest':
  assumes P: "prims_ok P" and a: "linked P G u L F" and m: "(h, mk) \<in> set (sd_in L)"
    and dl: "deliverable P u R now (sd_st L) h"
  shows "\<exists>st. recv_header P R now (sd_st L) h = Inr (mk, st) \<and>
     linked P G (insert (rs_dhs_pub st) u) \<lparr>sd_st = st, sd_in = removeAll (h, mk) (sd_in L)\<rparr> F"
proof -
  obtain lp lr lg fp fr fg where l: "link_at P G u (sd_st L) (sd_in L) (sd_st F) (sd_in F) lp lr lg fp fr fg"
    using a by (rule linkedE)
  have pu: "insert (rs_dhs_pub (sd_st L)) u = u" using l by (auto simp: link_at_def party_def)
  obtain st where "recv_header P R now (sd_st L) h = Inr (mk, st)" "rs_dhs_pub st = rs_dhs_pub (sd_st L)"
      "link_at P G u st (removeAll (h, mk) (sd_in L)) (sd_st F) (sd_in F) lp lr lg fp fr fg"
    using link_recv_latest [OF P l m dl] by blast
  moreover from this have "linked P G (insert (rs_dhs_pub st) u) \<lparr>sd_st = st, sd_in = removeAll (h, mk) (sd_in L)\<rparr> F"
    using pu by (intro linkedI) simp
  ultimately show ?thesis by blast
qed

lemma link_lose:
  "link_at P G u l il f fi lp lr lg fp fr fg \<Longrightarrow>
   link_at P G u l (remove1 m il) f fi lp lr lg fp fr fg \<and> link_at P G u l il f (remove1 m fi) lp lr lg fp fr fg"
  unfolding link_at_def by (auto intro: msgs_ok_remove1 dest: notin_set_remove1)

lemma half_step_latest:
  assumes P: "prims_ok P" and l: "linked P G u L F" and s: "half_step P (L, F, u) (L', F', u')"
  shows "linked P G u' L' F'"
proof -
  obtain lp lr lg fp fr fg where k: "link_at P G u (sd_st L) (sd_in L) (sd_st F) (sd_in F) lp lr lg fp fr fg"
    using l by (rule linkedE)
  from s show ?thesis
  proof (cases rule: half_step.cases)
    case (send mk h st)
    then show ?thesis using link_send_latest [OF P k send(4,5)] by (intro linkedI) simp
  next
    case (recv h mk R now mk' st)
    then show ?thesis using link_recv_latest' [OF P l recv(4,5)] by auto
  next
    case (lose m)
    then show ?thesis using link_lose [OF k, of m, THEN conjunct1] by (intro linkedI) simp
  qed
qed

lemma half_step_follower:
  assumes P: "prims_ok P" and l: "linked P G u L F" and s: "half_step P (F, L, u) (F', L', u')"
  shows "\<exists>G'. linked P G' u' L' F' \<or> linked P G' u' F' L'"
proof -
  obtain lp lr lg fp fr fg where k: "link_at P G u (sd_st L) (sd_in L) (sd_st F) (sd_in F) lp lr lg fp fr fg"
    using l by (rule linkedE)
  from s show ?thesis
  proof (cases rule: half_step.cases)
    case (send mk h st)
    then have "linked P G u' L' F'" using link_send_follower [OF P k send(4,5)] by (intro linkedI) simp
    then show ?thesis by blast
  next
    case (recv h mk R now mk' st)
    then show ?thesis using link_recv_follower [OF P l recv(4,5)] by auto
  next
    case (lose m)
    then have "linked P G u' L' F'" using link_lose [OF k, of m, THEN conjunct2] by (intro linkedI) simp
    then show ?thesis by blast
  qed
qed

lemma joint_inv_step:
  assumes P: "prims_ok P" and i: "joint_inv P j" and s: "joint_step P j j'"
  shows "joint_inv P j'"
  using s
proof (cases rule: joint_step.cases)
  case (left a b u a' b' u')
  then obtain G where "linked P G u a b \<or> linked P G u b a" using i by (auto simp: joint_inv_def)
  then have "\<exists>G'. linked P G' u' a' b' \<or> linked P G' u' b' a'"
    using half_step_latest [OF P _ left(3)] half_step_follower [OF P _ left(3)] by blast
  then show ?thesis using left by (simp add: joint_inv_def)
next
  case (right b a u b' a' u')
  then obtain G where "linked P G u a b \<or> linked P G u b a" using i by (auto simp: joint_inv_def)
  then have "\<exists>G'. linked P G' u' a' b' \<or> linked P G' u' b' a'"
    using half_step_latest [OF P _ right(3)] half_step_follower [OF P _ right(3)] by blast
  then show ?thesis using right by (simp add: joint_inv_def)
qed

text \<open>The responder's first turn, with and without the accepter's rolling key.\<close>

lemma responder_state:
  assumes P: "prims_ok P" and len: "length sk = 32" "length prekey = 32" "length (tr_dh Ra) = 32"
    and kp: "kp = None \<or> kp = Some (snd (kem_gen P (tr_gen Ra)))"
    and a: "a = ratchet_init_initiator P Ra sk (x_pub P prekey)"
    and b: "ratchet_init_responder P gen0 Rb sk prekey (x_pub P prekey) (x_pub P (tr_dh Ra)) kp = Inr b"
    and k: "kdf_rk P sk (dh P (tr_dh Ra) (x_pub P prekey)) = (r1, c1)"
  obtains r2 c2 g ss where
    "length r2 = 32" "length c2 = 32" "rs_dhs_priv b = hx (tr_dh Rb)" "rs_dhs_pub b = hx (x_pub P (tr_dh Rb))"
    "rs_rk b = hx r2" "rs_cks b = Some (hx c2)" "rs_ckr b = Some (hx c1)" "rs_ns b = 0" "rs_nr b = 0"
    "rs_pn b = 0" "rs_skipped b = []" "rs_dhr_pub b = Some (hx (x_pub P (tr_dh Ra)))"
    "rs_kem_priv b = Some (b64_enc P (fst (kem_gen P g)))" "rs_kem_pub b = Some (b64_enc P (snd (kem_gen P g)))"
    "turn_kem_secret P a (rs_send_kem_ct b) = Inr ss"
    "root_step P r1 (dh P (tr_dh Ra) (x_pub P (tr_dh Rb))) ss = (r2, c2)"
proof -
  define ek where "ek = snd (kem_gen P (tr_gen Ra))"
  define D where "D = dh P (tr_dh Rb) (x_pub P (tr_dh Ra))"
  have D: "dh P (tr_dh Ra) (x_pub P (tr_dh Rb)) = D" unfolding D_def dh_def by (rule x_dh_commute [OF P])
  have k1: "root_step P sk (dh P prekey (x_pub P (tr_dh Ra))) None = (r1, c1)"
    using k x_dh_commute [OF P, of prekey "tr_dh Ra"] by (simp add: root_step_def dh_def)
  have r1: "length r1 = 32" using length_kdf_rk [OF P, of sk "dh P (tr_dh Ra) (x_pub P prekey)"] k by simp
  have ka: "rs_kem_priv a = Some (b64_enc P (fst (kem_gen P (tr_gen Ra))))" "rs_peer_kem_pub a = None"
    by (simp_all add: a ratchet_init_initiator_def ratchet_keypair_def case_prod_beta Let_def)
  show thesis
  proof (cases kp)
    case None
    obtain r2 c2 where k2: "kdf_rk P r1 D = (r2, c2)" by force
    then have "length r2 = 32 \<and> length c2 = 32" using length_kdf_rk [OF P, of r1 D] by simp
    then show thesis
      using b dh_ratchet_classical [OF P _ len(2) _ len(1) _ k1 k2 [unfolded D_def]] k2 ka D None
      by (intro that [of r2 c2 gen0 None])
        (auto simp: ratchet_init_responder_def case_prod_beta Let_def turn_kem_secret_def root_step_def)
  next
    case (Some e)
    then have e: "e = ek" using kp by (simp add: ek_def)
    define K where "K = snd (kem_encaps P ek (tr_encaps Rb))"
    obtain r2 c2 where k2: "kdf_rk_hybrid P r1 D K = (r2, c2)" by force
    then have lk: "length r2 = 32 \<and> length c2 = 32" using length_kdf_rk_hybrid [OF P, of r1 D K] by simp
    have le: "length ek = 1184" using P by (simp add: ek_def prim_laws)
    have ts: "turn_kem_secret P a (Some (b64_enc P (fst (kem_encaps P ek (tr_encaps Rb))))) = Inr (Some K)"
      using P ka by (simp add: turn_kem_secret_def ml_kem_decapsulate_local_def prim_laws ek_def K_def)
    show thesis
      using b dh_ratchet_hybrid [OF P _ len(2) _ len(1) _ le k1 k2 [unfolded D_def K_def]] k2 D Some e lk ts
      by (intro that [of r2 c2 "tr_gen Rb" "Some K"])
        (auto simp: ratchet_init_responder_def case_prod_beta Let_def root_step_def)
  qed
qed

lemma joint_start_inv:
  assumes P: "prims_ok P" and s: "joint_start P j"
  shows "joint_inv P j"
  using s
proof (cases rule: joint_start.cases)
  case (start sk prekey Ra Rb a kp gen0 b)
  obtain r1 c1 where k: "kdf_rk P sk (dh P (tr_dh Ra) (x_pub P prekey)) = (r1, c1)" by force
  then have l1: "length r1 = 32" "length c1 = 32"
    using length_kdf_rk [OF P, of sk "dh P (tr_dh Ra) (x_pub P prekey)"] by simp_all
  have A: "rs_dhs_priv a = hx (tr_dh Ra)" "rs_dhs_pub a = hx (x_pub P (tr_dh Ra))" "rs_rk a = hx r1"
      "rs_cks a = Some (hx c1)" "rs_ckr a = None" "rs_ns a = 0" "rs_nr a = 0" "rs_skipped a = []"
      "rs_dhr_pub a = Some (hx (x_pub P prekey))"
      "rs_kem_priv a = Some (b64_enc P (fst (kem_gen P (tr_gen Ra))))"
      "rs_kem_pub a = Some (b64_enc P (snd (kem_gen P (tr_gen Ra))))"
    using k by (simp_all add: start(6) ratchet_init_initiator_def ratchet_keypair_def case_prod_beta Let_def)
  obtain r2 c2 g ss where B: "length r2 = 32" "length c2 = 32" "rs_dhs_priv b = hx (tr_dh Rb)"
    "rs_dhs_pub b = hx (x_pub P (tr_dh Rb))"
    "rs_rk b = hx r2" "rs_cks b = Some (hx c2)" "rs_ckr b = Some (hx c1)" "rs_ns b = 0" "rs_nr b = 0"
    "rs_pn b = 0" "rs_skipped b = []" "rs_dhr_pub b = Some (hx (x_pub P (tr_dh Ra)))"
    "rs_kem_priv b = Some (b64_enc P (fst (kem_gen P g)))" "rs_kem_pub b = Some (b64_enc P (snd (kem_gen P g)))"
    "turn_kem_secret P a (rs_send_kem_ct b) = Inr ss"
    "root_step P r1 (dh P (tr_dh Ra) (x_pub P (tr_dh Rb))) ss = (r2, c2)"
    by (rule responder_state [OF P start(2-4) start(7) start(6) start(8) k])
  define G where "G = (\<lambda>_ :: string. [])(hx (x_pub P (tr_dh Ra)) := c1, hx (x_pub P (tr_dh Rb)) := c2)"
  define u where "u = {hx (x_pub P prekey), rs_dhs_pub a, rs_dhs_pub b}"
  have ne: "x_pub P (tr_dh Ra) \<noteq> x_pub P (tr_dh Rb)" "x_pub P prekey \<noteq> x_pub P (tr_dh Rb)"
    using start(9) by auto
  then have G: "G (hx (x_pub P (tr_dh Ra))) = c1" "G (hx (x_pub P (tr_dh Rb))) = c2" by (simp_all add: G_def)
  have "link_at P G u b [] a [] (tr_dh Rb) r2 g (tr_dh Ra) r1 (tr_gen Ra)"
    using A B G l1 ne start(4,5)
    by (simp add: link_at_def party_def msgs_ok_def on_chain_def turn_ahead_def reads_old_def u_def)
  then have "linked P G u \<lparr>sd_st = b, sd_in = []\<rparr> \<lparr>sd_st = a, sd_in = []\<rparr>"
    by (intro linkedI) simp
  then show ?thesis unfolding joint_inv_def start(1) u_def by auto
qed

lemma joint_reachable_inv: "joint_reachable P j \<Longrightarrow> prims_ok P \<Longrightarrow> joint_inv P j"
  by (induction rule: joint_reachable.induct) (auto intro: joint_start_inv joint_inv_step)

lemma joint_inv_deliver:
  assumes P: "prims_ok P" and i: "joint_inv P (a, b, u)" and m: "(h, mk) \<in> set (sd_in a)"
    and dl: "deliverable P u R now (sd_st a) h"
  shows "\<exists>st. recv_header P R now (sd_st a) h = Inr (mk, st)"
proof -
  obtain G where "linked P G u a b \<or> linked P G u b a" using i by (auto simp: joint_inv_def)
  then show ?thesis using link_recv_latest' [OF P _ m dl] link_recv_follower [OF P _ m dl] by blast
qed

section \<open>Agreement\<close>

text \<open>C1. Whatever the two devices have sent, received, reordered or lost since the handshake,
  a message on its way that stays within the skip bound is accepted by the receiving step of
  the ratchet, and the key the receiver derives is the key the sender sealed it with. This
  covers out-of-order messages, messages of the previous chain, and the DH and KEM turns.\<close>

theorem ratchet_agreement:
  assumes "prims_ok P" "joint_reachable P (a, b, used)" "s = a \<or> s = b"
    and "(h, mk) \<in> set (sd_in s)" "deliverable P used R now (sd_st s) h"
  shows "\<exists>st. recv_header P R now (sd_st s) h = Inr (mk, st)"
proof -
  have i: "joint_inv P (a, b, used)" by (rule joint_reachable_inv [OF assms(2,1)])
  then have "joint_inv P (b, a, used)" by (auto simp: joint_inv_def)
  with i show ?thesis using assms joint_inv_deliver by blast
qed

text \<open>A concrete run: the inviter's first message, which makes the accepter turn.\<close>

definition sample_rand :: "byte \<Rightarrow> turn_rand" where
  "sample_rand b = \<lparr>tr_dh = replicate 32 b, tr_encaps = [b], tr_gen = [b]\<rparr>"

definition sample_a :: ratchet_state where
  "sample_a = ratchet_init_initiator (sample_prims 64) (sample_rand 1) (replicate 32 9)
     (x_pub (sample_prims 64) (replicate 32 3))"

definition sample_b :: ratchet_state where
  "sample_b = (case ratchet_init_responder (sample_prims 64) [7] (sample_rand 2) (replicate 32 9)
     (replicate 32 3) (x_pub (sample_prims 64) (replicate 32 3))
     (x_pub (sample_prims 64) (tr_dh (sample_rand 1))) None of Inr b \<Rightarrow> b | Inl _ \<Rightarrow> sample_a)"

lemma sample_b_eq: "ratchet_init_responder (sample_prims 64) [7] (sample_rand 2) (replicate 32 9)
     (replicate 32 3) (x_pub (sample_prims 64) (replicate 32 3))
     (x_pub (sample_prims 64) (tr_dh (sample_rand 1))) None = Inr sample_b"
proof -
  have "is_ok (dh_ratchet (sample_prims 64) (sample_rand 2) st d None)"
    if "rs_dhs_priv st = hx p" "length p = 32" "rs_rk st = hx r" "length r = 32" "rs_peer_kem_pub st = None" for st p r d
    using dh_ratchet_classical [OF sample_prims_ok that, of 64 d None _ _ "sample_rand 2"]
    by (metis is_ok.simps(2) surj_pair)
  then have "is_ok (ratchet_init_responder (sample_prims 64) [7] (sample_rand 2) (replicate 32 9)
     (replicate 32 3) (x_pub (sample_prims 64) (replicate 32 3))
     (x_pub (sample_prims 64) (tr_dh (sample_rand 1))) None)"
    by (auto simp: ratchet_init_responder_def case_prod_beta Let_def)
  then show ?thesis by (auto simp: sample_b_def is_ok_iff)
qed

lemma sample_x_pub: "x_pub (sample_prims 64) (replicate 32 b) = replicate 32 b"
  by (simp add: sample_prims_def fit_id)

lemma sample_start: "joint_start (sample_prims 64) (\<lparr>sd_st = sample_a, sd_in = []\<rparr>, \<lparr>sd_st = sample_b, sd_in = []\<rparr>,
    {hx (x_pub (sample_prims 64) (replicate 32 3)), rs_dhs_pub sample_a, rs_dhs_pub sample_b})"
  by (rule joint_start.start [OF _ _ _ _ sample_a_def _ sample_b_eq])
    (simp_all add: sample_rand_def sample_x_pub replicate_eq_replicate)

lemma sample_run:
  obtains h mk st where
    "joint_reachable (sample_prims 64) (\<lparr>sd_st = sample_a, sd_in = [(h, mk)]\<rparr>, \<lparr>sd_st = st, sd_in = []\<rparr>,
       {hx (replicate 32 3), hx (replicate 32 1), hx (replicate 32 2)})"
    "h_pn h = 0" "h_n h = 0" "hdr_hex (sample_prims 64) h = hx (replicate 32 2)"
    "ratchet_step_send (sample_prims 64) sample_b = Inr (mk, h, st)" "h_dh h = b64_enc (sample_prims 64) (replicate 32 2)"
    "h_kem_ct h = rs_send_kem_ct sample_b" "h_kem_pub h = rs_kem_pub sample_b"
proof -
  have P: "prims_ok (sample_prims 64)" by (rule sample_prims_ok) simp
  obtain r1 c1 where k: "kdf_rk (sample_prims 64) (replicate 32 9) (dh (sample_prims 64) (tr_dh (sample_rand 1))
      (x_pub (sample_prims 64) (replicate 32 3))) = (r1, c1)" by force
  obtain c2 where B: "length c2 = 32" "rs_dhs_pub sample_b = hx (x_pub (sample_prims 64) (tr_dh (sample_rand 2)))"
      "rs_cks sample_b = Some (hx c2)" "rs_ns sample_b = 0" "rs_pn sample_b = 0"
    by (rule responder_state [OF P _ _ _ _ sample_a_def sample_b_eq k])
      (simp_all add: sample_rand_def)
  have pubs: "rs_dhs_pub sample_a = hx (replicate 32 1)" "rs_dhs_pub sample_b = hx (replicate 32 2)"
    using B(2) by (simp_all add: sample_a_def ratchet_init_initiator_def ratchet_keypair_def
        case_prod_beta Let_def sample_rand_def sample_x_pub)
  define h where "h = \<lparr>h_dh = b64_enc (sample_prims 64) (replicate 32 2), h_pn = 0, h_n = 0,
    h_kem_ct = rs_send_kem_ct sample_b, h_kem_pub = rs_kem_pub sample_b\<rparr>"
  obtain mk st where s: "ratchet_step_send (sample_prims 64) sample_b = Inr (mk, h, st)"
    using B(1,3-5) pubs(2) by (auto simp: ratchet_step_send_def case_prod_beta Let_def h_def)
  have "joint_reachable (sample_prims 64) (\<lparr>sd_st = sample_a, sd_in = []\<rparr>, \<lparr>sd_st = sample_b, sd_in = []\<rparr>,
       {hx (replicate 32 3), hx (replicate 32 1), hx (replicate 32 2)})"
    using joint_reachable.init [OF sample_start] by (simp add: sample_x_pub pubs)
  moreover have "half_step (sample_prims 64) (\<lparr>sd_st = sample_b, sd_in = []\<rparr>, \<lparr>sd_st = sample_a, sd_in = []\<rparr>, u)
      (\<lparr>sd_st = st, sd_in = []\<rparr>, \<lparr>sd_st = sample_a, sd_in = [(h, mk)]\<rparr>, u)" for u
    using half_step.send [where a = "\<lparr>sd_st = sample_b, sd_in = []\<rparr>" and b = "\<lparr>sd_st = sample_a, sd_in = []\<rparr>" and used = u]
      s(1) B(4) by simp
  ultimately have "joint_reachable (sample_prims 64) (\<lparr>sd_st = sample_a, sd_in = [(h, mk)]\<rparr>, \<lparr>sd_st = st, sd_in = []\<rparr>,
       {hx (replicate 32 3), hx (replicate 32 1), hx (replicate 32 2)})"
    using joint_reachable.step joint_step.right by metis
  then show thesis using that [of h mk st] s P by (simp add: h_def)
qed

theorem ratchet_agreement_witness:
  "\<exists>a b used h mk st. joint_reachable (sample_prims 64) (a, b, used) \<and> (h, mk) \<in> set (sd_in a) \<and>
     new_epoch (sd_st a) (hdr_hex (sample_prims 64) h) \<and>
     recv_header (sample_prims 64) (sample_rand 4) 0 (sd_st a) h = Inr (mk, st)"
proof -
  have P: "prims_ok (sample_prims 64)" by (rule sample_prims_ok) simp
  obtain h mk st where r: "joint_reachable (sample_prims 64)
      (\<lparr>sd_st = sample_a, sd_in = [(h, mk)]\<rparr>, \<lparr>sd_st = st, sd_in = []\<rparr>,
       {hx (replicate 32 3), hx (replicate 32 1), hx (replicate 32 2)})"
    "h_pn h = 0" "h_n h = 0" "hdr_hex (sample_prims 64) h = hx (replicate 32 2)" by (rule sample_run) (rule that)
  have a: "rs_skipped sample_a = []" "rs_nr sample_a = 0" "rs_dhr_pub sample_a = Some (hx (replicate 32 3))"
    by (simp_all add: sample_a_def ratchet_init_initiator_def case_prod_beta Let_def sample_x_pub)
  have "deliverable (sample_prims 64) {hx (replicate 32 3), hx (replicate 32 1), hx (replicate 32 2)}
      (sample_rand 4) 0 sample_a h"
    using r a by (simp add: deliverable_def total_skip_def sat_add32_def MAX_SKIP_def MAX_SKIPPED_KEYS_def
        sample_rand_def sample_x_pub replicate_eq_replicate)
  then have "\<exists>st. recv_header (sample_prims 64) (sample_rand 4) 0 sample_a h = Inr (mk, st)"
    using ratchet_agreement [OF P r(1), of "\<lparr>sd_st = sample_a, sd_in = [(h, mk)]\<rparr>" h mk "sample_rand 4" 0] by simp
  moreover have "new_epoch sample_a (hdr_hex (sample_prims 64) h)"
    using a r(4) by (simp add: new_epoch_def replicate_eq_replicate)
  ultimately show ?thesis using r(1) by (metis list.set_intros(1) side.select_convs(1,2))
qed

end
