(* ===== verification/Text.thy ===== *)
theory Text
imports Prelude
begin

text \<open>
  The operations of \<open>str\<close> the chat engine uses, on UTF-8 byte strings: taking a number of
  characters, \<open>trim\<close>, prefixes and the sanitising of path components.
\<close>

section \<open>Characters\<close>

text \<open>\<open>s.chars().take(n).collect()\<close>: the bytes before the (n+1)-th leading byte.\<close>

fun take_chars :: "nat \<Rightarrow> string \<Rightarrow> string" where
  "take_chars n [] = []"
| "take_chars n (c # cs) =
     (if is_cont c then c # take_chars n cs
      else case n of 0 \<Rightarrow> [] | Suc k \<Rightarrow> c # take_chars k cs)"

definition char_count :: "string \<Rightarrow> nat" where
  "char_count s = length (filter (\<lambda>c. \<not> is_cont c) s)"

definition utf8 :: "nat list \<Rightarrow> string" where
  "utf8 = map char_of"

section \<open>White space\<close>

text \<open>The characters with the property \<open>White_Space\<close>, as \<open>trim\<close> removes them.\<close>

definition white_space :: "string list" where
  "white_space = map utf8 ([[9], [10], [11], [12], [13], [32], [194, 133], [194, 160], [225, 154, 128]]
     @ map (\<lambda>b. [226, 128, b]) ([128, 129, 130, 131, 132, 133, 134, 135, 136, 137, 138] @ [168, 169, 175])
     @ [[226, 129, 159], [227, 128, 128]])"

definition strip_one :: "string list \<Rightarrow> string \<Rightarrow> string option" where
  "strip_one pats s = (case filter (\<lambda>p. take (length p) s = p) pats of
     [] \<Rightarrow> None | p # _ \<Rightarrow> Some (drop (length p) s))"

function trim_by :: "string list \<Rightarrow> string \<Rightarrow> string" where
  "trim_by pats s = (case strip_one pats s of
     Some r \<Rightarrow> if length r < length s then trim_by pats r else s | None \<Rightarrow> s)"
  by pat_completeness auto
termination by (relation "measure (\<lambda>(_, s). length s)") auto

declare trim_by.simps [simp del]

definition trim :: "string \<Rightarrow> string" where
  "trim s = rev (trim_by (map rev white_space) (rev (trim_by white_space s)))"

section \<open>Paths\<close>

text \<open>\<open>did.replace(['/', ':'], "_")\<close>.\<close>

definition path_safe :: "string \<Rightarrow> string" where
  "path_safe s = map (\<lambda>c. if c = CHR ''/'' \<or> c = CHR '':'' then CHR ''_'' else c) s"

definition ascii_alnum :: "char \<Rightarrow> bool" where
  "ascii_alnum c = (let n = of_char c :: nat in
     (48 \<le> n \<and> n \<le> 57) \<or> (65 \<le> n \<and> n \<le> 90) \<or> (97 \<le> n \<and> n \<le> 122))"

definition starts_with :: "string \<Rightarrow> string \<Rightarrow> bool" where
  "starts_with s p = (take (length p) s = p)"

section \<open>Lemmas\<close>

lemma take_chars_prefix: "\<exists>r. s = take_chars n s @ r"
  by (induction n s rule: take_chars.induct) (auto split: nat.split)

lemma char_count_take_chars: "char_count (take_chars n s) \<le> n"
  by (induction n s rule: take_chars.induct) (auto simp: char_count_def split: nat.split)

lemma take_chars_id: "char_count s \<le> n \<Longrightarrow> take_chars n s = s"
  by (induction n s rule: take_chars.induct) (auto simp: char_count_def split: nat.split if_splits)

lemma starts_with_append [simp]: "starts_with (p @ s) p"
  by (simp add: starts_with_def)

lemma take_chars_empty: "take_chars (Suc n) s = [] \<longleftrightarrow> s = []"
  by (cases s) auto

lemma path_safe_chars: "set (path_safe s) \<inter> {CHR ''/'', CHR '':''} = {}"
  by (auto simp: path_safe_def)

end
