(* ===== verification/Records.thy ===== *)
theory Records
imports Text
begin

text \<open>
  The records the chat engine persists and sends (the \<open>struct\<close>s and \<open>enum\<close>s of
  \<open>capsules/hey-core/src/api/dms.rs\<close> and \<open>session.rs\<close>): keys, contacts, messages, attachments,
  groups and the session, with the fields in the order of the source.
\<close>

section \<open>Persisted data\<close>

record peer_keys =
  pk_x25519 :: string
  pk_ml_kem :: string

datatype contact_status = PendingInvite | Active

datatype identity_mode = Regular | Anonymous

record anon_identity =
  an_seed_hex :: string
  an_kem_secret :: string
  an_kem_public :: string
  an_did :: string

record retired_queue =
  rq_queue :: string
  rq_pseudonym :: string
  rq_retire_at :: int

record dm_contact =
  ct_did :: string
  ct_name :: string
  ct_last_ts :: int
  ct_last_preview :: string
  ct_unread :: nat
  ct_my_inbound_queue :: "string option"
  ct_my_recv_pseudonym :: "string option"
  ct_their_inbound_queue :: "string option"
  ct_my_send_pseudonym :: "string option"
  ct_peer_ticket :: "string option"
  ct_peer_pubkeys :: "peer_keys option"
  ct_status :: contact_status
  ct_mode :: identity_mode
  ct_anon_identity :: "anon_identity option"
  ct_ratchet_capable :: bool
  ct_key_verified :: bool
  ct_my_queue_rotated_at :: int
  ct_my_queue_msg_count :: nat
  ct_retired_queues :: "retired_queue list"

record attachment =
  at_id :: string
  at_name :: string
  at_mime :: string
  at_size :: nat
  at_cid :: string
  at_chunks :: "string list"
  at_tickets :: "string list"
  at_key_b64 :: string
  at_inline_b64 :: "string option"

record dm_message =
  ms_id :: string
  ms_text :: string
  ms_ts :: int
  ms_mine :: bool
  ms_encrypted :: bool
  ms_attachments :: "attachment list"
  ms_sender_name :: string
  ms_pinned :: bool

record group_member =
  gm_did :: string
  gm_name :: string
  gm_peer_pubkeys :: "peer_keys option"
  gm_peer_ticket :: "string option"

record group =
  gr_id :: string
  gr_name :: string
  gr_members :: "group_member list"
  gr_last_ts :: int
  gr_last_preview :: string
  gr_unread :: nat
  gr_created_by :: string
  gr_bio :: string
  gr_avatar_cid :: "string option"
  gr_pending :: bool

record session =
  ss_auth_key_hex :: string
  ss_did_key :: string
  ss_name :: string
  ss_kem_secret :: string
  ss_kem_public :: string

end
