(* ===== verification/Social_Data.thy ===== *)
theory Social_Data
imports Records Json
begin

text \<open>
  The records of the social application (\<open>capsules/hey-social/src\<close>): posts, comments and the
  feed (\<open>api/posts.rs\<close>), profiles and follow lists (\<open>api/profile.rs\<close>), groups
  (\<open>api/groups.rs\<close>), notifications, the CBOR values of \<open>ipld.rs\<close>, and the files the
  application keeps. \<open>None\<close> is a file that is absent or does not decode; a Rust
  \<open>HashMap\<close> is a map, a \<open>serde_json::Map\<close> the list of its members.
\<close>

section \<open>Posts\<close>

record media_tile =
  mt_url :: string
  mt_cid :: string
  mt_type :: string
  mt_mime :: string
  mt_name :: string

record comment =
  cm_id :: string
  cm_user_id :: string
  cm_user_did :: string
  cm_user_name :: string
  cm_text :: string
  cm_parent_id :: "string option"
  cm_created_at :: string
  cm_reactions :: "(string \<times> json) list"
  cm_ts :: int

record post =
  po_id :: string
  po_user_id :: string
  po_user_did :: string
  po_user_name :: string
  po_user_avatar :: string
  po_caption :: string
  po_images :: "media_tile list"
  po_created_at :: string
  po_reactions :: "(string \<times> json) list"
  po_reposts :: "string list"
  po_comments :: "comment list"
  po_ts :: int
  po_post_cid :: "string option"

record feed_entry =
  fe_id :: string
  fe_ts :: int
  fe_author :: string
  fe_post_cid :: "string option"

section \<open>Profiles\<close>

record profile =
  pr_id :: string
  pr_name :: string
  pr_auth_key_hash :: string
  pr_did_key :: string
  pr_role :: string
  pr_avatar :: string
  pr_bio :: string
  pr_followers :: "string list"
  pr_following :: "string list"
  pr_pending_followers :: "string list"
  pr_pending_following :: "string list"
  pr_created_at :: string
  pr_posts_head :: "string option"

record follows =
  fo_followers :: "string list"
  fo_following :: "string list"
  fo_pending :: "string list"

record public_profile =
  pp_did :: string
  pp_name :: string
  pp_bio :: string
  pp_avatar :: string
  pp_followers :: nat
  pp_following :: nat

record friend_link =
  fl_v :: nat
  fl_did :: string
  fl_name :: string
  fl_node_ticket :: "string option"
  fl_x25519 :: "string option"
  fl_ml_kem :: "string option"

record follow_view =
  fv_did :: string
  fv_name :: string

section \<open>Groups and notifications\<close>

record social_group =
  sg_id :: string
  sg_name :: string
  sg_members :: "string list"
  sg_creator_did :: string
  sg_created_at :: int
  sg_last_ts :: int
  sg_last_preview :: string
  sg_unread :: nat

record social_message =
  sm_id :: string
  sm_group_id :: string
  sm_sender_did :: string
  sm_sender_name :: string
  sm_text :: string
  sm_ts :: int
  sm_mine :: bool
  sm_encrypted :: bool
  sm_attachments :: "attachment list"

record notification =
  no_id :: string
  no_event_type :: string
  no_from_did :: string
  no_from_name :: string
  no_ts :: "int option"
  no_read :: bool
  no_post_id :: "string option"
  no_emoji :: "string option"

section \<open>CBOR\<close>

text \<open>The values of \<open>ciborium::Value\<close>; the integers of CBOR have 64 bits and a sign. A float is
  known by its bits.\<close>

datatype cbor = CInt int | CBytes bytes | CFloat "64 word" | CText string | CBool bool | CNull
  | CTag nat cbor | CArr "cbor list" | CMap "(cbor \<times> cbor) list"

section \<open>Files\<close>

record social_files =
  sf_profile :: "profile option"
  sf_follows :: "follows option"
  sf_posts :: "string \<Rightarrow> post option"
  sf_feed :: "feed_entry list option"
  sf_tickets :: "(string \<Rightarrow> string option) option"
  sf_heads :: "(string \<Rightarrow> string option) option"
  sf_names :: "(string \<Rightarrow> string option) option"
  sf_profiles :: "(string \<Rightarrow> public_profile option) option"
  sf_notes :: "json option"
  sf_groups :: "social_group list option"
  sf_group_msgs :: "string \<Rightarrow> social_message list option"
  sf_last_backfill :: int
  sf_index_published :: bool

definition no_social_files :: social_files where
  "no_social_files = \<lparr>sf_profile = None, sf_follows = None, sf_posts = (\<lambda>_. None), sf_feed = None,
     sf_tickets = None, sf_heads = None, sf_names = None, sf_profiles = None, sf_notes = None,
     sf_groups = None, sf_group_msgs = (\<lambda>_. None), sf_last_backfill = 0, sf_index_published = False\<rparr>"

end
