(* ===== verification/Frag.thy ===== *)
theory Frag
imports Interfaces "HOL-Library.AList" "HOL-Library.Multiset"
begin

text \<open>
  \<open>capsules/hey-core/src/api/frag.rs\<close>: splitting a wire into gossip-sized fragments and
  putting it together again. The JSON form of a fragment is produced and parsed by
  \<open>serde_json\<close>, the arguments \<open>enc\<close> and \<open>dec\<close>; \<open>uid\<close> is the fresh UUID.
\<close>

definition CHUNK_BYTES :: nat where
  "CHUNK_BYTES = 3000"

definition REASSEMBLY_TTL_MS :: int where
  "REASSEMBLY_TTL_MS = 120000"

definition TAG :: string where
  "TAG = ''hcfrag1''"

record fragment_rec =
  fr_t :: string
  fr_id :: string
  fr_i :: nat
  fr_n :: nat
  fr_d :: string

definition needs_fragment :: "string \<Rightarrow> bool" where
  "needs_fragment wire = (length wire > CHUNK_BYTES)"

text \<open>\<open>wire[start..end]\<close> panics when a bound is inside a multi-byte character.\<close>

definition char_boundary :: "string \<Rightarrow> nat \<Rightarrow> bool" where
  "char_boundary s i = (i = 0 \<or> i = length s \<or> (i < length s \<and> \<not> is_cont (s ! i)))"

definition str_slice :: "string \<Rightarrow> nat \<Rightarrow> nat \<Rightarrow> string res" where
  "str_slice s a b = (if a \<le> b \<and> char_boundary s a \<and> char_boundary s b
     then Inr (take (b - a) (drop a s)) else Inl (Panic ''byte index is not a char boundary''))"

fun fragments_from :: "(fragment_rec \<Rightarrow> string) \<Rightarrow> string \<Rightarrow> string \<Rightarrow> nat \<Rightarrow> nat list \<Rightarrow> string list res" where
  "fragments_from enc uid wire n [] = Inr []"
| "fragments_from enc uid wire n (i # is) =
     (let start = i * CHUNK_BYTES; stop = min (start + CHUNK_BYTES) (length wire) in
      bindR (str_slice wire start stop) (\<lambda>d.
      bindR (fragments_from enc uid wire n is) (\<lambda>out.
      Inr (enc \<lparr>fr_t = TAG, fr_id = uid, fr_i = i, fr_n = n, fr_d = d\<rparr> # out))))"

definition fragment :: "(fragment_rec \<Rightarrow> string) \<Rightarrow> string \<Rightarrow> string \<Rightarrow> string list res" where
  "fragment enc uid wire =
     (if \<not> needs_fragment wire then Inr [wire]
      else let n = ((length wire + CHUNK_BYTES - 1) div CHUNK_BYTES) mod 2 ^ 32
           in fragments_from enc uid wire n [0..<n])"

section \<open>Reassembly\<close>

record partial =
  pt_n :: nat
  pt_parts :: "(nat \<times> string) list"
  pt_first_ms :: int

type_synonym frag_buf = "string \<Rightarrow> partial option"

definition retain_fresh :: "int \<Rightarrow> frag_buf \<Rightarrow> frag_buf" where
  "retain_fresh now m = (\<lambda>k. case m k of
     Some p \<Rightarrow> if now - pt_first_ms p < REASSEMBLY_TTL_MS then Some p else None | None \<Rightarrow> None)"

definition join_parts :: "(nat \<times> string) list \<Rightarrow> nat \<Rightarrow> string option" where
  "join_parts parts n = map_option concat (those (map (map_of parts) [0..<n]))"

definition reassemble :: "(string \<Rightarrow> fragment_rec option) \<Rightarrow> int \<Rightarrow> string \<Rightarrow> frag_buf \<Rightarrow> string option \<times> frag_buf" where
  "reassemble dec now content m = (case dec content of
     None \<Rightarrow> (Some content, m)
   | Some f \<Rightarrow>
       if fr_t f \<noteq> TAG then (Some content, m)
       else let m1 = retain_fresh now m;
                p = (case m1 (fr_id f) of Some p \<Rightarrow> p
                     | None \<Rightarrow> \<lparr>pt_n = fr_n f, pt_parts = [], pt_first_ms = now\<rparr>);
                p' = p\<lparr>pt_parts := AList.update (fr_i f) (fr_d f) (pt_parts p)\<rparr>;
                m2 = m1(fr_id f \<mapsto> p')
            in if length (pt_parts p') mod 2 ^ 32 \<noteq> pt_n p' then (None, m2)
               else case join_parts (pt_parts p') (pt_n p') of
                 None \<Rightarrow> (None, m2)
               | Some wire \<Rightarrow> (Some wire, m2(fr_id f := None)))"

text \<open>A run of receipts, each with its time.\<close>

fun reassemble_run :: "(string \<Rightarrow> fragment_rec option) \<Rightarrow> (int \<times> string) list \<Rightarrow> frag_buf \<Rightarrow>
    string option list \<times> frag_buf" where
  "reassemble_run dec [] m = ([], m)"
| "reassemble_run dec ((now, c) # es) m =
     (let (r, m') = reassemble dec now c m; (rs, m'') = reassemble_run dec es m' in (r # rs, m''))"

section \<open>Lemmas: splitting\<close>

definition chunk :: "string \<Rightarrow> nat \<Rightarrow> string" where
  "chunk wire i = take CHUNK_BYTES (drop (i * CHUNK_BYTES) wire)"

definition nchunks :: "string \<Rightarrow> nat" where
  "nchunks wire = (length wire + CHUNK_BYTES - 1) div CHUNK_BYTES"

lemma concat_chunks: "concat (map (chunk wire) [0..<k]) = take (k * CHUNK_BYTES) wire"
  by (induction k) (simp_all add: chunk_def take_add [symmetric] add.commute)

lemma nchunks_cover: "length wire \<le> nchunks wire * CHUNK_BYTES"
proof -
  have "length wire + 2999 < ((length wire + 2999) div 3000 + 1) * 3000"
    using dividend_less_div_times [of 3000 "length wire + 2999"] by simp
  then show ?thesis by (simp add: nchunks_def CHUNK_BYTES_def)
qed

lemma nchunks_start: "i < nchunks wire \<Longrightarrow> i * CHUNK_BYTES < length wire"
proof -
  assume "i < nchunks wire"
  then have "Suc i * 3000 \<le> (length wire + 2999) div 3000 * 3000"
    by (intro mult_right_mono) (simp_all add: nchunks_def CHUNK_BYTES_def)
  also have "\<dots> \<le> length wire + 2999" by simp
  finally show ?thesis by (simp add: CHUNK_BYTES_def)
qed

lemma concat_all_chunks: "concat (map (chunk wire) [0..<nchunks wire]) = wire"
  using nchunks_cover by (simp add: concat_chunks)

definition ascii :: "string \<Rightarrow> bool" where
  "ascii s = list_all (\<lambda>c. (of_char c :: nat) < 128) s"

lemma ascii_boundary: "ascii s \<Longrightarrow> i \<le> length s \<Longrightarrow> char_boundary s i"
  by (cases "i = length s") (auto simp: ascii_def char_boundary_def is_cont_def list_all_length
      linorder_not_le [symmetric])

definition frag_of :: "string \<Rightarrow> string \<Rightarrow> nat \<Rightarrow> fragment_rec" where
  "frag_of uid wire i = \<lparr>fr_t = TAG, fr_id = uid, fr_i = i, fr_n = nchunks wire, fr_d = chunk wire i\<rparr>"

lemma fragments_from_ascii:
  "ascii wire \<Longrightarrow> n = nchunks wire \<Longrightarrow> \<forall>i \<in> set is. i < n \<Longrightarrow>
   fragments_from enc uid wire n is = Inr (map (\<lambda>i. enc (frag_of uid wire i)) is)"
proof (induction "is")
  case (Cons i "is")
  have s: "i * CHUNK_BYTES \<le> length wire" using nchunks_start [of i wire] Cons.prems by simp
  have "take (min (i * CHUNK_BYTES + CHUNK_BYTES) (length wire) - i * CHUNK_BYTES) (drop (i * CHUNK_BYTES) wire)
      = chunk wire i"
    by (auto simp: chunk_def min_def)
  then have "str_slice wire (i * CHUNK_BYTES) (min (i * CHUNK_BYTES + CHUNK_BYTES) (length wire)) = Inr (chunk wire i)"
    using s ascii_boundary [OF Cons.prems(1)] by (simp add: str_slice_def)
  then show ?case using Cons by (simp add: Let_def frag_of_def)
qed simp

lemma fragment_ascii:
  assumes "ascii wire" "needs_fragment wire" "length wire < 2 ^ 32"
  shows "fragment enc uid wire = Inr (map (\<lambda>i. enc (frag_of uid wire i)) [0..<nchunks wire])"
proof -
  have n: "nchunks wire < 2 ^ 32" using assms(3) by (simp add: nchunks_def CHUNK_BYTES_def)
  have "fragment enc uid wire = fragments_from enc uid wire (nchunks wire mod 2 ^ 32) [0..<nchunks wire mod 2 ^ 32]"
    using assms(2) by (simp add: fragment_def nchunks_def Let_def)
  also have "\<dots> = fragments_from enc uid wire (nchunks wire) [0..<nchunks wire]" using n by simp
  finally show ?thesis using fragments_from_ascii [OF assms(1) refl, of "[0..<nchunks wire]"] by simp
qed

section \<open>Lemmas: reassembly\<close>

text \<open>The entry of a wire of which exactly the fragments with index in \<open>R\<close> have arrived.\<close>

definition entry_ok :: "string \<Rightarrow> string \<Rightarrow> int \<Rightarrow> nat set \<Rightarrow> frag_buf \<Rightarrow> bool" where
  "entry_ok uid wire t0 R m = (R \<subseteq> {0..<nchunks wire} \<and>
     (if R = {} then m uid = None else
      (\<exists>p. m uid = Some p \<and> pt_n p = nchunks wire \<and> t0 \<le> pt_first_ms p \<and> distinct (map fst (pt_parts p)) \<and>
         map_of (pt_parts p) = (\<lambda>i. if i \<in> R then Some (chunk wire i) else None))))"

lemma parts_card:
  assumes "distinct (map fst ps)" "map_of ps = (\<lambda>i. if i \<in> R then Some (f i) else None)"
  shows "length ps = card R"
proof -
  have "set (map fst ps) = dom (map_of ps)" by (simp add: dom_map_of_conv_image_fst)
  also have "\<dots> = R" using assms(2) by (auto simp: dom_def)
  finally show ?thesis using distinct_card [OF assms(1)] by simp
qed

lemma join_all:
  "map_of ps = (\<lambda>i. if i \<in> {0..<nchunks wire} then Some (chunk wire i) else None) \<Longrightarrow>
   join_parts ps (nchunks wire) = Some wire"
proof -
  assume m: "map_of ps = (\<lambda>i. if i \<in> {0..<nchunks wire} then Some (chunk wire i) else None)"
  have "those (map (\<lambda>i. Some (chunk wire i)) xs) = Some (map (chunk wire) xs)" for xs by (induction xs) auto
  moreover have "map (map_of ps) [0..<nchunks wire] = map (\<lambda>i. Some (chunk wire i)) [0..<nchunks wire]"
    using m by (intro map_cong) simp_all
  ultimately have "those (map (map_of ps) [0..<nchunks wire]) = Some (map (chunk wire) [0..<nchunks wire])"
    by metis
  then show ?thesis by (simp add: join_parts_def concat_all_chunks)
qed

lemma frag_of_fields [simp]: "fr_t (frag_of uid wire i) = TAG" "fr_id (frag_of uid wire i) = uid"
    "fr_i (frag_of uid wire i) = i" "fr_n (frag_of uid wire i) = nchunks wire" "fr_d (frag_of uid wire i) = chunk wire i"
  by (simp_all add: frag_of_def)

lemma entry_retain:
  assumes "entry_ok uid wire t0 R m" "now < t0 + REASSEMBLY_TTL_MS"
  shows "retain_fresh now m uid = m uid"
  using assms by (auto simp: entry_ok_def retain_fresh_def split: if_splits option.splits)

lemma reassemble_ours:
  assumes g: "entry_ok uid wire t0 R m" and t: "t0 \<le> now" "now < t0 + REASSEMBLY_TTL_MS"
    and d: "dec c = Some (frag_of uid wire i)" and i: "i < nchunks wire" "i \<notin> R"
    and n: "nchunks wire < 2 ^ 32"
  shows "if card R + 1 = nchunks wire
    then fst (reassemble dec now c m) = Some wire \<and> entry_ok uid wire t0 {} (snd (reassemble dec now c m))
    else fst (reassemble dec now c m) = None \<and> entry_ok uid wire t0 (insert i R) (snd (reassemble dec now c m))"
proof -
  define m1 where "m1 = retain_fresh now m"
  define p where "p = (case m1 uid of Some p \<Rightarrow> p
     | None \<Rightarrow> \<lparr>pt_n = nchunks wire, pt_parts = [], pt_first_ms = now\<rparr>)"
  define p' where "p' = p\<lparr>pt_parts := AList.update i (chunk wire i) (pt_parts p)\<rparr>"
  have R: "finite R" "R \<subseteq> {0..<nchunks wire}" using g by (auto simp: entry_ok_def intro: finite_subset)
  have "m1 uid = m uid" using entry_retain [OF g t(2)] by (simp add: m1_def)
  then have p: "pt_n p = nchunks wire \<and> t0 \<le> pt_first_ms p \<and> distinct (map fst (pt_parts p)) \<and>
      map_of (pt_parts p) = (\<lambda>i. if i \<in> R then Some (chunk wire i) else None)"
    using g t(1) by (auto simp: entry_ok_def p_def split: if_splits)
  then have p': "pt_n p' = nchunks wire" "t0 \<le> pt_first_ms p'" "distinct (map fst (pt_parts p'))"
      "map_of (pt_parts p') = (\<lambda>j. if j \<in> insert i R then Some (chunk wire j) else None)"
    by (auto simp: p'_def distinct_update update_conv')
  have len: "length (pt_parts p') = card R + 1"
    using parts_card [OF p'(3,4)] R(1) i(2) by simp
  have "insert i R \<subseteq> {0..<nchunks wire}" using R(2) i(1) by auto
  then have c: "card R + 1 \<le> nchunks wire" using card_mono [of "{0..<nchunks wire}" "insert i R"] R(1) i(2) by simp
  have "reassemble dec now c m = (if length (pt_parts p') mod 2 ^ 32 \<noteq> pt_n p' then (None, m1(uid \<mapsto> p'))
     else case join_parts (pt_parts p') (pt_n p') of None \<Rightarrow> (None, m1(uid \<mapsto> p'))
       | Some w \<Rightarrow> (Some w, m1(uid \<mapsto> p', uid := None)))"
    unfolding reassemble_def d option.case frag_of_fields Let_def m1_def p_def p'_def by simp
  then have r: "reassemble dec now c m = (if card R + 1 \<noteq> nchunks wire then (None, m1(uid \<mapsto> p'))
     else case join_parts (pt_parts p') (nchunks wire) of None \<Rightarrow> (None, m1(uid \<mapsto> p'))
       | Some w \<Rightarrow> (Some w, m1(uid \<mapsto> p', uid := None)))"
    using c n by (simp only: len p'(1)) simp
  show ?thesis
  proof (cases "card R + 1 = nchunks wire")
    case True
    have "insert i R = {0..<nchunks wire}"
      using card_subset_eq [of "{0..<nchunks wire}" "insert i R"] \<open>insert i R \<subseteq> _\<close> True R(1) i(2) by simp
    then have "join_parts (pt_parts p') (nchunks wire) = Some wire" using p'(4) by (intro join_all) simp
    then show ?thesis using True r by (simp add: entry_ok_def)
  next
    case False
    then show ?thesis using r p' \<open>insert i R \<subseteq> _\<close> by (simp add: entry_ok_def)
  qed
qed

definition ours :: "(string \<Rightarrow> fragment_rec option) \<Rightarrow> string \<Rightarrow> string \<Rightarrow> bool" where
  "ours dec uid c = (case dec c of Some f \<Rightarrow> fr_t f = TAG \<and> fr_id f = uid | None \<Rightarrow> False)"

lemma reassemble_other:
  assumes "entry_ok uid wire t0 R m" "now < t0 + REASSEMBLY_TTL_MS" "\<not> ours dec uid c"
  shows "entry_ok uid wire t0 R (snd (reassemble dec now c m))"
proof -
  have "snd (reassemble dec now c m) uid = m uid"
    using assms entry_retain [OF assms(1,2)]
    by (auto simp: reassemble_def ours_def Let_def split: option.splits)
  then show ?thesis using assms(1) by (simp add: entry_ok_def)
qed

text \<open>What a run answers to the contents that are fragments of the wire \<open>uid\<close>.\<close>

definition our_answers :: "(string \<Rightarrow> fragment_rec option) \<Rightarrow> string \<Rightarrow> (int \<times> string) list \<Rightarrow> frag_buf \<Rightarrow> string option list" where
  "our_answers dec uid es m =
     map snd (filter (\<lambda>(e, r). ours dec uid (snd e)) (zip es (fst (reassemble_run dec es m))))"

lemma our_answers_Cons:
  "reassemble dec t c m = (r, m1) \<Longrightarrow> our_answers dec uid ((t, c) # es) m =
   (if ours dec uid c then r # our_answers dec uid es m1 else our_answers dec uid es m1) \<and>
   snd (reassemble_run dec ((t, c) # es) m) = snd (reassemble_run dec es m1)"
  by (simp add: our_answers_def case_prod_beta Let_def)

lemma reassemble_run_others:
  "entry_ok uid wire t0 {} m \<Longrightarrow> \<forall>(t, c) \<in> set es. t < t0 + REASSEMBLY_TTL_MS \<and> \<not> ours dec uid c \<Longrightarrow>
   our_answers dec uid es m = [] \<and> snd (reassemble_run dec es m) uid = None"
proof (induction es arbitrary: m)
  case (Cons e es)
  obtain t c where e: "e = (t, c)" by force
  obtain r m1 where rm: "reassemble dec t c m = (r, m1)" by force
  have "entry_ok uid wire t0 {} m1"
    using reassemble_other [OF Cons.prems(1), of t dec c] Cons.prems(2) e rm by simp
  then show ?case using Cons.IH [of m1] Cons.prems(2) our_answers_Cons [OF rm] e by simp
qed (simp add: our_answers_def entry_ok_def)

text \<open>Our fragments arrive each once, in any order, between contents that are not ours.\<close>

lemma reassemble_run_ours:
  assumes laws: "\<And>f. dec (enc f) = Some f" and n: "nchunks wire < 2 ^ 32"
  shows "entry_ok uid wire t0 R m \<Longrightarrow> card R < nchunks wire \<Longrightarrow>
    \<forall>(t, c) \<in> set es. t0 \<le> t \<and> t < t0 + REASSEMBLY_TTL_MS \<Longrightarrow>
    mset (filter (ours dec uid) (map snd es)) =
      image_mset (\<lambda>i. enc (frag_of uid wire i)) (mset_set ({0..<nchunks wire} - R)) \<Longrightarrow>
    our_answers dec uid es m = replicate (nchunks wire - card R - 1) None @ [Some wire] \<and>
    snd (reassemble_run dec es m) uid = None"
proof (induction es arbitrary: R m)
  case Nil
  have "R \<subseteq> {0..<nchunks wire}" using Nil.prems(1) by (simp add: entry_ok_def)
  then have "{0..<nchunks wire} - R = {}" using Nil.prems(4) by (simp add: mset_set_empty_iff)
  then have "R = {0..<nchunks wire}" using \<open>R \<subseteq> _\<close> by blast
  then show ?case using Nil.prems(2) by simp
next
  case (Cons e es)
  obtain t c where e: "e = (t, c)" by force
  have t: "t0 \<le> t" "t < t0 + REASSEMBLY_TTL_MS" using Cons.prems(3) e by auto
  obtain r m1 where rm: "reassemble dec t c m = (r, m1)" by force
  note ans = our_answers_Cons [OF rm, of uid es]
  show ?case
  proof (cases "ours dec uid c")
    case False
    have g: "entry_ok uid wire t0 R m1"
      using reassemble_other [OF Cons.prems(1) t(2) False] rm by simp
    show ?thesis using Cons.IH [OF g Cons.prems(2)] Cons.prems(3,4) False ans e by simp
  next
    case True
    have "c \<in># mset (filter (ours dec uid) (map snd (e # es)))" using True e by simp
    then obtain i where i: "i < nchunks wire" "i \<notin> R" "c = enc (frag_of uid wire i)"
      unfolding Cons.prems(4) by auto
    have st: "if card R + 1 = nchunks wire then r = Some wire \<and> entry_ok uid wire t0 {} m1
       else r = None \<and> entry_ok uid wire t0 (insert i R) m1"
      using reassemble_ours [OF Cons.prems(1) t _ i(1,2) n, of dec c] laws [of "frag_of uid wire i"]
      unfolding i(3) [symmetric] rm fst_conv snd_conv by simp
    have "{0..<nchunks wire} - R = insert i ({0..<nchunks wire} - insert i R)" using i by auto
    then have "mset_set ({0..<nchunks wire} - R) = add_mset i (mset_set ({0..<nchunks wire} - insert i R))"
      by (metis Diff_iff finite_Diff finite_atLeastLessThan insertCI mset_set.insert)
    then have rest: "mset (filter (ours dec uid) (map snd es)) =
        image_mset (\<lambda>i. enc (frag_of uid wire i)) (mset_set ({0..<nchunks wire} - insert i R))"
      using Cons.prems(4) True e i(3) by simp
    have R: "R \<subseteq> {0..<nchunks wire}" "finite R"
      using Cons.prems(1) by (auto simp: entry_ok_def intro: finite_subset)
    show ?thesis
    proof (cases "card R + 1 = nchunks wire")
      case full: True
      have "insert i R = {0..<nchunks wire}"
        using card_subset_eq [of "{0..<nchunks wire}" "insert i R"] R i full by simp
      then have "filter (ours dec uid) (map snd es) = []" using rest by simp
      then have "\<forall>(t, c) \<in> set es. t < t0 + REASSEMBLY_TTL_MS \<and> \<not> ours dec uid c"
        using Cons.prems(3) by (fastforce simp: filter_empty_conv)
      then show ?thesis
        using reassemble_run_others [of uid wire t0 m1 es dec] st full ans True e by auto
    next
      case part: False
      have "card (insert i R) < nchunks wire" "nchunks wire - card R - 1 = Suc (nchunks wire - card (insert i R) - 1)"
        using part Cons.prems(2) R(2) i(2) by simp_all
      then show ?thesis
        using Cons.IH [of "insert i R" m1] st part rest Cons.prems(3) ans True e by simp
    qed
  qed
qed

section \<open>Properties\<close>

text \<open>C17. The fragments of an ASCII wire, received once each within the reassembly window, in any
  order and between any other traffic, give nothing until the last of them and then exactly
  the wire; the reassembly entry is gone afterwards.\<close>

theorem fragment_reassembly:
  assumes "\<And>f. dec (enc f) = Some f" and "ascii wire" "needs_fragment wire" "length wire < 2 ^ 32"
    and "fragment enc uid wire = Inr fs" and "m uid = None"
    and "\<forall>(t, c) \<in> set es. t0 \<le> t \<and> t < t0 + REASSEMBLY_TTL_MS"
    and "mset (filter (ours dec uid) (map snd es)) = mset fs"
  shows "our_answers dec uid es m = replicate (length fs - 1) None @ [Some wire] \<and>
    snd (reassemble_run dec es m) uid = None"
proof -
  have fs: "fs = map (\<lambda>i. enc (frag_of uid wire i)) [0..<nchunks wire]"
    using fragment_ascii [OF assms(2-4)] assms(5) by simp
  have n: "nchunks wire < 2 ^ 32" "0 < nchunks wire"
    using assms(3,4) by (auto simp: nchunks_def CHUNK_BYTES_def needs_fragment_def div_greater_zero_iff)
  have "mset [0..<nchunks wire] = mset_set {0..<nchunks wire}" by (simp add: mset_upt)
  then have "mset (filter (ours dec uid) (map snd es)) =
      image_mset (\<lambda>i. enc (frag_of uid wire i)) (mset_set ({0..<nchunks wire} - {}))"
    using assms(8) fs by simp
  moreover have "entry_ok uid wire t0 {} m" using assms(6) by (simp add: entry_ok_def)
  ultimately show ?thesis
    using reassemble_run_ours [of dec enc wire uid t0 "{}" m es, OF assms(1)] n assms(7) fs by simp
qed

text \<open>A fragment codec to apply the theorem with: unary lengths in front of the strings.\<close>

definition unary :: "nat \<Rightarrow> string" where
  "unary n = replicate n (CHR ''1'') @ ''0''"

definition un_unary :: "string \<Rightarrow> (nat \<times> string) option" where
  "un_unary s = (case dropWhile (\<lambda>c. c = CHR ''1'') s of [] \<Rightarrow> None
     | _ # r \<Rightarrow> Some (length (takeWhile (\<lambda>c. c = CHR ''1'') s), r))"

lemma un_unary [simp]: "un_unary (unary n @ r) = Some (n, r)"
proof -
  have "dropWhile (\<lambda>c. c = CHR ''1'') (unary n @ r) = CHR ''0'' # r"
      "takeWhile (\<lambda>c. c = CHR ''1'') (unary n @ r) = replicate n (CHR ''1'')"
    by (induction n) (auto simp: unary_def)
  then show ?thesis by (simp add: un_unary_def)
qed

definition sample_enc :: "fragment_rec \<Rightarrow> string" where
  "sample_enc f = unary (fr_i f) @ unary (fr_n f) @ unary (length (fr_t f)) @ unary (length (fr_id f)) @
     fr_t f @ fr_id f @ fr_d f"

definition sample_dec :: "string \<Rightarrow> fragment_rec option" where
  "sample_dec s = Option.bind (un_unary s) (\<lambda>(i, s1). Option.bind (un_unary s1) (\<lambda>(n, s2).
     Option.bind (un_unary s2) (\<lambda>(t, s3). Option.bind (un_unary s3) (\<lambda>(k, r).
     Some \<lparr>fr_t = take t r, fr_id = take k (drop t r), fr_i = i, fr_n = n, fr_d = drop (t + k) r\<rparr>))))"

lemma sample_codec: "sample_dec (sample_enc f) = Some f"
  by (simp add: sample_dec_def sample_enc_def)

theorem fragment_reassembly_witness:
  "\<exists>fs. fragment sample_enc ''u'' (replicate 3001 (CHR ''a'')) = Inr fs \<and> length fs = 2 \<and>
     our_answers sample_dec ''u'' (map (Pair 0) (rev fs)) Map.empty = [None, Some (replicate 3001 (CHR ''a''))]"
proof -
  let ?w = "replicate 3001 (CHR ''a'')"
  have w: "ascii ?w" "needs_fragment ?w" "length ?w < 2 ^ 32" "nchunks ?w = 2"
    by (simp_all add: ascii_def needs_fragment_def CHUNK_BYTES_def nchunks_def list_all_iff)
  define fs where "fs = map (\<lambda>i. sample_enc (frag_of ''u'' ?w i)) [0..<2]"
  have f: "fragment sample_enc ''u'' ?w = Inr fs" using fragment_ascii [OF w(1-3)] w(4) by (simp add: fs_def)
  have o: "ours sample_dec ''u'' c" if "c \<in> set fs" for c
    using that by (auto simp: fs_def ours_def sample_codec)
  have "filter (ours sample_dec ''u'') (map snd (map (Pair (0 :: int)) (rev fs))) = rev fs"
    using o by (simp add: comp_def filter_id_conv)
  then have "our_answers sample_dec ''u'' (map (Pair 0) (rev fs)) Map.empty = replicate (length fs - 1) None @ [Some ?w]"
    using fragment_reassembly [OF sample_codec w(1-3) f, of Map.empty "map (Pair 0) (rev fs)" 0]
    by (simp add: REASSEMBLY_TTL_MS_def image_iff)
  then show ?thesis using f by (auto simp: fs_def)
qed

end
