(* ===== verification/Outbox.thy ===== *)
theory Outbox
imports Frag Json
begin

text \<open>
  \<open>capsules/hey-core/src/api/outbox.rs\<close>: the queue of publishes that were not confirmed.

  The carrier and the storage service answer through the record \<open>net\<close>: the k-th publish of
  a call, the k-th question whether a topic has a peer, the k-th UUID, and whether the read
  and the write of the outbox file succeed. The file is \<open>None\<close> when absent or undecodable.
\<close>

definition OUTBOX_MAX_ITEMS :: nat where
  "OUTBOX_MAX_ITEMS = 1000"

definition ATTEMPTS_MAX :: nat where
  "ATTEMPTS_MAX = 12"

definition BACKOFF_INITIAL_MS :: int where
  "BACKOFF_INITIAL_MS = 5000"

definition BACKOFF_CAP_MS :: int where
  "BACKOFF_CAP_MS = 60 * 60 * 1000"

record outbox_item =
  ob_id :: string
  ob_topic :: string
  ob_sender_id :: string
  ob_ts :: int
  ob_wire :: string
  ob_retries :: nat
  ob_next_attempt_ms :: int
  ob_boot :: "string list"

record net =
  nt_uuid :: "nat \<Rightarrow> string"
  nt_frag_enc :: "fragment_rec \<Rightarrow> string"
  nt_publish :: "nat \<Rightarrow> string \<Rightarrow> string \<Rightarrow> json res"
  nt_has_peer :: "nat \<Rightarrow> string \<Rightarrow> bool"
  nt_read_ok :: bool
  nt_write_ok :: bool

type_synonym outbox_file = "outbox_item list option"

section \<open>Publishing\<close>

definition says_local_only :: "json \<Rightarrow> bool" where
  "says_local_only v =
     (Option.bind (case j_get ''broadcast'' v of Some b \<Rightarrow> Some b
        | None \<Rightarrow> Option.bind (j_get ''data'' v) (j_get ''broadcast'')) j_str = Some ''local_only'')"

fun publish_frags :: "net \<Rightarrow> nat \<Rightarrow> string \<Rightarrow> string list \<Rightarrow> bool \<times> nat" where
  "publish_frags N k topic [] = (True, k)"
| "publish_frags N k topic (f # fs) = (case nt_publish N k topic f of
     Inr v \<Rightarrow> if says_local_only v then (False, k + 1) else publish_frags N (k + 1) topic fs
   | Inl _ \<Rightarrow> (False, k + 1))"

definition publish_wire :: "net \<Rightarrow> nat \<Rightarrow> string \<Rightarrow> string \<Rightarrow> (bool \<times> nat) res" where
  "publish_wire N k topic wire =
     bindR (fragment (nt_frag_enc N) (nt_uuid N k) wire) (\<lambda>fs. Inr (publish_frags N k topic fs))"

text \<open>Saturating arithmetic of \<open>i64\<close>.\<close>

definition i64_max :: int where
  "i64_max = 2 ^ 63 - 1"

definition backoff_for :: "nat \<Rightarrow> int" where
  "backoff_for retries = min (min (BACKOFF_INITIAL_MS * min (2 ^ retries) i64_max) i64_max) BACKOFF_CAP_MS"

definition expect_remote :: "string list \<Rightarrow> bool" where
  "expect_remote boot = list_ex (\<lambda>t. t \<noteq> []) boot"

section \<open>The queue\<close>

definition read_items :: "net \<Rightarrow> outbox_file \<Rightarrow> outbox_item list" where
  "read_items N f = (if nt_read_ok N then (case f of Some l \<Rightarrow> l | None \<Rightarrow> []) else [])"

definition write_items :: "net \<Rightarrow> outbox_item list \<Rightarrow> outbox_file \<Rightarrow> outbox_file" where
  "write_items N items f = (if nt_write_ok N then Some items else f)"

definition enqueue :: "net \<Rightarrow> nat \<Rightarrow> int \<Rightarrow> string \<Rightarrow> string list \<Rightarrow> string \<Rightarrow> string \<Rightarrow> outbox_file \<Rightarrow> outbox_file" where
  "enqueue N k now topic boot sender_id wire f =
     (let items = read_items N f;
          items1 = (if length items \<ge> OUTBOX_MAX_ITEMS then drop 1 items else items);
          item = \<lparr>ob_id = nt_uuid N k, ob_topic = topic, ob_sender_id = sender_id, ob_ts = now,
                  ob_wire = wire, ob_retries = 0, ob_next_attempt_ms = now, ob_boot = boot\<rparr>
      in write_items N (items1 @ [item]) f)"

definition publish_or_enqueue ::
    "net \<Rightarrow> int \<Rightarrow> string \<Rightarrow> string list \<Rightarrow> string \<Rightarrow> string \<Rightarrow> outbox_file \<Rightarrow> (bool \<times> outbox_file) res" where
  "publish_or_enqueue N now topic boot sender_id wire f =
     bindR (publish_wire N 0 topic wire) (\<lambda>(ok_send, k).
     let delivered = (ok_send \<and> (\<not> expect_remote boot \<or> nt_has_peer N k topic))
     in if delivered then Inr (True, f)
        else Inr (False, enqueue N (k + 1) now topic boot sender_id wire f))"

fun flush_items :: "net \<Rightarrow> int \<Rightarrow> nat \<Rightarrow> outbox_item list \<Rightarrow> (outbox_item list \<times> bool) res" where
  "flush_items N now k [] = Inr ([], False)"
| "flush_items N now k (item # rest) =
     (if ob_next_attempt_ms item > now
      then bindR (flush_items N now k rest) (\<lambda>(nx, ch). Inr (item # nx, ch))
      else bindR (publish_wire N k (ob_topic item) (ob_wire item)) (\<lambda>(ok_send, k1).
        if ok_send \<and> (\<not> expect_remote (ob_boot item) \<or> nt_has_peer N k1 (ob_topic item))
        then bindR (flush_items N now (k1 + 1) rest) (\<lambda>(nx, _). Inr (nx, True))
        else let retries = ob_retries item + 1 in
          if retries \<ge> ATTEMPTS_MAX
          then bindR (flush_items N now (k1 + 1) rest) (\<lambda>(nx, _). Inr (nx, True))
          else bindR (flush_items N now (k1 + 1) rest) (\<lambda>(nx, _).
            Inr (item\<lparr>ob_retries := retries, ob_next_attempt_ms := now + backoff_for retries\<rparr> # nx, True))))"

definition flush :: "net \<Rightarrow> int \<Rightarrow> outbox_file \<Rightarrow> outbox_file res" where
  "flush N now f = (let items = read_items N f in
     if items = [] then Inr f
     else bindR (flush_items N now 0 items) (\<lambda>(nx, changed).
       Inr (if changed then write_items N nx f else f)))"

definition pending_count :: "net \<Rightarrow> outbox_file \<Rightarrow> nat" where
  "pending_count N f = length (read_items N f)"

definition outbox_clear :: "net \<Rightarrow> outbox_file \<Rightarrow> outbox_file" where
  "outbox_clear N f = (if nt_write_ok N then None else f)"

definition purge_topic :: "net \<Rightarrow> string \<Rightarrow> outbox_file \<Rightarrow> outbox_file" where
  "purge_topic N topic f = write_items N (filter (\<lambda>i. ob_topic i \<noteq> topic) (read_items N f)) f"

section \<open>Lemmas\<close>

lemma backoff_eq: "backoff_for r = (if r \<le> 9 then 5000 * 2 ^ r else BACKOFF_CAP_MS)"
proof (cases "r \<le> 9")
  case True
  then have "(2 :: int) ^ r \<le> 2 ^ 9" by (intro power_increasing) auto
  then show ?thesis using True
    by (simp add: backoff_for_def BACKOFF_INITIAL_MS_def BACKOFF_CAP_MS_def i64_max_def min_def)
next
  case False
  then have "(2 :: int) ^ 10 \<le> 2 ^ r" by (intro power_increasing) auto
  then show ?thesis using False
    by (simp add: backoff_for_def BACKOFF_INITIAL_MS_def BACKOFF_CAP_MS_def i64_max_def min_def)
qed

text \<open>What a flush may decide for an item.\<close>

datatype verdict = Later | Delivered | Retried | Exhausted

fun verdict_ok :: "int \<Rightarrow> outbox_item \<Rightarrow> verdict \<Rightarrow> bool" where
  "verdict_ok now item Later = (now < ob_next_attempt_ms item)"
| "verdict_ok now item Delivered = (ob_next_attempt_ms item \<le> now)"
| "verdict_ok now item Retried = (ob_next_attempt_ms item \<le> now \<and> ob_retries item + 1 < ATTEMPTS_MAX)"
| "verdict_ok now item Exhausted = (ob_next_attempt_ms item \<le> now \<and> ATTEMPTS_MAX \<le> ob_retries item + 1)"

fun after_verdict :: "int \<Rightarrow> outbox_item \<times> verdict \<Rightarrow> outbox_item list" where
  "after_verdict now (item, Later) = [item]"
| "after_verdict now (item, Delivered) = []"
| "after_verdict now (item, Retried) = [item\<lparr>ob_retries := ob_retries item + 1,
     ob_next_attempt_ms := now + backoff_for (ob_retries item + 1)\<rparr>]"
| "after_verdict now (item, Exhausted) = []"

lemma flush_items_spec:
  "flush_items N now k items = Inr (nx, ch) \<Longrightarrow>
   \<exists>vs. length vs = length items \<and> list_all2 (verdict_ok now) items vs \<and>
     nx = concat (map (after_verdict now) (zip items vs)) \<and> (ch \<longleftrightarrow> (\<exists>v \<in> set vs. v \<noteq> Later))"
proof (induction items arbitrary: k nx ch)
  case (Cons item rest)
  have pick: "\<exists>vs. length vs = length (item # rest) \<and> list_all2 (verdict_ok now) (item # rest) vs \<and>
     nx = concat (map (after_verdict now) (zip (item # rest) vs)) \<and> (ch \<longleftrightarrow> (\<exists>v \<in> set vs. v \<noteq> Later))"
    if h: "flush_items N now k' rest = Inr (nx', ch')" "verdict_ok now item v"
      "nx = after_verdict now (item, v) @ nx'" "ch \<longleftrightarrow> (ch' \<or> v \<noteq> Later)" for k' nx' ch' v
  proof -
    obtain vs where "length vs = length rest" "list_all2 (verdict_ok now) rest vs"
        "nx' = concat (map (after_verdict now) (zip rest vs))" "ch' \<longleftrightarrow> (\<exists>v \<in> set vs. v \<noteq> Later)"
      using Cons.IH [OF h(1)] by blast
    then show ?thesis using h by (intro exI [of _ "v # vs"]) auto
  qed
  show ?case
  proof (cases "ob_next_attempt_ms item > now")
    case True
    then show ?thesis using Cons.prems pick [of k _ _ Later] by (auto simp: res_inv)
  next
    case False
    then obtain ok k1 where p: "publish_wire N k (ob_topic item) (ob_wire item) = Inr (ok, k1)"
      using Cons.prems by (auto simp: res_inv)
    show ?thesis
    proof (cases "ok \<and> (\<not> expect_remote (ob_boot item) \<or> nt_has_peer N k1 (ob_topic item))")
      case True
      then show ?thesis using Cons.prems p False pick [of "k1 + 1" _ _ Delivered]
        by (auto simp: res_inv not_less)
    next
      case nd: False
      show ?thesis
      proof (cases "ATTEMPTS_MAX \<le> ob_retries item + 1")
        case True
        then show ?thesis using Cons.prems p False nd pick [of "k1 + 1" _ _ Exhausted]
          by (auto simp: res_inv Let_def not_less)
      next
        case ar: False
        then show ?thesis using Cons.prems p False nd pick [of "k1 + 1" _ _ Retried]
          by (auto simp: res_inv Let_def not_less)
      qed
    qed
  qed
qed simp

definition outbox_ok :: "outbox_file \<Rightarrow> bool" where
  "outbox_ok f = (case f of None \<Rightarrow> True
     | Some items \<Rightarrow> length items \<le> OUTBOX_MAX_ITEMS \<and> (\<forall>i \<in> set items. ob_retries i < ATTEMPTS_MAX))"

inductive outbox_step :: "outbox_file \<Rightarrow> outbox_file \<Rightarrow> bool" where
  enqueue: "outbox_step f (enqueue N k now topic boot sender wire f)"
| flush: "flush N now f = Inr f' \<Longrightarrow> outbox_step f f'"
| clear: "outbox_step f (outbox_clear N f)"
| purge: "outbox_step f (purge_topic N topic f)"

lemma outbox_ok_read: "outbox_ok f \<Longrightarrow> length (read_items N f) \<le> OUTBOX_MAX_ITEMS \<and>
    (\<forall>i \<in> set (read_items N f). ob_retries i < ATTEMPTS_MAX)"
  unfolding outbox_ok_def read_items_def by (cases f; cases "nt_read_ok N") simp_all

lemma outbox_ok_write: "outbox_ok f \<Longrightarrow> length items \<le> OUTBOX_MAX_ITEMS \<Longrightarrow>
    \<forall>i \<in> set items. ob_retries i < ATTEMPTS_MAX \<Longrightarrow> outbox_ok (write_items N items f)"
  by (simp add: outbox_ok_def write_items_def)

lemma after_verdict_length: "length (after_verdict now (i, v)) \<le> 1"
  by (cases v) auto

lemma after_verdict_retries:
  "verdict_ok now i v \<Longrightarrow> ob_retries i < ATTEMPTS_MAX \<Longrightarrow> j \<in> set (after_verdict now (i, v)) \<Longrightarrow> ob_retries j < ATTEMPTS_MAX"
  by (cases v) auto

lemma verdicts_ok:
  "list_all2 (verdict_ok now) items vs \<Longrightarrow> \<forall>i \<in> set items. ob_retries i < ATTEMPTS_MAX \<Longrightarrow>
   length (concat (map (after_verdict now) (zip items vs))) \<le> length items \<and>
   (\<forall>j \<in> set (concat (map (after_verdict now) (zip items vs))). ob_retries j < ATTEMPTS_MAX)"
proof (induction rule: list_all2_induct)
  case (Cons i items v vs)
  then show ?case using after_verdict_length [of now i v] after_verdict_retries [of now i v]
    by (auto simp del: after_verdict.simps)
qed simp

lemma outbox_step_ok:
  assumes "outbox_ok f" "outbox_step f f'"
  shows "outbox_ok f'"
  using assms(2)
proof (cases rule: outbox_step.cases)
  case (enqueue N k now topic boot sender wire)
  let ?r = "read_items N f"
  have "length (if length ?r \<ge> OUTBOX_MAX_ITEMS then drop 1 ?r else ?r) < OUTBOX_MAX_ITEMS"
    using outbox_ok_read [OF assms(1), of N] by (auto simp: OUTBOX_MAX_ITEMS_def)
  moreover have "\<forall>i \<in> set (if length ?r \<ge> OUTBOX_MAX_ITEMS then drop 1 ?r else ?r). ob_retries i < ATTEMPTS_MAX"
    using outbox_ok_read [OF assms(1), of N] by (auto dest: in_set_dropD)
  ultimately show ?thesis unfolding enqueue enqueue_def Let_def
    by (intro outbox_ok_write [OF assms(1)]) (auto simp: ATTEMPTS_MAX_def)
next
  case (flush N now)
  show ?thesis
  proof (cases "f' = f")
    case False
    then obtain nx where nx: "flush_items N now 0 (read_items N f) = Inr (nx, True)" "f' = write_items N nx f"
      using flush by (auto simp: flush_def Let_def res_inv split: if_splits)
    then obtain vs where vs: "list_all2 (verdict_ok now) (read_items N f) vs"
        "nx = concat (map (after_verdict now) (zip (read_items N f) vs))"
      using flush_items_spec by blast
    show ?thesis unfolding nx(2) using verdicts_ok [OF vs(1)] outbox_ok_read [OF assms(1), of N] vs(2)
      by (intro outbox_ok_write [OF assms(1)]) auto
  qed (use assms(1) in simp)
next
  case (clear N)
  then show ?thesis using assms(1) by (auto simp: outbox_clear_def outbox_ok_def)
next
  case (purge N topic)
  then show ?thesis unfolding purge purge_topic_def using outbox_ok_read [OF assms(1), of N]
    by (intro outbox_ok_write [OF assms(1)]) (auto intro: order.trans [OF length_filter_le])
qed

interpretation outbox: invariant_system outbox_ok outbox_step
  by unfold_locales (rule outbox_step_ok)

text \<open>A queue with one item whose topic never has a peer: each due flush costs it one attempt.\<close>

definition no_delivery :: "net \<Rightarrow> outbox_item \<Rightarrow> bool" where
  "no_delivery N i = (nt_read_ok N \<and> nt_write_ok N \<and> ascii (ob_wire i) \<and> length (ob_wire i) < 2 ^ 32 \<and>
     expect_remote (ob_boot i) \<and> (\<forall>k. \<not> nt_has_peer N k (ob_topic i)))"

lemma fragment_ascii_ok: "ascii wire \<Longrightarrow> length wire < 2 ^ 32 \<Longrightarrow> \<exists>fs. fragment enc uid wire = Inr fs"
  using fragment_ascii by (cases "needs_fragment wire") (auto simp: fragment_def)

lemma flush_undelivered:
  assumes "no_delivery N i" "ob_next_attempt_ms i \<le> now"
  shows "flush N now (Some [i]) = Inr (Some (if ATTEMPTS_MAX \<le> ob_retries i + 1 then []
    else [i\<lparr>ob_retries := ob_retries i + 1, ob_next_attempt_ms := now + backoff_for (ob_retries i + 1)\<rparr>]))"
proof -
  obtain fs where fs: "fragment (nt_frag_enc N) (nt_uuid N 0) (ob_wire i) = Inr fs"
    using fragment_ascii_ok assms(1) by (metis no_delivery_def)
  obtain ok k where "publish_frags N 0 (ob_topic i) fs = (ok, k)" by force
  then show ?thesis using assms fs
    by (auto simp: flush_def no_delivery_def read_items_def write_items_def publish_wire_def Let_def)
qed

fun flushes :: "net \<Rightarrow> int list \<Rightarrow> outbox_file \<Rightarrow> outbox_file res" where
  "flushes N [] f = Inr f"
| "flushes N (t # ts) f = bindR (flush N t f) (flushes N ts)"

lemma flushes_undelivered:
  "no_delivery N i \<Longrightarrow> ob_retries i < ATTEMPTS_MAX \<Longrightarrow> length ts = ATTEMPTS_MAX - ob_retries i \<Longrightarrow>
   sorted_wrt (\<lambda>s t. s + BACKOFF_CAP_MS \<le> t) ts \<Longrightarrow> ob_next_attempt_ms i \<le> hd ts \<Longrightarrow>
   flushes N ts (Some [i]) = Inr (Some [])"
proof (induction ts arbitrary: i)
  case (Cons t ts)
  let ?i = "i\<lparr>ob_retries := ob_retries i + 1, ob_next_attempt_ms := t + backoff_for (ob_retries i + 1)\<rparr>"
  have f: "flush N t (Some [i]) = Inr (Some (if ATTEMPTS_MAX \<le> ob_retries i + 1 then [] else [?i]))"
    using flush_undelivered Cons.prems by simp
  show ?case
  proof (cases "ATTEMPTS_MAX \<le> ob_retries i + 1")
    case True
    moreover from this have "ts = []" using Cons.prems(3) by (cases ts) auto
    ultimately show ?thesis using f by simp
  next
    case False
    then have "ts \<noteq> []" using Cons.prems(2,3) by auto
    moreover have "backoff_for (ob_retries i + 1) \<le> BACKOFF_CAP_MS" by (simp add: backoff_for_def)
    ultimately have "flushes N ts (Some [?i]) = Inr (Some [])"
      using Cons.prems False by (intro Cons.IH) (auto simp: no_delivery_def neq_Nil_conv)
    then show ?thesis using f False by simp
  qed
qed simp

lemma publish_frags_True:
  "publish_frags N k topic fs = (True, k') \<Longrightarrow> k' = k + length fs \<and>
   (\<forall>j < length fs. \<exists>v. nt_publish N (k + j) topic (fs ! j) = Inr v \<and> \<not> says_local_only v)"
proof (induction fs arbitrary: k)
  case (Cons f fs)
  then obtain v where v: "nt_publish N k topic f = Inr v" "\<not> says_local_only v"
      "publish_frags N (k + 1) topic fs = (True, k')"
    by (auto split: sum.splits if_splits)
  have "k' = k + 1 + length fs \<and>
     (\<forall>j < length fs. \<exists>v. nt_publish N (k + 1 + j) topic (fs ! j) = Inr v \<and> \<not> says_local_only v)"
    using Cons.IH [OF v(3)] by simp
  then show ?case using v(1,2) by (auto simp: nth_Cons split: nat.splits)
qed simp

section \<open>Properties\<close>

text \<open>C18. A publish is reported as delivered only when every fragment of the wire was accepted
  by the carrier, none of them locally only, and, where a remote peer is expected, the topic
  has one; otherwise the wire is the newest item of the queue, unless storage refused it.\<close>

theorem publish_never_lost:
  assumes "publish_or_enqueue N now topic boot sender wire f = Inr (confirmed, f')"
  shows "if confirmed
    then f' = f \<and> (\<exists>fs. fragment (nt_frag_enc N) (nt_uuid N 0) wire = Inr fs \<and>
      (\<forall>j < length fs. \<exists>v. nt_publish N j topic (fs ! j) = Inr v \<and> \<not> says_local_only v) \<and>
      (expect_remote boot \<longrightarrow> nt_has_peer N (length fs) topic))
    else nt_write_ok N \<longrightarrow> (\<exists>items item. f' = Some (items @ [item]) \<and> ob_wire item = wire \<and>
      ob_topic item = topic \<and> ob_boot item = boot \<and> ob_retries item = 0 \<and> ob_next_attempt_ms item = now)"
proof -
  obtain fs where fs: "fragment (nt_frag_enc N) (nt_uuid N 0) wire = Inr fs"
    using assms by (auto simp: publish_or_enqueue_def publish_wire_def res_inv)
  obtain ok k where p: "publish_frags N 0 topic fs = (ok, k)" by force
  have pw: "publish_or_enqueue N now topic boot sender wire f =
      (if ok \<and> (\<not> expect_remote boot \<or> nt_has_peer N k topic) then Inr (True, f)
       else Inr (False, enqueue N (k + 1) now topic boot sender wire f))"
    by (simp add: publish_or_enqueue_def publish_wire_def fs p Let_def)
  show ?thesis
  proof (cases confirmed)
    case True
    then have "ok" "\<not> expect_remote boot \<or> nt_has_peer N k topic" "f' = f"
      using assms pw by (auto split: if_splits)
    then show ?thesis using True fs p publish_frags_True [of N 0 topic fs k] by auto
  next
    case False
    then have "f' = enqueue N (k + 1) now topic boot sender wire f"
      using assms pw by (auto split: if_splits)
    then show ?thesis using False by (simp add: enqueue_def write_items_def Let_def)
  qed
qed

text \<open>Every state of the queue that enqueues, flushes, purges and clears lead to holds at most
  a thousand items, none of which has used up its attempts.\<close>

theorem outbox_bounded:
  assumes "outbox_step\<^sup>*\<^sup>* f f'" "outbox_ok f"
  shows "outbox_ok f'"
  by (rule outbox.run_inv [OF assms])


text \<open>C20. An item that can never be delivered leaves the queue after twelve flushes that are an
  hour apart.\<close>

theorem outbox_gives_up:
  assumes "no_delivery N i" "ob_retries i < ATTEMPTS_MAX" "length ts = ATTEMPTS_MAX - ob_retries i"
    and "sorted_wrt (\<lambda>s t. s + BACKOFF_CAP_MS \<le> t) ts" "ob_next_attempt_ms i \<le> hd ts"
  shows "flushes N ts (Some [i]) = Inr (Some [])"
  by (rule flushes_undelivered [OF assms])

definition sample_net :: net where
  "sample_net = \<lparr>nt_uuid = (\<lambda>k. ''u''), nt_frag_enc = sample_enc, nt_publish = (\<lambda>k t m. Inr JNull),
     nt_has_peer = (\<lambda>k t. t = ''up''), nt_read_ok = True, nt_write_ok = True\<rparr>"

definition sample_item :: "string \<Rightarrow> outbox_item" where
  "sample_item topic = \<lparr>ob_id = ''i'', ob_topic = topic, ob_sender_id = ''s'', ob_ts = 0, ob_wire = ''w'',
     ob_retries = 0, ob_next_attempt_ms = 0, ob_boot = [''n'']\<rparr>"

theorem publish_never_lost_witness:
  "publish_or_enqueue sample_net 7 ''down'' [''n''] ''s'' ''w'' None =
     Inr (False, Some [(sample_item ''down'')\<lparr>ob_id := ''u'', ob_ts := 7, ob_next_attempt_ms := 7\<rparr>]) \<and>
   publish_or_enqueue sample_net 7 ''up'' [''n''] ''s'' ''w'' None = Inr (True, None) \<and>
   nt_has_peer sample_net 1 ''up''"
proof -
  have a: "publish_or_enqueue sample_net 7 ''down'' [''n''] ''s'' ''w'' None =
     Inr (False, Some [(sample_item ''down'')\<lparr>ob_id := ''u'', ob_ts := 7, ob_next_attempt_ms := 7\<rparr>])"
    by code_simp
  have b: "publish_or_enqueue sample_net 7 ''up'' [''n''] ''s'' ''w'' None = Inr (True, None)" by code_simp
  have "fragment (nt_frag_enc sample_net) (nt_uuid sample_net 0) ''w'' = Inr [''w'']"
    by (simp add: fragment_def needs_fragment_def CHUNK_BYTES_def)
  then have "nt_has_peer sample_net 1 ''up''"
    using publish_never_lost [OF b] by (auto simp: expect_remote_def)
  then show ?thesis using a b by blast
qed

theorem outbox_bounded_witness: "outbox_ok (enqueue sample_net 0 7 ''down'' [] ''s'' ''w'' None)"
proof (rule outbox_bounded)
  show "outbox_step\<^sup>*\<^sup>* None (enqueue sample_net 0 7 ''down'' [] ''s'' ''w'' None)"
    by (intro r_into_rtranclp outbox_step.enqueue)
qed (simp add: outbox_ok_def)


theorem outbox_gives_up_witness:
  "flushes sample_net (map (\<lambda>k. int k * BACKOFF_CAP_MS) [0..<12]) (Some [sample_item ''down'']) = Inr (Some [])"
proof (rule outbox_gives_up)
  show "sorted_wrt (\<lambda>s t. s + BACKOFF_CAP_MS \<le> t) (map (\<lambda>k. int k * BACKOFF_CAP_MS) [0..<12])"
    by (simp add: eval_nat_numeral BACKOFF_CAP_MS_def)
qed (simp_all add: no_delivery_def sample_net_def sample_item_def ascii_def expect_remote_def ATTEMPTS_MAX_def upt_rec)

end
