(* ===== verification/Cid_Cache.thy ===== *)
theory Cid_Cache
imports Interfaces
begin

text \<open>
  The cache of content by CID in \<open>capsules/hey-core/src/runtime.rs\<close> (\<open>content::CidCache\<close>): a
  map, the insertion order and the byte total, bounded by evicting the oldest entries. The
  map is association by key; the subtraction of the total cannot underflow, as shown below.
\<close>

definition CID_CACHE_MAX_ENTRIES :: nat where "CID_CACHE_MAX_ENTRIES = 512"
definition CID_CACHE_MAX_BYTES :: nat where "CID_CACHE_MAX_BYTES = 8 * 1024 * 1024"
definition CID_CACHE_MAX_ENTRY_BYTES :: nat where "CID_CACHE_MAX_ENTRY_BYTES = 1024 * 1024"

record cid_cache =
  cc_map :: "string \<Rightarrow> bytes option"
  cc_order :: "string list"
  cc_total :: nat

definition empty_cache :: cid_cache where
  "empty_cache = \<lparr>cc_map = (\<lambda>_. None), cc_order = [], cc_total = 0\<rparr>"

definition cache_get :: "cid_cache \<Rightarrow> string \<Rightarrow> bytes option" where
  "cache_get c k = cc_map c k"

text \<open>The loop that pops the oldest entries while the new one does not fit.\<close>

fun evict :: "nat \<Rightarrow> (string \<Rightarrow> bytes option) \<Rightarrow> string list \<Rightarrow> nat \<Rightarrow> cid_cache" where
  "evict n m [] tot = \<lparr>cc_map = m, cc_order = [], cc_total = tot\<rparr>"
| "evict n m (k # ks) tot =
     (if length (k # ks) \<ge> CID_CACHE_MAX_ENTRIES \<or> tot + n > CID_CACHE_MAX_BYTES
      then (case m k of Some v \<Rightarrow> evict n (m(k := None)) ks (tot - length v) | None \<Rightarrow> evict n m ks tot)
      else \<lparr>cc_map = m, cc_order = k # ks, cc_total = tot\<rparr>)"

definition cache_put :: "cid_cache \<Rightarrow> string \<Rightarrow> bytes \<Rightarrow> cid_cache" where
  "cache_put c k b = (if length b > CID_CACHE_MAX_ENTRY_BYTES \<or> cc_map c k \<noteq> None then c
     else let e = evict (length b) (cc_map c) (cc_order c) (cc_total c)
          in \<lparr>cc_map = (cc_map e)(k \<mapsto> b), cc_order = cc_order e @ [k], cc_total = cc_total e + length b\<rparr>)"

text \<open>The unit separator joins a CID and a path.\<close>

definition cache_key :: "string \<Rightarrow> string option \<Rightarrow> string" where
  "cache_key cid path = (case path of Some p \<Rightarrow> cid @ [char_of (31 :: nat)] @ p | None \<Rightarrow> cid)"

section \<open>Well-formed caches\<close>

definition cache_total :: "(string \<Rightarrow> bytes option) \<Rightarrow> string list \<Rightarrow> nat" where
  "cache_total m ks = sum_list (map (\<lambda>k. case m k of Some v \<Rightarrow> length v | None \<Rightarrow> 0) ks)"

definition cache_shape :: "cid_cache \<Rightarrow> bool" where
  "cache_shape c = (distinct (cc_order c) \<and> dom (cc_map c) = set (cc_order c) \<and>
     cc_total c = cache_total (cc_map c) (cc_order c))"

definition cache_wf :: "cid_cache \<Rightarrow> bool" where
  "cache_wf c = (cache_shape c \<and> length (cc_order c) \<le> CID_CACHE_MAX_ENTRIES \<and> cc_total c \<le> CID_CACHE_MAX_BYTES)"

lemma cache_total_other: "k \<notin> set ks \<Longrightarrow> cache_total (m(k := x)) ks = cache_total m ks"
  by (induction ks) (auto simp: cache_total_def)

lemma cache_total_snoc: "k \<notin> set ks \<Longrightarrow> cache_total (m(k \<mapsto> b)) (ks @ [k]) = cache_total m ks + length b"
  using cache_total_other [of k ks m "Some b"] by (simp add: cache_total_def)

lemma evict_shape:
  "cache_shape \<lparr>cc_map = m, cc_order = ks, cc_total = tot\<rparr> \<Longrightarrow> cache_shape (evict n m ks tot) \<and>
     (length (cc_order (evict n m ks tot)) < CID_CACHE_MAX_ENTRIES) \<and>
     (cc_order (evict n m ks tot) = [] \<or> cc_total (evict n m ks tot) + n \<le> CID_CACHE_MAX_BYTES) \<and>
     (\<forall>k v. cc_map (evict n m ks tot) k = Some v \<longrightarrow> m k = Some v)"
proof (induction ks arbitrary: m tot)
  case Nil
  then show ?case by (simp add: CID_CACHE_MAX_ENTRIES_def)
next
  case (Cons k ks)
  show ?case
  proof (cases "length (k # ks) \<ge> CID_CACHE_MAX_ENTRIES \<or> tot + n > CID_CACHE_MAX_BYTES")
    case False
    then show ?thesis using Cons.prems by (simp add: not_le)
  next
    case True
    have k: "k \<notin> set ks" "k \<in> dom m" using Cons.prems by (auto simp: cache_shape_def)
    then obtain v where v: "m k = Some v" by auto
    have s: "cache_shape \<lparr>cc_map = m(k := None), cc_order = ks, cc_total = tot - length v\<rparr>"
      using Cons.prems k v by (auto simp: cache_shape_def cache_total_other) (simp_all add: cache_total_def)
    have "evict n m (k # ks) tot = evict n (m(k := None)) ks (tot - length v)" using True v by simp
    have sub: "(m(k := None)) j = Some w \<Longrightarrow> m j = Some w" for j w by (auto split: if_splits)
    show ?thesis unfolding \<open>evict n m (k # ks) tot = _\<close> using Cons.IH [OF s] sub by blast
  qed
qed

lemma cache_total_empty: "cache_shape c \<Longrightarrow> cc_order c = [] \<Longrightarrow> cc_total c = 0"
  by (simp add: cache_shape_def cache_total_def)

lemma cache_put_wf:
  assumes "cache_wf c"
  shows "cache_wf (cache_put c k b)"
proof (cases "length b > CID_CACHE_MAX_ENTRY_BYTES \<or> cc_map c k \<noteq> None")
  case True
  then show ?thesis using assms unfolding cache_put_def by simp
next
  case False
  define e where "e = evict (length b) (cc_map c) (cc_order c) (cc_total c)"
  have "cache_shape \<lparr>cc_map = cc_map c, cc_order = cc_order c, cc_total = cc_total c\<rparr>"
    using assms by (simp add: cache_wf_def cache_shape_def)
  from evict_shape [OF this, of "length b", folded e_def]
  have e: "cache_shape e" "length (cc_order e) < CID_CACHE_MAX_ENTRIES"
      "cc_order e = [] \<or> cc_total e + length b \<le> CID_CACHE_MAX_BYTES" "\<forall>j v. cc_map e j = Some v \<longrightarrow> cc_map c j = Some v"
    by blast+
  have "cc_map e k = None" using e(4) False by (metis not_None_eq)
  then have "k \<notin> set (cc_order e)" using e(1) by (metis cache_shape_def domIff)
  moreover have "cc_total e + length b \<le> CID_CACHE_MAX_BYTES"
    using e(1,3) cache_total_empty [of e] False by (auto simp: CID_CACHE_MAX_ENTRY_BYTES_def CID_CACHE_MAX_BYTES_def)
  ultimately have "cache_wf \<lparr>cc_map = (cc_map e)(k \<mapsto> b), cc_order = cc_order e @ [k], cc_total = cc_total e + length b\<rparr>"
    using e by (auto simp: cache_wf_def cache_shape_def cache_total_snoc)
  moreover have "cache_put c k b = \<lparr>cc_map = (cc_map e)(k \<mapsto> b), cc_order = cc_order e @ [k], cc_total = cc_total e + length b\<rparr>"
    unfolding cache_put_def e_def Let_def using False by simp
  ultimately show ?thesis by simp
qed

lemma cache_put_get:
  assumes "cache_wf c" "cache_get (cache_put c k b) j = Some v"
  shows "cache_get c j = Some v \<or> (j = k \<and> v = b)"
proof -
  have "cache_shape \<lparr>cc_map = cc_map c, cc_order = cc_order c, cc_total = cc_total c\<rparr>"
    using assms(1) by (simp add: cache_wf_def cache_shape_def)
  from evict_shape [OF this, of "length b"] show ?thesis using assms(2)
    by (auto simp: cache_get_def cache_put_def Let_def split: if_splits)
qed

inductive cache_step :: "cid_cache \<Rightarrow> cid_cache \<Rightarrow> bool" where
  "cache_step c (cache_put c k b)"

inductive_cases cache_stepE: "cache_step c c'"

interpretation cache: invariant_system cache_wf cache_step
  by unfold_locales (auto elim!: cache_stepE intro: cache_put_wf)

lemma empty_cache_wf: "cache_wf empty_cache"
  by (simp add: cache_wf_def cache_shape_def empty_cache_def cache_total_def)

lemma cache_put_all:
  "cache_wf (foldl (\<lambda>c (k, b). cache_put c k b) empty_cache ps) \<and>
   (\<forall>k v. cache_get (foldl (\<lambda>c (k, b). cache_put c k b) empty_cache ps) k = Some v \<longrightarrow> (k, v) \<in> set ps)"
proof (induction ps rule: rev_induct)
  case Nil
  show ?case using empty_cache_wf by (simp add: cache_get_def empty_cache_def)
next
  case (snoc p ps)
  define c where "c = foldl (\<lambda>c (k, b). cache_put c k b) empty_cache ps"
  obtain k b where p: "p = (k, b)" by force
  have ih: "cache_wf c" "\<And>j v. cache_get c j = Some v \<Longrightarrow> (j, v) \<in> set ps"
    using snoc.IH by (auto simp: c_def)
  have "foldl (\<lambda>c (k, b). cache_put c k b) empty_cache (ps @ [p]) = cache_put c k b"
    by (simp add: c_def p)
  moreover have "cache_wf (cache_put c k b)" by (rule cache_put_wf [OF ih(1)])
  moreover have "(j, v) \<in> set (ps @ [p])" if "cache_get (cache_put c k b) j = Some v" for j v
    using cache_put_get [OF ih(1) that] ih(2) by (auto simp: p)
  ultimately show ?case by simp
qed

section \<open>Properties\<close>

text \<open>C23. However many fetches are cached, the cache holds at most 512 entries and 8 MiB, its byte
  total is exact, and it answers a CID only with bytes that were cached for that CID.\<close>

theorem cache_sound:
  assumes "c = foldl (\<lambda>c (k, b). cache_put c k b) empty_cache ps"
  shows "length (cc_order c) \<le> 512 \<and> cc_total c \<le> 8 * 1024 * 1024 \<and>
    cc_total c = cache_total (cc_map c) (cc_order c) \<and> (\<forall>k v. cache_get c k = Some v \<longrightarrow> (k, v) \<in> set ps)"
proof -
  have "cache_wf c" "\<forall>k v. cache_get c k = Some v \<longrightarrow> (k, v) \<in> set ps" using cache_put_all [of ps] assms by auto
  then show ?thesis by (simp add: cache_wf_def cache_shape_def CID_CACHE_MAX_ENTRIES_def CID_CACHE_MAX_BYTES_def)
qed

theorem cache_sound_witness:
  "cache_get (cache_put empty_cache ''Qm'' [1]) ''Qm'' = Some [1] \<and> cc_total (cache_put empty_cache ''Qm'' [1]) \<le> 8388608"
proof -
  have "cache_get (cache_put empty_cache ''Qm'' [1]) ''Qm'' = Some [1]"
    by (simp add: cache_get_def cache_put_def empty_cache_def CID_CACHE_MAX_ENTRY_BYTES_def
        CID_CACHE_MAX_BYTES_def CID_CACHE_MAX_ENTRIES_def Let_def evict.simps)
  moreover have "cc_total (cache_put empty_cache ''Qm'' [1]) \<le> 8 * 1024 * 1024"
    using cache_sound [of "cache_put empty_cache ''Qm'' [1]" "[(''Qm'', [1])]"] by simp
  ultimately show ?thesis by simp
qed

end
