(* ===== verification/Device.thy ===== *)
theory Device
imports Social_Data Ratchet Outbox Cid_Cache
begin

text \<open>
  The state of one device of the chat engine and the operations on it that every component
  of \<open>capsules/hey-core/src/api/dms.rs\<close> uses.

  \<^item> \<open>device\<close>: the files under \<open>dm/\<close> (\<open>None\<close> is an absent or undecodable file), the
    session, the subscribed topics, the reassembly buffer, the files of the social application
    (\<open>Social_Data\<close>), and the number of answers taken from the outside so far.
  \<^item> \<open>env\<close>: the outside. Every answer of the clock, the random generator, the storage service,
    the carrier and the identity provider is a function of that number, so two answers need
    not agree; \<open>serde_json\<close> on JSON values is \<open>en_text\<close> and \<open>en_parse\<close>.
  \<^item> \<open>'a io\<close>: an \<open>async fn\<close> that returns \<open>Result<'a, _>\<close>, as a function of the device. An
    error keeps the writes made before it, as in the code.
\<close>

section \<open>Device and environment\<close>

record device =
  dv_session :: "session option"
  dv_contacts :: "dm_contact list option"
  dv_convs :: "string \<Rightarrow> dm_message list option"
  dv_ratchets :: "string \<Rightarrow> ratchet_state option"
  dv_groups :: "group list option"
  dv_group_convs :: "string \<Rightarrow> dm_message list option"
  dv_declined :: "string list option"
  dv_peer_keys :: "(string \<Rightarrow> peer_keys option) option"
  dv_expiry :: "(string \<Rightarrow> int option) option"
  dv_outbox :: outbox_file
  dv_joined :: "string list"
  dv_frags :: frag_buf
  dv_cache :: cid_cache
  dv_social :: social_files
  dv_tick :: nat

record env =
  en_prims :: prims
  en_net :: "nat \<Rightarrow> net"
  en_now :: "nat \<Rightarrow> int"
  en_rand :: "nat \<Rightarrow> nat \<Rightarrow> bytes"
  en_uuid :: "nat \<Rightarrow> string"
  en_read_ok :: "nat \<Rightarrow> string \<Rightarrow> bool"
  en_write_ok :: "nat \<Rightarrow> string \<Rightarrow> bool"
  en_connect :: "nat \<Rightarrow> string \<Rightarrow> json res"
  en_join :: "nat \<Rightarrow> string \<Rightarrow> json res"
  en_join_peers :: "nat \<Rightarrow> string \<Rightarrow> string list \<Rightarrow> json res"
  en_list_peers :: "nat \<Rightarrow> string \<Rightarrow> json res"
  en_list_all :: "nat \<Rightarrow> json res"
  en_leave :: "nat \<Rightarrow> string \<Rightarrow> json res"
  en_recv :: "nat \<Rightarrow> string \<Rightarrow> string \<Rightarrow> string option \<Rightarrow> json res"
  en_ticket :: "nat \<Rightarrow> json res"
  en_whoami :: "nat \<Rightarrow> json res"
  en_pubkeys :: "nat \<Rightarrow> json res"
  en_sign :: "nat \<Rightarrow> bytes \<Rightarrow> json res"
  en_dh :: "nat \<Rightarrow> bytes \<Rightarrow> json res"
  en_decaps :: "nat \<Rightarrow> bytes \<Rightarrow> json res"
  en_unpin :: "nat \<Rightarrow> string \<Rightarrow> json res"
  en_publish :: "nat \<Rightarrow> bytes \<Rightarrow> json res"
  en_fetch :: "nat \<Rightarrow> string \<Rightarrow> json res"
  en_blob_add :: "nat \<Rightarrow> bytes \<Rightarrow> json res"
  en_blob_fetch :: "nat \<Rightarrow> string \<Rightarrow> json res"
  en_text :: "json \<Rightarrow> string"
  en_parse :: "string \<Rightarrow> json option"
  en_jstr :: "string \<Rightarrow> string"
  en_b64url_enc :: "bytes \<Rightarrow> string"
  en_b64url_dec :: "string \<Rightarrow> bytes option"
  en_frag_dec :: "string \<Rightarrow> fragment_rec option"
  en_gossip_send :: "nat \<Rightarrow> string \<Rightarrow> string \<Rightarrow> string \<Rightarrow> int \<Rightarrow> string \<Rightarrow> json res"
  en_transcode :: "nat \<Rightarrow> string \<Rightarrow> json \<Rightarrow> json res"
  en_canvas :: "nat \<Rightarrow> bytes \<Rightarrow> string \<Rightarrow> string option"
  en_iso :: "int \<Rightarrow> string"
  en_today :: "nat \<Rightarrow> string"
  en_cbor :: "cbor \<Rightarrow> bytes"
  en_uncbor :: "bytes \<Rightarrow> cbor option"
  en_entries :: "nat \<Rightarrow> (string \<Rightarrow> string option) \<Rightarrow> (string \<times> string) list"
  en_api_base :: string
  en_encode_uri :: "string \<Rightarrow> string"

section \<open>The monad\<close>

type_synonym 'a io = "device \<Rightarrow> 'a res \<times> device"

definition retD :: "'a \<Rightarrow> 'a io" where
  "retD x d = (Inr x, d)"

definition failD :: "string \<Rightarrow> 'a io" where
  "failD m d = (Inl (Error m), d)"

definition bindD :: "'a io \<Rightarrow> ('a \<Rightarrow> 'b io) \<Rightarrow> 'b io" where
  "bindD m f d = (case m d of (Inl e, d') \<Rightarrow> (Inl e, d') | (Inr x, d') \<Rightarrow> f x d')"

definition liftD :: "'a res \<Rightarrow> 'a io" where
  "liftD r d = (r, d)"

text \<open>\<open>let _ = ...\<close> and \<open>.ok()\<close>: an error is dropped, a panic is not.\<close>

definition okD :: "'a io \<Rightarrow> 'a option io" where
  "okD m d = (case m d of (Inr x, d') \<Rightarrow> (Inr (Some x), d')
     | (Inl (Error _), d') \<Rightarrow> (Inr None, d') | (Inl (Panic p), d') \<Rightarrow> (Inl (Panic p), d'))"

text \<open>The value of an \<open>async fn\<close> kept as a \<open>Result\<close>.\<close>

definition tryD :: "'a io \<Rightarrow> 'a res io" where
  "tryD m d = (case m d of (Inl (Panic p), d') \<Rightarrow> (Inl (Panic p), d') | (r, d') \<Rightarrow> (Inr r, d'))"

definition ignoreD :: "'a io \<Rightarrow> unit io" where
  "ignoreD m = bindD (okD m) (\<lambda>_. retD ())"

fun forD :: "('a \<Rightarrow> unit io) \<Rightarrow> 'a list \<Rightarrow> unit io" where
  "forD f [] = retD ()"
| "forD f (x # xs) = bindD (f x) (\<lambda>_. forD f xs)"

definition modD :: "(device \<Rightarrow> device) \<Rightarrow> unit io" where
  "modD f d = (Inr (), f d)"

definition getD :: "(device \<Rightarrow> 'a) \<Rightarrow> 'a io" where
  "getD f d = (Inr (f d), d)"

section \<open>The outside\<close>

definition callD :: "(nat \<Rightarrow> 'a res) \<Rightarrow> 'a io" where
  "callD f d = (f (dv_tick d), d\<lparr>dv_tick := dv_tick d + 1\<rparr>)"

definition drawD :: "env \<Rightarrow> nat \<Rightarrow> bytes io" where
  "drawD E n = callD (\<lambda>k. Inr (en_rand E k n))"

definition uuidD :: "env \<Rightarrow> string io" where
  "uuidD E = callD (\<lambda>k. Inr (en_uuid E k))"

definition nowD :: "env \<Rightarrow> int io" where
  "nowD E = getD (\<lambda>d. en_now E (dv_tick d))"

text \<open>Storage: a read that fails or finds no decodable file gives the default.\<close>

definition loadD :: "env \<Rightarrow> string \<Rightarrow> (device \<Rightarrow> 'a option) \<Rightarrow> 'a \<Rightarrow> 'a io" where
  "loadD E path f dflt d = (Inr (if en_read_ok E (dv_tick d) path
     then (case f d of Some x \<Rightarrow> x | None \<Rightarrow> dflt) else dflt), d)"

definition saveD :: "env \<Rightarrow> string \<Rightarrow> (device \<Rightarrow> device) \<Rightarrow> unit io" where
  "saveD E path f d = (if en_write_ok E (dv_tick d) path then (Inr (), f d)
     else (Inl (Error ''storage write failed''), d))"

text \<open>A read whose failure the caller sees.\<close>

definition readD :: "env \<Rightarrow> string \<Rightarrow> (device \<Rightarrow> 'a option) \<Rightarrow> 'a option io" where
  "readD E path f d = (if en_read_ok E (dv_tick d) path then (Inr (f d), d)
     else (Inl (Error ''storage read failed''), d))"

text \<open>\<open>random_hex\<close>: a hex string of \<open>n\<close> random bytes.\<close>

definition random_hex :: "env \<Rightarrow> nat \<Rightarrow> string io" where
  "random_hex E n = bindD (drawD E n) (\<lambda>b. retD (bytes_to_hex b))"

section \<open>Lemmas\<close>

named_theorems run \<open>running an operation on a device\<close>

lemma run_basic [run]:
  "retD x d = (Inr x, d)" "failD m d = (Inl (Error m), d)" "liftD r d = (r, d)"
  "modD g d = (Inr (), g d)" "getD h d = (Inr (h d), d)"
  by (simp_all add: retD_def failD_def liftD_def modD_def getD_def)

lemma run_bind [run]:
  "m d = (Inr x, d') \<Longrightarrow> bindD m f d = f x d'"
  "m d = (Inl e, d') \<Longrightarrow> bindD m f d = (Inl e, d')"
  by (simp_all add: bindD_def)

lemma bindD_Inr: "bindD m f d = (Inr y, d'') \<longleftrightarrow> (\<exists>x d'. m d = (Inr x, d') \<and> f x d' = (Inr y, d''))"
  by (auto simp: bindD_def split: prod.splits sum.splits)

lemma bindD_cases: "(\<exists>e d'. m d = (Inl e, d') \<and> bindD m f d = (Inl e, d')) \<or>
    (\<exists>x d'. m d = (Inr x, d') \<and> bindD m f d = f x d')"
  by (cases "m d"; cases "fst (m d)") (auto simp: bindD_def)

lemma bindD_assoc: "bindD (bindD m f) g = bindD m (\<lambda>x. bindD (f x) g)"
  by (rule ext) (auto simp: bindD_def split: prod.splits sum.splits)

lemma run_ret_bind [simp]: "bindD (retD x) f = f x"
  by (rule ext) (simp add: bindD_def retD_def)

lemma run_fail_bind [simp]: "bindD (failD m) f = failD m"
  by (rule ext) (simp add: bindD_def failD_def)

lemma run_get_bind [simp]: "bindD (getD h) f d = f (h d) d"
  by (simp add: bindD_def getD_def)

section \<open>What an operation may change\<close>

text \<open>\<open>resp R m\<close>: whatever \<open>m\<close> returns, the device it leaves is related to the one it found.\<close>

definition resp :: "(device \<Rightarrow> device \<Rightarrow> bool) \<Rightarrow> 'a io \<Rightarrow> bool" where
  "resp R m = (\<forall>d. R d (snd (m d)))"

text \<open>Relations that do not look at the number of answers taken, and those that do not look at what
  talking to the carrier changes besides: the outbox and the set of joined topics.\<close>

locale tick_relation =
  fixes R :: "device \<Rightarrow> device \<Rightarrow> bool"
  assumes R_refl: "R d d"
    and R_trans: "R a b \<Longrightarrow> R b c \<Longrightarrow> R a c"
    and R_tick: "R d (d\<lparr>dv_tick := k\<rparr>)"
begin

lemma resp_ret: "resp R (retD x)" "resp R (failD m)" "resp R (liftD r)" "resp R (getD h)"
  by (simp_all add: resp_def run_basic R_refl)

lemma resp_bind: "resp R m \<Longrightarrow> (\<And>x. resp R (f x)) \<Longrightarrow> resp R (bindD m f)"
proof -
  assume m: "resp R m" and f: "\<And>x. resp R (f x)"
  show "resp R (bindD m f)" unfolding resp_def
  proof
    fix d
    show "R d (snd (bindD m f d))"
      using bindD_cases [of m d f] m f unfolding resp_def by (metis R_trans snd_conv)
  qed
qed

text \<open>Stepping over a first operation that respects the relation.\<close>

lemma bind_post:
  assumes "resp R m" "\<And>x d1. m d = (Inr x, d1) \<Longrightarrow> R d d1 \<Longrightarrow> Q (snd (f x d1))" "\<And>d1. R d d1 \<Longrightarrow> Q d1"
  shows "Q (snd (bindD m f d))"
  using bindD_cases [of m d f] assms unfolding resp_def by (metis snd_conv)

lemma resp_ok: "resp R m \<Longrightarrow> resp R (okD m)"
  by (auto simp: resp_def okD_def split: prod.split sum.split fault.split) (metis snd_conv)+

lemma resp_try: "resp R m \<Longrightarrow> resp R (tryD m)"
  by (auto simp: resp_def tryD_def split: prod.split sum.split fault.split) (metis snd_conv)+

lemma resp_ignore: "resp R m \<Longrightarrow> resp R (ignoreD m)"
  unfolding ignoreD_def by (intro resp_bind resp_ok resp_ret)

lemma resp_for: "(\<And>x. x \<in> set xs \<Longrightarrow> resp R (f x)) \<Longrightarrow> resp R (forD f xs)"
  by (induction xs) (auto intro: resp_ret resp_bind)

lemma resp_call: "resp R (callD f)"
  by (simp add: resp_def callD_def R_tick)

lemma resp_draw: "resp R (drawD E n)" "resp R (uuidD E)" "resp R (nowD E)" "resp R (random_hex E n)"
  unfolding drawD_def uuidD_def nowD_def random_hex_def by (intro resp_call resp_ret resp_bind)+

lemma resp_load: "resp R (loadD E path f dflt)"
  by (simp add: resp_def loadD_def R_refl)

lemma resp_read: "resp R (readD E path f)"
  by (simp add: resp_def readD_def R_refl)

lemma resp_save: "(\<And>d. R d (g d)) \<Longrightarrow> resp R (saveD E path g)"
  by (simp add: resp_def saveD_def R_refl)

lemma resp_mod: "(\<And>d. R d (g d)) \<Longrightarrow> resp R (modD g)"
  by (simp add: resp_def run_basic)

lemmas resp_rules = resp_ret resp_bind resp_ok resp_try resp_ignore resp_for resp_call resp_draw resp_load resp_read

end

locale quiet_relation = tick_relation +
  assumes R_outbox: "R d (d\<lparr>dv_outbox := f\<rparr>)"
    and R_joined: "R d (d\<lparr>dv_joined := ts\<rparr>)"

end
