(* ===== verification/Wire.thy ===== *)
theory Wire
imports Device Interfaces "HOL-Library.Monad_Syntax"
begin

text \<open>
  The JSON forms of the records that cross the network, as the \<open>serde\<close> derives of
  \<open>crypto.rs\<close> and \<open>api/dms.rs\<close> write and read them: members in declaration order, absent
  options and empty lists omitted, unknown members ignored, an array taken as the fields in
  order, integers checked against their width.
\<close>

section \<open>Fields\<close>

definition as_fields :: "string list \<Rightarrow> json \<Rightarrow> (string \<times> json) list option" where
  "as_fields names v = (case v of
     JObj ms \<Rightarrow> Some ms
   | JArr vs \<Rightarrow> if length vs \<le> length names then Some (zip names vs) else None
   | _ \<Rightarrow> None)"

definition f_str :: "string \<Rightarrow> (string \<times> json) list \<Rightarrow> string option" where
  "f_str k ms = Option.bind (map_of ms k) j_str"

definition f_str_dflt :: "string \<Rightarrow> (string \<times> json) list \<Rightarrow> string option" where
  "f_str_dflt k ms = (case map_of ms k of None \<Rightarrow> Some [] | Some v \<Rightarrow> j_str v)"

fun opt_of :: "(json \<Rightarrow> 'a option) \<Rightarrow> json option \<Rightarrow> 'a option option" where
  "opt_of f None = Some None"
| "opt_of f (Some JNull) = Some None"
| "opt_of f (Some v) = map_option Some (f v)"

definition f_opt :: "(json \<Rightarrow> 'a option) \<Rightarrow> string \<Rightarrow> (string \<times> json) list \<Rightarrow> 'a option option" where
  "f_opt f k ms = opt_of f (map_of ms k)"

definition j_nat :: "nat \<Rightarrow> json \<Rightarrow> nat option" where
  "j_nat w v = (case v of JInt i \<Rightarrow> if 0 \<le> i \<and> i < 2 ^ w then Some (nat i) else None | _ \<Rightarrow> None)"

definition j_i64 :: "json \<Rightarrow> int option" where
  "j_i64 v = (case v of JInt i \<Rightarrow> if - (2 ^ 63) \<le> i \<and> i < 2 ^ 63 then Some i else None | _ \<Rightarrow> None)"

definition f_list_dflt :: "(json \<Rightarrow> 'a option) \<Rightarrow> string \<Rightarrow> (string \<times> json) list \<Rightarrow> 'a list option" where
  "f_list_dflt f k ms = (case map_of ms k of None \<Rightarrow> Some []
     | Some (JArr vs) \<Rightarrow> those (map f vs) | Some _ \<Rightarrow> None)"

definition opt_member :: "string \<Rightarrow> json option \<Rightarrow> (string \<times> json) list" where
  "opt_member k v = (case v of None \<Rightarrow> [] | Some x \<Rightarrow> [(k, x)])"

definition strs_member :: "string \<Rightarrow> string list \<Rightarrow> (string \<times> json) list" where
  "strs_member k l = (if l = [] then [] else [(k, JArr (map JStr l))])"

section \<open>Envelopes, keys and ratchet headers\<close>

definition envelope_json :: "hpq_envelope \<Rightarrow> json" where
  "envelope_json e = JObj [(''v'', JStr (env_v e)), (''eph'', JStr (env_eph e)), (''kem'', JStr (env_kem e)),
     (''n'', JStr (env_n e)), (''ct'', JStr (env_ct e))]"

definition envelope_of :: "json \<Rightarrow> hpq_envelope option" where
  "envelope_of j = do {
     ms \<leftarrow> as_fields [''v'', ''eph'', ''kem'', ''n'', ''ct''] j;
     v \<leftarrow> f_str ''v'' ms; eph \<leftarrow> f_str ''eph'' ms; kem \<leftarrow> f_str ''kem'' ms;
     n \<leftarrow> f_str ''n'' ms; ct \<leftarrow> f_str ''ct'' ms;
     Some \<lparr>env_v = v, env_eph = eph, env_kem = kem, env_n = n, env_ct = ct\<rparr> }"

definition peer_keys_json :: "peer_keys \<Rightarrow> json" where
  "peer_keys_json k = JObj [(''x25519_pub_b64'', JStr (pk_x25519 k)), (''ml_kem_pub_b64'', JStr (pk_ml_kem k))]"

definition peer_keys_of :: "json \<Rightarrow> peer_keys option" where
  "peer_keys_of j = do {
     ms \<leftarrow> as_fields [''x25519_pub_b64'', ''ml_kem_pub_b64''] j;
     x \<leftarrow> f_str ''x25519_pub_b64'' ms; k \<leftarrow> f_str ''ml_kem_pub_b64'' ms;
     Some \<lparr>pk_x25519 = x, pk_ml_kem = k\<rparr> }"

definition header_json :: "ratchet_header \<Rightarrow> json" where
  "header_json h = JObj ([(''dh'', JStr (h_dh h)), (''pn'', JInt (int (h_pn h))), (''n'', JInt (int (h_n h)))]
     @ opt_member ''kem_ct'' (map_option JStr (h_kem_ct h)) @ opt_member ''kem_pub'' (map_option JStr (h_kem_pub h)))"

definition header_of :: "json \<Rightarrow> ratchet_header option" where
  "header_of j = do {
     ms \<leftarrow> as_fields [''dh'', ''pn'', ''n'', ''kem_ct'', ''kem_pub''] j;
     d \<leftarrow> f_str ''dh'' ms;
     pn \<leftarrow> Option.bind (map_of ms ''pn'') (j_nat 32); n \<leftarrow> Option.bind (map_of ms ''n'') (j_nat 32);
     kc \<leftarrow> f_opt j_str ''kem_ct'' ms; kp \<leftarrow> f_opt j_str ''kem_pub'' ms;
     Some \<lparr>h_dh = d, h_pn = pn, h_n = n, h_kem_ct = kc, h_kem_pub = kp\<rparr> }"

section \<open>Inner payloads\<close>

record inner_payload =
  in_kind :: string
  in_sender_did :: string
  in_ts :: int
  in_body :: json
  in_sig :: string
  in_rh :: "ratchet_header option"

definition inner_json :: "inner_payload \<Rightarrow> json" where
  "inner_json i = JObj ([(''kind'', JStr (in_kind i)), (''sender_did'', JStr (in_sender_did i)),
     (''ts'', JInt (in_ts i)), (''body'', in_body i), (''sig'', JStr (in_sig i))]
     @ opt_member ''rh'' (map_option header_json (in_rh i)))"

definition inner_of :: "json \<Rightarrow> inner_payload option" where
  "inner_of j = do {
     ms \<leftarrow> as_fields [''kind'', ''sender_did'', ''ts'', ''body'', ''sig'', ''rh''] j;
     k \<leftarrow> f_str ''kind'' ms; s \<leftarrow> f_str ''sender_did'' ms;
     ts \<leftarrow> Option.bind (map_of ms ''ts'') j_i64; b \<leftarrow> map_of ms ''body''; g \<leftarrow> f_str ''sig'' ms;
     rh \<leftarrow> f_opt header_of ''rh'' ms;
     Some \<lparr>in_kind = k, in_sender_did = s, in_ts = ts, in_body = b, in_sig = g, in_rh = rh\<rparr> }"

section \<open>Attachments and rosters\<close>

definition attachment_json :: "attachment \<Rightarrow> json" where
  "attachment_json a = JObj ([(''id'', JStr (at_id a)), (''name'', JStr (at_name a)), (''mime'', JStr (at_mime a)),
     (''size'', JInt (int (at_size a))), (''cid'', JStr (at_cid a))]
     @ strs_member ''chunks'' (at_chunks a) @ strs_member ''tickets'' (at_tickets a)
     @ [(''key_b64'', JStr (at_key_b64 a))] @ opt_member ''inline_b64'' (map_option JStr (at_inline_b64 a)))"

definition attachment_of :: "json \<Rightarrow> attachment option" where
  "attachment_of j = do {
     ms \<leftarrow> as_fields [''id'', ''name'', ''mime'', ''size'', ''cid'', ''chunks'', ''tickets'', ''key_b64'', ''inline_b64''] j;
     i \<leftarrow> f_str ''id'' ms; n \<leftarrow> f_str ''name'' ms; m \<leftarrow> f_str ''mime'' ms;
     z \<leftarrow> Option.bind (map_of ms ''size'') (j_nat 64); c \<leftarrow> f_str ''cid'' ms;
     ch \<leftarrow> f_list_dflt j_str ''chunks'' ms; tk \<leftarrow> f_list_dflt j_str ''tickets'' ms;
     k \<leftarrow> f_str ''key_b64'' ms; il \<leftarrow> f_opt j_str ''inline_b64'' ms;
     Some \<lparr>at_id = i, at_name = n, at_mime = m, at_size = z, at_cid = c, at_chunks = ch, at_tickets = tk,
           at_key_b64 = k, at_inline_b64 = il\<rparr> }"

text \<open>\<open>attachments_from_body\<close>: a missing or malformed list counts as empty.\<close>

definition attachments_from_body :: "json \<Rightarrow> attachment list" where
  "attachments_from_body body = (case j_get ''attachments'' body of
     Some (JArr vs) \<Rightarrow> (case those (map attachment_of vs) of Some l \<Rightarrow> l | None \<Rightarrow> [])
   | _ \<Rightarrow> [])"

definition member_json :: "group_member \<Rightarrow> json" where
  "member_json m = JObj ([(''did'', JStr (gm_did m)), (''name'', JStr (gm_name m))]
     @ opt_member ''peerPubkeys'' (map_option peer_keys_json (gm_peer_pubkeys m))
     @ opt_member ''peerTicket'' (map_option JStr (gm_peer_ticket m)))"

definition member_of :: "json \<Rightarrow> group_member option" where
  "member_of j = do {
     ms \<leftarrow> as_fields [''did'', ''name'', ''peerPubkeys'', ''peerTicket''] j;
     d \<leftarrow> f_str ''did'' ms; n \<leftarrow> f_str_dflt ''name'' ms;
     k \<leftarrow> f_opt peer_keys_of ''peerPubkeys'' ms; t \<leftarrow> f_opt j_str ''peerTicket'' ms;
     Some \<lparr>gm_did = d, gm_name = n, gm_peer_pubkeys = k, gm_peer_ticket = t\<rparr> }"

section \<open>Well-formed values\<close>

text \<open>Objects without duplicate members, the values a JSON text determines.\<close>

fun js_ok :: "json \<Rightarrow> bool" where
  "js_ok (JArr vs) = list_all js_ok vs"
| "js_ok (JObj ms) = (distinct (map fst ms) \<and> list_all (\<lambda>(k, v). js_ok v) ms)"
| "js_ok _ = True"

definition json_codec :: "(json \<Rightarrow> string) \<Rightarrow> (string \<Rightarrow> json option) \<Rightarrow> bool" where
  "json_codec tx ps = (\<forall>v. js_ok v \<longrightarrow> ps (tx v) = Some v)"

section \<open>Round trips\<close>

named_theorems wire_simps \<open>reading back the fields of a record's JSON form\<close>

lemmas [wire_simps] = as_fields_def f_str_def f_str_dflt_def f_opt_def j_nat_def j_i64_def f_list_dflt_def
  opt_member_def strs_member_def

lemma those_map_Some: "(\<And>x. x \<in> set xs \<Longrightarrow> f (g x) = Some x) \<Longrightarrow> those (map f (map g xs)) = Some xs"
  by (induction xs) auto

lemma those_JStr [wire_simps]: "those (map j_str (map JStr xs)) = Some xs" "those (map (j_str \<circ> JStr) xs) = Some xs"
  by (induction xs) auto

lemma envelope_of_json [simp]: "envelope_of (envelope_json e) = Some e"
  by (simp add: envelope_of_def envelope_json_def wire_simps)

lemma peer_keys_of_json [simp]: "peer_keys_of (peer_keys_json k) = Some k"
  by (simp add: peer_keys_of_def peer_keys_json_def wire_simps)

definition header_fits :: "ratchet_header \<Rightarrow> bool" where
  "header_fits h = (h_pn h < 2 ^ 32 \<and> h_n h < 2 ^ 32)"

lemma header_of_json [simp]: "header_fits h \<Longrightarrow> header_of (header_json h) = Some h"
  by (cases "h_kem_ct h"; cases "h_kem_pub h")
    (simp_all add: header_of_def header_json_def header_fits_def wire_simps)

definition inner_fits :: "inner_payload \<Rightarrow> bool" where
  "inner_fits i = (- (2 ^ 63) \<le> in_ts i \<and> in_ts i < 2 ^ 63 \<and> (\<forall>h. in_rh i = Some h \<longrightarrow> header_fits h))"

lemma opt_of_header: "header_fits h \<Longrightarrow> opt_of header_of (Some (header_json h)) = Some (Some h)"
  using header_of_json [of h] by (simp add: header_json_def)

lemma inner_of_json [simp]: "inner_fits i \<Longrightarrow> inner_of (inner_json i) = Some i"
  by (cases "in_rh i")
    (simp_all add: inner_of_def inner_json_def inner_fits_def opt_of_header wire_simps)

lemma attachment_of_json [simp]: "at_size a < 2 ^ 64 \<Longrightarrow> attachment_of (attachment_json a) = Some a"
  by (cases "at_inline_b64 a"; cases "at_chunks a = []"; cases "at_tickets a = []")
    (simp_all add: attachment_of_def attachment_json_def wire_simps)

lemma opt_of_peer_keys: "opt_of peer_keys_of (Some (peer_keys_json k)) = Some (Some k)"
  using peer_keys_of_json [of k] by (simp add: peer_keys_json_def)

lemma member_of_json [simp]: "member_of (member_json m) = Some m"
  by (cases "gm_peer_pubkeys m"; cases "gm_peer_ticket m")
    (simp_all add: member_of_def member_json_def opt_of_peer_keys wire_simps)

interpretation envelope_codec: codec envelope_json "\<lambda>v. of_option ''envelope shape'' (envelope_of v)" "\<lambda>_. True"
  by unfold_locales simp

interpretation peer_keys_codec: codec peer_keys_json "\<lambda>v. of_option ''pubkeys'' (peer_keys_of v)" "\<lambda>_. True"
  by unfold_locales simp

interpretation inner_codec: codec inner_json "\<lambda>v. of_option ''inner deserialize'' (inner_of v)" inner_fits
  by unfold_locales simp

interpretation attachment_codec: codec attachment_json "\<lambda>v. of_option ''attachment'' (attachment_of v)" "\<lambda>a. at_size a < 2 ^ 64"
  by unfold_locales simp

interpretation member_codec: codec member_json "\<lambda>v. of_option ''member'' (member_of v)" "\<lambda>_. True"
  by unfold_locales simp

end
