(* ===== verification/Samples.thy ===== *)
theory Samples
imports Wire
begin

text \<open>
  A concrete environment to apply the theorems with: JSON values written with unary lengths
  and read back exactly, the primitives of \<open>sample_prims\<close>, a storage service that never
  fails, a carrier that accepts everything and an identity provider that holds one key.
\<close>

section \<open>A JSON text\<close>

fun sample_int :: "int \<Rightarrow> string" where
  "sample_int i = (if i < 0 then ''-'' else ''+'') @ unary (nat \<bar>i\<bar>)"

fun sample_text :: "json \<Rightarrow> string" where
  "sample_text JNull = ''n''"
| "sample_text (JBool b) = (if b then ''t'' else ''f'')"
| "sample_text (JInt i) = ''i'' @ sample_int i"
| "sample_text (JFloat q) = ''q'' @ sample_int (fst (quotient_of q)) @ sample_int (snd (quotient_of q))"
| "sample_text (JStr s) = ''s'' @ unary (length s) @ s"
| "sample_text (JArr vs) = ''a'' @ unary (length vs) @ concat (map sample_text vs)"
| "sample_text (JObj ms) = ''o'' @ unary (length ms) @
     concat (map (\<lambda>(k, v). unary (length k) @ k @ sample_text v) ms)"

definition un_str :: "string \<Rightarrow> (string \<times> string) option" where
  "un_str s = Option.bind (un_unary s) (\<lambda>(n, r). if length r < n then None else Some (take n r, drop n r))"

fun un_int :: "string \<Rightarrow> (int \<times> string) option" where
  "un_int (c # s) = map_option (\<lambda>(n, r). (if c = CHR ''-'' then - int n else int n, r)) (un_unary s)"
| "un_int [] = None"

fun un_json :: "nat \<Rightarrow> string \<Rightarrow> (json \<times> string) option" and
    un_vals :: "nat \<Rightarrow> nat \<Rightarrow> string \<Rightarrow> (json list \<times> string) option" and
    un_members :: "nat \<Rightarrow> nat \<Rightarrow> string \<Rightarrow> ((string \<times> json) list \<times> string) option" where
  "un_json (Suc n) (c # s) =
     (if c = CHR ''n'' then Some (JNull, s)
      else if c = CHR ''t'' then Some (JBool True, s)
      else if c = CHR ''f'' then Some (JBool False, s)
      else if c = CHR ''i'' then map_option (\<lambda>(i, r). (JInt i, r)) (un_int s)
      else if c = CHR ''q'' then Option.bind (un_int s) (\<lambda>(a, r).
        map_option (\<lambda>(b, r'). (JFloat (of_int a / of_int b), r')) (un_int r))
      else if c = CHR ''s'' then map_option (\<lambda>(t, r). (JStr t, r)) (un_str s)
      else if c = CHR ''a'' then Option.bind (un_unary s) (\<lambda>(k, r). map_option (\<lambda>(vs, r'). (JArr vs, r')) (un_vals n k r))
      else if c = CHR ''o'' then Option.bind (un_unary s) (\<lambda>(k, r). map_option (\<lambda>(ms, r'). (JObj ms, r')) (un_members n k r))
      else None)"
| "un_json _ _ = None"
| "un_vals n 0 s = Some ([], s)"
| "un_vals n (Suc k) s = Option.bind (un_json n s) (\<lambda>(v, r). map_option (\<lambda>(vs, r'). (v # vs, r')) (un_vals n k r))"
| "un_members n 0 s = Some ([], s)"
| "un_members n (Suc k) s = Option.bind (un_str s) (\<lambda>(t, r). Option.bind (un_json n r) (\<lambda>(v, r').
     map_option (\<lambda>(ms, r''). ((t, v) # ms, r'')) (un_members n k r')))"

definition sample_parse :: "string \<Rightarrow> json option" where
  "sample_parse s = (case un_json (length s) s of Some (v, []) \<Rightarrow> Some v | _ \<Rightarrow> None)"

lemma un_int [simp]: "un_int (sample_int i @ r) = Some (i, r)"
  by simp

lemma un_str [simp]: "un_str (unary (length s) @ s @ r) = Some (s, r)"
  by (simp add: un_str_def)

declare sample_int.simps [simp del] un_int.simps [simp del]

fun depth :: "json \<Rightarrow> nat" where
  "depth (JArr vs) = Suc (Max (insert 0 (set (map depth vs))))"
| "depth (JObj ms) = Suc (Max (insert 0 (set (map (\<lambda>(k, v). depth v) ms))))"
| "depth _ = 1"

lemma un_vals_concat:
  "(\<And>v r. v \<in> set vs \<Longrightarrow> un_json n (sample_text v @ r) = Some (v, r)) \<Longrightarrow>
   un_vals n (length vs) (concat (map sample_text vs) @ r) = Some (vs, r)"
  by (induction vs) auto

lemma un_members_concat:
  "(\<And>k v r. (k, v) \<in> set ms \<Longrightarrow> un_json n (sample_text v @ r) = Some (v, r)) \<Longrightarrow>
   un_members n (length ms) (concat (map (\<lambda>(k, v). unary (length k) @ k @ sample_text v) ms) @ r) = Some (ms, r)"
proof (induction ms)
  case (Cons m ms)
  obtain a b where m: "m = (a, b)" by force
  have "un_members n (length ms) (concat (map (\<lambda>(k, v). unary (length k) @ k @ sample_text v) ms) @ r) = Some (ms, r)"
    by (rule Cons.IH, rule Cons.prems, rule list.set_intros(2))
  moreover have "un_json n (sample_text b @ t) = Some (b, t)" for t using Cons.prems [of a b] m by simp
  ultimately show ?case by (simp add: m)
qed simp

lemma Max_insert_le: "finite A \<Longrightarrow> Max (insert 0 A) \<le> (n :: nat) \<Longrightarrow> x \<in> A \<Longrightarrow> x \<le> n"
  by (meson Max.coboundedI finite_insert insertI2 order_trans)

lemma un_json_text: "depth v \<le> n \<Longrightarrow> un_json n (sample_text v @ r) = Some (v, r)"
proof (induction v arbitrary: n r)
  case (JFloat q)
  obtain a b where q: "quotient_of q = (a, b)" by force
  from JFloat show ?case by (cases n) (simp_all add: q quotient_of_div [OF q, symmetric])
next
  case (JArr vs)
  then obtain m where m: "n = Suc m" "Max (insert 0 (depth ` set vs)) \<le> m" by (cases n) auto
  have "un_vals m (length vs) (concat (map sample_text vs) @ r) = Some (vs, r)"
    using JArr.IH Max_insert_le [OF _ m(2)] by (intro un_vals_concat) auto
  then show ?case using m(1) by simp
next
  case (JObj ms)
  then obtain m where m: "n = Suc m" "Max (insert 0 ((\<lambda>(k, v). depth v) ` set ms)) \<le> m" by (cases n) auto
  have "depth v \<le> m" if "(k, v) \<in> set ms" for k v using Max_insert_le [OF _ m(2), of "depth v"] that by force
  then have "un_members m (length ms) (concat (map (\<lambda>(k, v). unary (length k) @ k @ sample_text v) ms) @ r) = Some (ms, r)"
    using JObj.IH by (intro un_members_concat) (metis snds.intros snd_conv)
  then show ?case using m(1) by simp
qed (auto simp: Suc_le_eq gr0_conv_Suc)

lemma length_concat_ge: "x \<in> set xs \<Longrightarrow> length x \<le> length (concat xs)"
  by (induction xs) auto

lemma depth_le_text: "depth v \<le> length (sample_text v)"
proof (induction v)
  case (JArr vs)
  have "depth v \<le> length (concat (map sample_text vs))" if "v \<in> set vs" for v
    using JArr [OF that] length_concat_ge [of "sample_text v" "map sample_text vs"] that by fastforce
  then have "Max (insert 0 (set (map depth vs))) \<le> length (concat (map sample_text vs))" by simp
  then show ?case unfolding depth.simps sample_text.simps length_append by (simp only: list.size)
next
  case (JObj ms)
  let ?t = "map (\<lambda>(k, v). unary (length k) @ k @ sample_text v) ms"
  have "depth v \<le> length (concat ?t)" if "(k, v) \<in> set ms" for k v
  proof -
    have "depth v \<le> length (sample_text v)" using JObj [OF that, of v] by simp
    also have "\<dots> \<le> length (unary (length k) @ k @ sample_text v)" by simp
    also have "\<dots> \<le> length (concat ?t)" using that by (intro length_concat_ge) force
    finally show ?thesis .
  qed
  then have "Max (insert 0 (set (map (\<lambda>(k, v). depth v) ms))) \<le> length (concat ?t)" by auto
  then show ?case unfolding depth.simps sample_text.simps length_append by (simp only: list.size)
qed auto

lemma sample_json_codec: "json_codec sample_text sample_parse"
  using un_json_text [OF depth_le_text, of _ "[]"] by (simp add: json_codec_def sample_parse_def)

text \<open>Text written by \<open>sample_text\<close> is ASCII when its strings are.\<close>

fun ascii_json :: "json \<Rightarrow> bool" where
  "ascii_json (JStr s) = ascii s"
| "ascii_json (JArr vs) = list_all ascii_json vs"
| "ascii_json (JObj ms) = list_all (\<lambda>(k, v). ascii k \<and> ascii_json v) ms"
| "ascii_json _ = True"

lemma ascii_append [simp]: "ascii (s @ t) \<longleftrightarrow> ascii s \<and> ascii t"
  by (simp add: ascii_def)

lemma ascii_Nil [simp]: "ascii []"
  by (simp add: ascii_def)

lemma ascii_Cons [simp]: "ascii (c # s) \<longleftrightarrow> (of_char c :: nat) < 128 \<and> ascii s"
  by (simp add: ascii_def)

lemma ascii_unary [simp]: "ascii (unary n)"
  by (simp add: unary_def) (simp add: ascii_def list_all_iff)

lemma ascii_concat: "(\<And>x. x \<in> set xs \<Longrightarrow> ascii x) \<Longrightarrow> ascii (concat xs)"
  by (induction xs) auto

lemma ascii_sample_text: "ascii_json v \<Longrightarrow> ascii (sample_text v)"
proof (induction v)
  case (JArr vs)
  then show ?case by (auto simp: list_all_iff intro!: ascii_concat)
next
  case (JObj ms)
  have "ascii (sample_text v)" if "(k, v) \<in> set ms" for k v
    using JObj.IH [OF that, of v] JObj.prems that by (auto simp: list_all_iff)
  then show ?case using JObj.prems by (force simp: list_all_iff intro!: ascii_concat)
qed (auto simp: sample_int.simps)

lemma utf8_ascii: "ascii s \<Longrightarrow> utf8_valid (as_bytes s)"
proof -
  have "list_all (\<lambda>n. n < 128) ns \<Longrightarrow> utf8_go 0 ns" for ns
    by (induction ns) auto
  moreover have "map unat (as_bytes s) = map of_char s"
    by (simp add: as_bytes_def unat_byte_of_char)
  ultimately show "ascii s \<Longrightarrow> utf8_valid (as_bytes s)"
    by (simp add: utf8_valid_def ascii_def list_all_iff)
qed

lemma ascii_hex: "ascii (bytes_to_hex bs)"
proof -
  have "\<forall>n \<in> set [0..<16]. (of_char (hex_digit n) :: nat) < 128" by code_simp
  moreover have "unat b div 16 < 16" "unat b mod 16 < 16" for b :: byte
    using unat_byte_less [of b] by (simp_all add: less_mult_imp_div_less)
  ultimately show ?thesis by (induction bs) auto
qed

lemma base58_digits_bounds:
  "byte_val ds < 2 ^ k \<Longrightarrow> length (base58_digits ds) \<le> Suc k \<and> (\<forall>r \<in> set (base58_digits ds). r < 58)"
proof (induction ds arbitrary: k rule: base58_digits.induct)
  case (1 ds)
  show ?case
  proof (cases "ds = []")
    case True
    then show ?thesis by (simp add: base58_digits.simps)
  next
    case False
    obtain qs r where q: "div58 0 ds = (qs, r)" by force
    have v: "r < 58" "byte_val ds = 58 * byte_val qs + r" using div58_val [OF _ q] by auto
    have e: "base58_digits ds = r # base58_digits (dropWhile (\<lambda>d. d = 0) qs)"
      using False q by (simp add: base58_digits.simps [of ds])
    show ?thesis
    proof (cases k)
      case 0
      then have "byte_val qs = 0" using v "1.prems" by simp
      then have "dropWhile (\<lambda>d. d = 0) qs = []" by (simp add: byte_val_eq_0)
      then have "base58_digits ds = [r]" using e by (simp only: base58_digits.simps [of "[]"] simp_thms if_True)
      then show ?thesis using v by simp
    next
      case (Suc j)
      then have "byte_val (dropWhile (\<lambda>d. d = 0) qs) < 2 ^ j"
        using v "1.prems" by (simp add: byte_val_dropWhile)
      then show ?thesis using "1.IH" [OF False q [symmetric] refl, of j] e v Suc by simp
    qed
  qed
qed

lemma did_key_ascii:
  assumes "length pk = 32"
  shows "ascii (public_key_to_did_key pk)" "length (public_key_to_did_key pk) \<le> 400"
proof -
  let ?b = "ed25519_pub_multicodec @ pk"
  have l: "length ?b = 34" using assms by (simp add: ed25519_pub_multicodec_def)
  have "byte_val ?b < 256 ^ length ?b"
    using be_val_less [of "map unat ?b" 256] unat_byte_less unfolding byte_val_def length_map by fastforce
  then have "byte_val ?b < 2 ^ 272" using l by simp
  from base58_digits_bounds [OF this]
  have d: "length (base58_digits ?b) \<le> 273" "\<forall>r \<in> set (base58_digits ?b). r < 58" by simp_all
  have al: "\<forall>c \<in> set base58_alphabet. (of_char c :: nat) < 128" by code_simp
  have "length base58_alphabet = 58" by code_simp
  then have "\<forall>r \<in> set (base58_digits ?b). (of_char (base58_alphabet ! r) :: nat) < 128"
    using d(2) al by (metis nth_mem)
  then have "ascii (base58_encode ?b)" by (auto simp: base58_encode_def ascii_def list_all_iff)
  moreover have "length (takeWhile (\<lambda>b. b = 0) ?b) \<le> 34" using length_takeWhile_le [of "\<lambda>b. b = 0" "?b"] l by simp
  then have "length (base58_encode ?b) \<le> 307" using d(1) by (auto simp: base58_encode_def)
  ultimately show "ascii (public_key_to_did_key pk)" "length (public_key_to_did_key pk) \<le> 400"
    by (simp_all add: public_key_to_did_key_def)
qed

section \<open>A CBOR encoding\<close>

text \<open>CBOR values as tagged JSON arrays.\<close>

fun cbor_json :: "cbor \<Rightarrow> json" where
  "cbor_json (CInt i) = JArr [JInt 0, JInt i]"
| "cbor_json (CBytes b) = JArr [JInt 1, JStr (of_bytes b)]"
| "cbor_json (CFloat w) = JArr [JInt 2, JInt (uint w)]"
| "cbor_json (CText s) = JArr [JInt 3, JStr s]"
| "cbor_json (CBool b) = JArr [JInt 4, JBool b]"
| "cbor_json CNull = JArr [JInt 5, JNull]"
| "cbor_json (CTag n v) = JArr [JInt 6, JInt (int n), cbor_json v]"
| "cbor_json (CArr vs) = JArr [JInt 7, JArr (map cbor_json vs)]"
| "cbor_json (CMap ms) = JArr [JInt 8, JArr (map (\<lambda>(k, v). JArr [cbor_json k, cbor_json v]) ms)]"

fun json_cbor :: "nat \<Rightarrow> json \<Rightarrow> cbor option" where
  "json_cbor (Suc n) (JArr [JInt t, JInt i]) = (if t = 0 then Some (CInt i) else if t = 2 then Some (CFloat (word_of_int i)) else None)"
| "json_cbor (Suc n) (JArr [JInt t, JStr s]) = (if t = 1 then Some (CBytes (as_bytes s)) else if t = 3 then Some (CText s) else None)"
| "json_cbor (Suc n) (JArr [JInt t, JBool b]) = (if t = 4 then Some (CBool b) else None)"
| "json_cbor (Suc n) (JArr [JInt t, JNull]) = (if t = 5 then Some CNull else None)"
| "json_cbor (Suc n) (JArr [JInt t, JInt i, v]) = (if t = 6 then map_option (CTag (nat i)) (json_cbor n v) else None)"
| "json_cbor (Suc n) (JArr [JInt t, JArr vs]) =
     (if t = 7 then map_option CArr (those (map (json_cbor n) vs))
      else if t = 8 then map_option CMap (those (map (\<lambda>p. case p of
        JArr [k, v] \<Rightarrow> Option.bind (json_cbor n k) (\<lambda>k'. map_option (\<lambda>v'. (k', v')) (json_cbor n v)) | _ \<Rightarrow> None) vs))
      else None)"
| "json_cbor _ _ = None"

definition sample_cbor :: "cbor \<Rightarrow> bytes" where
  "sample_cbor v = as_bytes (sample_text (cbor_json v))"

definition sample_uncbor :: "bytes \<Rightarrow> cbor option" where
  "sample_uncbor b = Option.bind (sample_parse (of_bytes b)) (json_cbor (length b))"

lemma those_map_id: "(\<And>x. x \<in> set xs \<Longrightarrow> f x = Some (g x)) \<Longrightarrow> those (map f xs) = Some (map g xs)"
  by (induction xs) auto

lemma depth_Suc_le: "v \<in> set vs \<Longrightarrow> depth (JArr vs) \<le> Suc n \<Longrightarrow> depth v \<le> n"
  using Max_insert_le [of "depth ` set vs" n "depth v"] by simp

lemma json_cbor_json: "depth (cbor_json v) \<le> n \<Longrightarrow> json_cbor n (cbor_json v) = Some v"
proof (induction v arbitrary: n)
  case (CTag k v)
  then obtain m where m: "n = Suc m" by (cases n) auto
  have "depth (cbor_json v) \<le> m" using CTag.prems m by simp
  then show ?case using CTag.IH m by simp
next
  case (CArr vs)
  then obtain m where m: "n = Suc m" by (cases n) auto
  have "json_cbor m (cbor_json v) = Some v" if "v \<in> set vs" for v
  proof (rule CArr.IH [OF that])
    have "depth (JArr (map cbor_json vs)) \<le> m" using CArr.prems m by (auto intro: depth_Suc_le)
    then show "depth (cbor_json v) \<le> m"
      using that by (cases m) (auto intro: depth_Suc_le [of _ "map cbor_json vs"] le_SucI)
  qed
  then have "those (map (json_cbor m) (map cbor_json vs)) = Some vs"
    using those_map_id [of "map cbor_json vs" "json_cbor m" "\<lambda>j. the (json_cbor m j)"]
    by (simp add: comp_def those_map_id [of vs _ "\<lambda>v. v"] cong: map_cong)
  then show ?case using m by simp
next
  case (CMap ms)
  then obtain m where m: "n = Suc m" by (cases n) auto
  have d: "depth (cbor_json k) \<le> m \<and> depth (cbor_json v) \<le> m" if "(k, v) \<in> set ms" for k v
  proof -
    have "depth (JArr (map (\<lambda>(k, v). JArr [cbor_json k, cbor_json v]) ms)) \<le> m"
      using CMap.prems m by (auto intro: depth_Suc_le)
    then obtain p where m': "m = Suc p" "depth (JArr (map (\<lambda>(k, v). JArr [cbor_json k, cbor_json v]) ms)) \<le> Suc p"
      by (cases m) auto
    have "JArr [cbor_json k, cbor_json v] \<in> set (map (\<lambda>(k, v). JArr [cbor_json k, cbor_json v]) ms)"
      using that by force
    then have p: "m = Suc p" "depth (JArr [cbor_json k, cbor_json v]) \<le> p"
      using m' depth_Suc_le by blast+
    then obtain q where q: "p = Suc q" by (cases p) auto
    have D: "depth (JArr [cbor_json k, cbor_json v]) \<le> Suc q" using p(2) q by (simp only:)
    have "depth (cbor_json k) \<le> q" by (rule depth_Suc_le [OF _ D]) simp
    moreover have "depth (cbor_json v) \<le> q" by (rule depth_Suc_le [OF _ D]) simp
    ultimately show ?thesis using p(1) q by auto
  qed
  have "json_cbor m (cbor_json k) = Some k \<and> json_cbor m (cbor_json v) = Some v" if "(k, v) \<in> set ms" for k v
    using d [OF that] CMap.IH [OF that, of k] CMap.IH [OF that, of v] by auto
  then have "those (map (\<lambda>p. case p of JArr [k, v] \<Rightarrow> Option.bind (json_cbor m k) (\<lambda>k'. map_option (\<lambda>v'. (k', v')) (json_cbor m v)) | _ \<Rightarrow> None)
      (map (\<lambda>(k, v). JArr [cbor_json k, cbor_json v]) ms)) = Some ms"
    by (intro those_map_Some) auto
  then show ?case using m by simp
qed (auto dest!: Suc_lessD simp: Suc_le_eq gr0_conv_Suc)

lemma sample_cbor_codec: "sample_uncbor (sample_cbor v) = Some v"
proof -
  have "js_ok (cbor_json v)"
    by (induction v) (auto simp: list_all_iff)
  then have "sample_parse (sample_text (cbor_json v)) = Some (cbor_json v)"
    using sample_json_codec by (simp add: json_codec_def)
  then show ?thesis
    by (simp add: sample_uncbor_def sample_cbor_def json_cbor_json depth_le_text)
qed

section \<open>An environment\<close>

definition ok_resp :: json where
  "ok_resp = JObj [(''status'', JStr ''ok'')]"

definition sample_env :: env where
  "sample_env = \<lparr>en_prims = sample_prims 64,
     en_net = (\<lambda>k. \<lparr>nt_uuid = (\<lambda>_. ''u''), nt_frag_enc = sample_enc, nt_publish = (\<lambda>_ _ _. Inr ok_resp),
       nt_has_peer = (\<lambda>_ _. True), nt_read_ok = True, nt_write_ok = True\<rparr>),
     en_now = (\<lambda>k. 5), en_rand = (\<lambda>k n. replicate n (word_of_nat (k + 1))), en_uuid = (\<lambda>k. ''u''),
     en_read_ok = (\<lambda>_ _. True), en_write_ok = (\<lambda>_ _. True), en_connect = (\<lambda>_ _. Inr ok_resp), en_join = (\<lambda>_ _. Inr ok_resp),
     en_join_peers = (\<lambda>_ _ _. Inr ok_resp), en_list_peers = (\<lambda>_ _. Inr ok_resp), en_list_all = (\<lambda>_. Inr ok_resp),
     en_leave = (\<lambda>_ _. Inr ok_resp), en_recv = (\<lambda>_ _ _ _. Inr ok_resp), en_ticket = (\<lambda>_. Inr ok_resp),
     en_whoami = (\<lambda>_. Inr ok_resp), en_pubkeys = (\<lambda>_. Inr ok_resp),
     en_sign = (\<lambda>_ m. Inr (JObj [(''signature_hex'', JStr (ed_sign (ed_raw_sign (sample_prims 64)) m (replicate 32 0)))])),
     en_dh = (\<lambda>_ p. Inr (JObj [(''shared_b64'', JStr (of_bytes (x_dh (sample_prims 64) (replicate 32 0) p)))])),
     en_decaps = (\<lambda>_ c. Inr (JObj [(''shared_b64'', JStr (of_bytes (kem_decaps (sample_prims 64) (replicate 2400 0) c)))])),
     en_unpin = (\<lambda>_ _. Inr ok_resp), en_publish = (\<lambda>_ b. Inr (JObj [(''cid'', JStr (of_bytes b))])),
     en_fetch = (\<lambda>_ c. Inr (JObj [(''data'', JStr c)])), en_blob_add = (\<lambda>_ _. Inl (Error ''no provider'')),
     en_blob_fetch = (\<lambda>_ _. Inl (Error ''no provider'')), en_text = sample_text, en_parse = sample_parse, en_jstr = (\<lambda>s. s),
     en_b64url_enc = of_bytes, en_b64url_dec = (\<lambda>s. Some (as_bytes s)), en_frag_dec = sample_dec,
     en_gossip_send = (\<lambda>_ _ _ _ _ _. Inr ok_resp), en_transcode = (\<lambda>_ _ _. Inl (Error ''no provider'')),
     en_canvas = (\<lambda>_ _ _. None), en_iso = (\<lambda>_. ''1970-01-01T00:00:00.000Z''), en_today = (\<lambda>_. ''1970-01-01T00:00:00.000Z''),
     en_cbor = sample_cbor, en_uncbor = sample_uncbor, en_entries = (\<lambda>_ m. []), en_api_base = [], en_encode_uri = (\<lambda>c. c)\<rparr>"

definition sample_device :: device where
  "sample_device = \<lparr>dv_session = None, dv_contacts = None, dv_convs = (\<lambda>_. None), dv_ratchets = (\<lambda>_. None),
     dv_groups = None, dv_group_convs = (\<lambda>_. None), dv_declined = None, dv_peer_keys = None, dv_expiry = None,
     dv_outbox = None, dv_joined = [], dv_frags = (\<lambda>_. None), dv_cache = empty_cache,
     dv_social = no_social_files, dv_tick = 0\<rparr>"

end
