(* ===== verification/Contacts.thy ===== *)
theory Contacts
imports Samples
begin

text \<open>
  The contact list, the conversations, message expiry and the cache of peer keys of
  \<open>capsules/hey-core/src/api/dms.rs\<close>.
\<close>

section \<open>Files\<close>

definition CONTACTS_FILE :: string where "CONTACTS_FILE = ''dm/contacts.json''"
definition PEER_KEYS_FILE :: string where "PEER_KEYS_FILE = ''dm/peer-keys.json''"
definition EXPIRY_FILE :: string where "EXPIRY_FILE = ''dm/expiry.json''"

definition conv_path :: "string \<Rightarrow> string" where
  "conv_path did = ''dm/by-did/'' @ path_safe did @ ''.json''"

definition is_v2_active :: "dm_contact \<Rightarrow> bool" where
  "is_v2_active c = (ct_peer_pubkeys c \<noteq> None \<and> ct_their_inbound_queue c \<noteq> None \<and> ct_my_inbound_queue c \<noteq> None)"

definition is_legacy :: "dm_contact \<Rightarrow> bool" where
  "is_legacy c = (ct_my_inbound_queue c = None)"

definition list_contacts :: "env \<Rightarrow> dm_contact list io" where
  "list_contacts E = loadD E CONTACTS_FILE dv_contacts []"

definition write_contacts :: "env \<Rightarrow> dm_contact list \<Rightarrow> unit io" where
  "write_contacts E l = saveD E CONTACTS_FILE (\<lambda>d. d\<lparr>dv_contacts := Some l\<rparr>)"

definition read_conversation :: "env \<Rightarrow> string \<Rightarrow> dm_message list io" where
  "read_conversation E did = loadD E (conv_path did) (\<lambda>d. dv_convs d (conv_path did)) []"

definition write_conversation :: "env \<Rightarrow> string \<Rightarrow> dm_message list \<Rightarrow> unit io" where
  "write_conversation E did msgs = saveD E (conv_path did)
     (\<lambda>d. d\<lparr>dv_convs := (dv_convs d)(conv_path did := Some msgs)\<rparr>)"

section \<open>The contact list\<close>

definition find_did :: "string \<Rightarrow> dm_contact list \<Rightarrow> dm_contact option" where
  "find_did did l = find (\<lambda>c. ct_did c = did) l"

text \<open>\<open>iter_mut().find(..)\<close> and an assignment: the first element that fits is changed.\<close>

fun upd_first :: "('a \<Rightarrow> bool) \<Rightarrow> ('a \<Rightarrow> 'a) \<Rightarrow> 'a list \<Rightarrow> 'a list" where
  "upd_first p f [] = []"
| "upd_first p f (x # xs) = (if p x then f x # xs else x # upd_first p f xs)"

definition upd_did :: "string \<Rightarrow> (dm_contact \<Rightarrow> dm_contact) \<Rightarrow> dm_contact list \<Rightarrow> dm_contact list" where
  "upd_did did f l = upd_first (\<lambda>c. ct_did c = did) f l"

definition sort_contacts :: "dm_contact list \<Rightarrow> dm_contact list" where
  "sort_contacts l = sort_key (\<lambda>c. - ct_last_ts c) l"

definition find_contact :: "env \<Rightarrow> string \<Rightarrow> dm_contact option io" where
  "find_contact E did = bindD (list_contacts E) (\<lambda>l. retD (find_did did l))"

definition inherit_from :: "dm_contact \<Rightarrow> dm_contact \<Rightarrow> dm_contact" where
  "inherit_from existing c = (let
     c1 = (if ct_last_ts c = 0 then c\<lparr>ct_last_ts := ct_last_ts existing\<rparr> else c);
     c2 = (if ct_last_preview c1 = [] then c1\<lparr>ct_last_preview := ct_last_preview existing\<rparr> else c1)
     in if ct_name c2 = [] then c2\<lparr>ct_name := ct_name existing\<rparr> else c2)"

definition upsert_contact_record :: "env \<Rightarrow> dm_contact \<Rightarrow> dm_contact io" where
  "upsert_contact_record E contact = bindD (list_contacts E) (\<lambda>l.
     let (updated, l') = (case find_did (ct_did contact) l of
           Some existing \<Rightarrow> let u = inherit_from existing contact in (u, upd_did (ct_did contact) (\<lambda>_. u) l)
         | None \<Rightarrow> (contact, l @ [contact]))
     in bindD (write_contacts E (sort_contacts l')) (\<lambda>_. retD updated))"

definition legacy_contact :: "string \<Rightarrow> string \<Rightarrow> int \<Rightarrow> nat \<Rightarrow> dm_contact" where
  "legacy_contact did preview ts inc_unread = \<lparr>ct_did = did, ct_name = [], ct_last_ts = ts,
     ct_last_preview = take_chars 140 preview, ct_unread = inc_unread, ct_my_inbound_queue = None,
     ct_my_recv_pseudonym = None, ct_their_inbound_queue = None, ct_my_send_pseudonym = None,
     ct_peer_ticket = None, ct_peer_pubkeys = None, ct_status = Active, ct_mode = Regular,
     ct_anon_identity = None, ct_ratchet_capable = False, ct_key_verified = True,
     ct_my_queue_rotated_at = 0, ct_my_queue_msg_count = 0, ct_retired_queues = []\<rparr>"

definition touched :: "string \<Rightarrow> int \<Rightarrow> nat \<Rightarrow> dm_contact \<Rightarrow> dm_contact" where
  "touched preview ts inc_unread c = c\<lparr>ct_last_ts := ts, ct_last_preview := take_chars 140 preview,
     ct_unread := sat_add32 (ct_unread c) inc_unread\<rparr>"

definition touch_contact_message :: "env \<Rightarrow> string \<Rightarrow> string \<Rightarrow> int \<Rightarrow> nat \<Rightarrow> unit io" where
  "touch_contact_message E did preview ts inc_unread = bindD (list_contacts E) (\<lambda>l.
     let l' = (if find_did did l \<noteq> None then upd_did did (touched preview ts inc_unread) l
               else l @ [legacy_contact did preview ts inc_unread])
     in write_contacts E (sort_contacts l'))"

definition mark_read :: "env \<Rightarrow> string \<Rightarrow> unit io" where
  "mark_read E did = bindD (list_contacts E) (\<lambda>l.
     if find_did did l \<noteq> None
     then ignoreD (write_contacts E (upd_did did (\<lambda>c. c\<lparr>ct_unread := 0\<rparr>) l)) else retD ())"

definition total_unread :: "env \<Rightarrow> nat io" where
  "total_unread E = bindD (list_contacts E) (\<lambda>l. retD (sum_list (map ct_unread l) mod 2 ^ 32))"

section \<open>Expiry\<close>

definition read_expiry :: "env \<Rightarrow> (string \<Rightarrow> int option) io" where
  "read_expiry E = loadD E EXPIRY_FILE dv_expiry (\<lambda>_. None)"

definition write_expiry :: "env \<Rightarrow> (string \<Rightarrow> int option) \<Rightarrow> unit io" where
  "write_expiry E m = saveD E EXPIRY_FILE (\<lambda>d. d\<lparr>dv_expiry := Some m\<rparr>)"

definition get_expiry_secs :: "env \<Rightarrow> string \<Rightarrow> int io" where
  "get_expiry_secs E did = bindD (read_expiry E) (\<lambda>m. retD (case m did of Some s \<Rightarrow> s | None \<Rightarrow> 0))"

definition set_expiry_secs :: "env \<Rightarrow> string \<Rightarrow> int \<Rightarrow> unit io" where
  "set_expiry_secs E did secs = bindD (read_expiry E) (\<lambda>m.
     write_expiry E (if secs \<le> 0 then m(did := None) else m(did := Some secs)))"

text \<open>Arithmetic of \<open>i64\<close> wraps in the release profile.\<close>

definition i64 :: "int \<Rightarrow> int" where
  "i64 x = (x + 2 ^ 63) mod 2 ^ 64 - 2 ^ 63"

definition prune_expired :: "env \<Rightarrow> string \<Rightarrow> unit io" where
  "prune_expired E did = bindD (get_expiry_secs E did) (\<lambda>ttl.
     if ttl \<le> 0 then retD ()
     else bindD (nowD E) (\<lambda>now. let cutoff = i64 (now - i64 (ttl * 1000)) in
       bindD (read_conversation E did) (\<lambda>conv.
       if list_ex (\<lambda>m. ms_ts m < cutoff) conv
       then ignoreD (write_conversation E did (filter (\<lambda>m. ms_ts m \<ge> cutoff) conv))
       else retD ())))"

section \<open>Peer keys\<close>

definition read_peer_keys :: "env \<Rightarrow> (string \<Rightarrow> peer_keys option) io" where
  "read_peer_keys E = loadD E PEER_KEYS_FILE dv_peer_keys (\<lambda>_. None)"

definition write_peer_keys :: "env \<Rightarrow> (string \<Rightarrow> peer_keys option) \<Rightarrow> unit io" where
  "write_peer_keys E m = saveD E PEER_KEYS_FILE (\<lambda>d. d\<lparr>dv_peer_keys := Some m\<rparr>)"

definition cache_peer_keys :: "env \<Rightarrow> string \<Rightarrow> peer_keys \<Rightarrow> unit io" where
  "cache_peer_keys E did keys = bindD (read_peer_keys E) (\<lambda>m. ignoreD (write_peer_keys E (m(did := Some keys))))"

definition get_peer_keys :: "env \<Rightarrow> string \<Rightarrow> peer_keys option io" where
  "get_peer_keys E did = bindD (read_peer_keys E) (\<lambda>m. retD (m did))"

definition data_of :: "json \<Rightarrow> json" where
  "data_of rsp = (case j_get ''data'' rsp of Some d \<Rightarrow> d | None \<Rightarrow> rsp)"

definition my_pubkeys :: "env \<Rightarrow> peer_keys option io" where
  "my_pubkeys E = bindD (okD (callD (en_pubkeys E))) (\<lambda>r. retD (do {
     rsp \<leftarrow> r;
     x \<leftarrow> j_get_str ''x25519_pub_b64'' (data_of rsp);
     k \<leftarrow> j_get_str ''ml_kem_pub_b64'' (data_of rsp);
     Some \<lparr>pk_x25519 = x, pk_ml_kem = k\<rparr> }))"

definition pin_dm_message :: "env \<Rightarrow> string \<Rightarrow> string \<Rightarrow> bool \<Rightarrow> unit io" where
  "pin_dm_message E did message_id pinned = bindD (read_conversation E did) (\<lambda>conv.
     if list_ex (\<lambda>m. ms_id m = message_id) conv
     then write_conversation E did (upd_first (\<lambda>m. ms_id m = message_id) (\<lambda>m. m\<lparr>ms_pinned := pinned\<rparr>) conv)
     else failD ''no such message'')"

section \<open>The session\<close>

text \<open>\<open>ensure_profile\<close> of \<open>api/profile.rs\<close>: the DID and the name of the session.\<close>

definition ensure_profile :: "(string \<times> string) io" where
  "ensure_profile d = (case dv_session d of Some s \<Rightarrow> (Inr (ss_did_key s, ss_name s), d)
     | None \<Rightarrow> (Inl (Error ''Not signed in''), d))"

definition my_did_or_empty :: "string io" where
  "my_did_or_empty = bindD (okD ensure_profile) (\<lambda>p. retD (case p of Some (did, _) \<Rightarrow> did | None \<Rightarrow> []))"

definition short_did_label :: "string \<Rightarrow> string res" where
  "short_did_label did = (if length did > 12
     then bindR (str_slice did (length did - 6) (length did)) (\<lambda>t. Inr (''hey-'' @ t)) else Inr did)"

definition adopt_provider_identity :: "env \<Rightarrow> string option io" where
  "adopt_provider_identity E = bindD (okD (callD (en_whoami E))) (\<lambda>r.
     case Option.bind r (\<lambda>rsp. j_get_str ''did_key'' (data_of rsp)) of
       None \<Rightarrow> retD None
     | Some did \<Rightarrow> if \<not> starts_with did ''did:key:z'' then retD None
         else bindD (getD dv_session) (\<lambda>s.
           bindD (case s of
               Some cur \<Rightarrow> if ss_name cur = [] then liftD (short_did_label did) else retD (ss_name cur)
             | None \<Rightarrow> liftD (short_did_label did)) (\<lambda>name.
           bindD (modD (\<lambda>d. d\<lparr>dv_session := Some \<lparr>ss_auth_key_hex = [], ss_did_key = did, ss_name = name,
                ss_kem_secret = [], ss_kem_public = []\<rparr>\<rparr>)) (\<lambda>_. retD (Some did)))))"

section \<open>Lemmas: keyed lists\<close>

lemma find_upd_first_same: "(\<And>x. p x \<Longrightarrow> p (f x)) \<Longrightarrow> find p (upd_first p f xs) = map_option f (find p xs)"
  by (induction xs) auto

lemma find_upd_first_other:
  "(\<And>x. p x \<Longrightarrow> \<not> q x \<and> \<not> q (f x)) \<Longrightarrow> find q (upd_first p f xs) = find q xs"
  by (induction xs) auto

lemma map_upd_first: "(\<And>x. p x \<Longrightarrow> g (f x) = g x) \<Longrightarrow> map g (upd_first p f xs) = map g xs"
  by (induction xs) auto

lemma upd_first_none: "find p xs = None \<Longrightarrow> upd_first p f xs = xs"
  by (induction xs) (auto split: if_splits)

lemma length_upd_first [simp]: "length (upd_first p f xs) = length xs"
  by (induction xs) auto

lemma in_upd_first: "x \<in> set (upd_first p f xs) \<Longrightarrow> x \<in> set xs \<or> (\<exists>y \<in> set xs. p y \<and> find p xs = Some y \<and> x = f y)"
  by (induction xs) (auto split: if_splits)

interpretation contacts: keyed_store ct_did find_did upd_did
proof
  fix k s r assume "find_did k s = Some r"
  then show "ct_did r = k" by (auto simp: find_did_def find_Some_iff)
next
  fix f :: "dm_contact \<Rightarrow> dm_contact" and j k s
  assume k: "\<And>r. ct_did (f r) = ct_did r"
  show "find_did j (upd_did k f s) = (if j = k then map_option f (find_did k s) else find_did j s)"
    using find_upd_first_same [of "\<lambda>c. ct_did c = k" f s]
      find_upd_first_other [of "\<lambda>c. ct_did c = k" "\<lambda>c. ct_did c = j" f s] k
    by (auto simp: find_did_def upd_did_def)
qed

lemma find_did_Some: "find_did k l = Some c \<Longrightarrow> c \<in> set l \<and> ct_did c = k"
  by (auto simp: find_did_def find_Some_iff)

lemma find_did_None: "find_did k l = None \<longleftrightarrow> k \<notin> ct_did ` set l"
  by (auto simp: find_did_def find_None_iff)

lemma find_did_distinct: "distinct (map ct_did l) \<Longrightarrow> find_did k l = Some c \<longleftrightarrow> c \<in> set l \<and> ct_did c = k"
proof (induction l)
  case (Cons a l)
  then show ?case by (auto simp: find_did_def image_iff)
qed (simp add: find_did_def)

lemma find_did_set_eq:
  assumes "distinct (map ct_did l)" "distinct (map ct_did l')" "set l = set l'"
  shows "find_did k l = find_did k l'"
proof (cases "find_did k l")
  case None
  then show ?thesis using assms(3) by (metis find_did_None)
next
  case (Some c)
  then show ?thesis using find_did_distinct [OF assms(1)] find_did_distinct [OF assms(2)] assms(3) by metis
qed

lemma sort_contacts_set [simp]: "set (sort_contacts l) = set l"
  by (simp add: sort_contacts_def)

lemma sort_contacts_distinct [simp]: "distinct (map ct_did (sort_contacts l)) \<longleftrightarrow> distinct (map ct_did l)"
proof -
  have "mset (map ct_did (sort_contacts l)) = mset (map ct_did l)" by (simp add: sort_contacts_def)
  then show ?thesis by (metis mset_eq_imp_distinct_iff)
qed

lemma find_did_sort: "distinct (map ct_did l) \<Longrightarrow> find_did k (sort_contacts l) = find_did k l"
  by (rule find_did_set_eq) simp_all

definition contacts_wf :: "dm_contact list \<Rightarrow> bool" where
  "contacts_wf l = (distinct (map ct_did l) \<and> sorted_wrt (\<lambda>a b. ct_last_ts b \<le> ct_last_ts a) l)"

definition contacts_of :: "device \<Rightarrow> dm_contact list" where
  "contacts_of d = (case dv_contacts d of Some l \<Rightarrow> l | None \<Rightarrow> [])"

definition conv_of :: "device \<Rightarrow> string \<Rightarrow> dm_message list" where
  "conv_of d did = (case dv_convs d (conv_path did) of Some l \<Rightarrow> l | None \<Rightarrow> [])"

definition storage_ok :: "env \<Rightarrow> bool" where
  "storage_ok E = ((\<forall>k p. en_read_ok E k p) \<and> (\<forall>k p. en_write_ok E k p))"

lemma contacts_of_simps [simp]: "contacts_of (d\<lparr>dv_contacts := Some l\<rparr>) = l"
  "contacts_of (d\<lparr>dv_tick := k\<rparr>) = contacts_of d" "contacts_of (d\<lparr>dv_outbox := ob\<rparr>) = contacts_of d"
  "contacts_of (d\<lparr>dv_joined := ts\<rparr>) = contacts_of d" "contacts_of (d\<lparr>dv_convs := cv\<rparr>) = contacts_of d"
  "contacts_of (d\<lparr>dv_ratchets := rt\<rparr>) = contacts_of d" "contacts_of (d\<lparr>dv_groups := gs\<rparr>) = contacts_of d"
  by (simp_all add: contacts_of_def)

lemma run_store [run]:
  assumes "storage_ok E"
  shows "loadD E path f dflt d = (Inr (case f d of Some x \<Rightarrow> x | None \<Rightarrow> dflt), d)"
    "saveD E path g d = (Inr (), g d)"
  using assms by (simp_all add: loadD_def saveD_def storage_ok_def)

lemma run_contacts [run]:
  assumes "storage_ok E"
  shows "list_contacts E d = (Inr (contacts_of d), d)" "write_contacts E l d = (Inr (), d\<lparr>dv_contacts := Some l\<rparr>)"
    "find_contact E did d = (Inr (find_did did (contacts_of d)), d)"
    "read_conversation E did d = (Inr (conv_of d did), d)"
    "write_conversation E did ms d = (Inr (), d\<lparr>dv_convs := (dv_convs d)(conv_path did := Some ms)\<rparr>)"
  by (simp_all add: list_contacts_def write_contacts_def find_contact_def read_conversation_def
      write_conversation_def contacts_of_def conv_of_def run_store [OF assms] run)

lemma inherit_did [simp]: "ct_did (inherit_from e c) = ct_did c"
  by (simp add: inherit_from_def Let_def)

lemma distinct_upd_did: "(\<And>c. ct_did c = did \<Longrightarrow> ct_did (f c) = did) \<Longrightarrow> distinct (map ct_did (upd_did did f l)) = distinct (map ct_did l)"
  unfolding upd_did_def by (subst map_upd_first) auto

lemma find_did_append: "find_did k (l @ [c]) = (case find_did k l of Some x \<Rightarrow> Some x | None \<Rightarrow> if ct_did c = k then Some c else None)"
  by (induction l) (auto simp: find_did_def)

lemma find_upd_const: "ct_did u = did \<Longrightarrow> find_did k (upd_did did (\<lambda>_. u) l) =
    (if k = did \<and> find_did did l \<noteq> None then Some u else find_did k l)"
  unfolding upd_did_def find_did_def by (induction l) auto

lemma sort_contacts_wf: "distinct (map ct_did l) \<Longrightarrow> contacts_wf (sort_contacts l)"
proof -
  have "sorted_wrt (\<lambda>a b. - ct_last_ts a \<le> - ct_last_ts b) (sort_contacts l)"
    using sorted_sort_key [of "\<lambda>c. - ct_last_ts c" l] by (simp add: sort_contacts_def sorted_map)
  then show "distinct (map ct_did l) \<Longrightarrow> contacts_wf (sort_contacts l)"
    by (simp add: contacts_wf_def)
qed

lemma find_did_upd [simp]: "(\<And>c. ct_did (f c) = ct_did c) \<Longrightarrow>
    find_did j (upd_did k f l) = (if j = k then map_option f (find_did k l) else find_did j l)"
  by (rule contacts.get_upd)

section \<open>Properties\<close>

text \<open>C24. Saving a contact answers with the saved record, which inherits the time, preview and name
  it does not bring; the list stays free of duplicates and ordered by recency, every other
  contact is unchanged, and nothing but the contact file is touched.\<close>

theorem upsert_contact_book:
  assumes "storage_ok E" "distinct (map ct_did (contacts_of d))"
  shows "\<exists>u l. upsert_contact_record E c d = (Inr u, d\<lparr>dv_contacts := Some l\<rparr>) \<and> contacts_wf l \<and>
     u = (case find_did (ct_did c) (contacts_of d) of Some e \<Rightarrow> inherit_from e c | None \<Rightarrow> c) \<and>
     (\<forall>k. find_did k l = (if k = ct_did c then Some u else find_did k (contacts_of d)))"
proof (cases "find_did (ct_did c) (contacts_of d)")
  case None
  then have "distinct (map ct_did (contacts_of d @ [c]))" using assms(2) by (auto simp: find_did_None)
  then have "contacts_wf (sort_contacts (contacts_of d @ [c]))"
      "find_did k (sort_contacts (contacts_of d @ [c])) = find_did k (contacts_of d @ [c])" for k
    by (simp_all add: sort_contacts_wf find_did_sort)
  then show ?thesis using None
    by (auto simp: upsert_contact_record_def run run_contacts [OF assms(1)] find_did_append split: option.splits)
next
  case (Some e)
  let ?u = "inherit_from e c"
  have "distinct (map ct_did (upd_did (ct_did c) (\<lambda>_. ?u) (contacts_of d)))"
    using assms(2) by (subst distinct_upd_did) auto
  then have "contacts_wf (sort_contacts (upd_did (ct_did c) (\<lambda>_. ?u) (contacts_of d)))"
      "find_did k (sort_contacts (upd_did (ct_did c) (\<lambda>_. ?u) (contacts_of d))) =
         find_did k (upd_did (ct_did c) (\<lambda>_. ?u) (contacts_of d))" for k
    by (simp_all add: sort_contacts_wf find_did_sort)
  then show ?thesis using Some
    by (auto simp: upsert_contact_record_def Let_def run run_contacts [OF assms(1)] find_upd_const)
qed

text \<open>C25. When the contact file cannot be read at the moment a contact is saved but can be written,
  every other contact is lost: the new file holds the saved contact only.\<close>

theorem read_failure_loses_contacts:
  assumes "\<not> en_read_ok E (dv_tick d) CONTACTS_FILE" "en_write_ok E (dv_tick d) CONTACTS_FILE"
  shows "upsert_contact_record E c d = (Inr c, d\<lparr>dv_contacts := Some [c]\<rparr>)"
  using assms
  by (simp add: upsert_contact_record_def list_contacts_def write_contacts_def loadD_def saveD_def bindD_def
      find_did_def sort_contacts_def retD_def)

text \<open>Disappearing messages: pruning a conversation whose expiry is \<open>s\<close> seconds keeps, in
  order, exactly the messages of the last \<open>s\<close> seconds, and never any of another conversation's file.\<close>

theorem prune_keeps_recent:
  assumes "storage_ok E" "dv_expiry d = Some m" "m did = Some s" "0 < s" "s < 2 ^ 50"
    and "0 \<le> en_now E (dv_tick d)" "en_now E (dv_tick d) < 2 ^ 62"
  shows "\<exists>d'. prune_expired E did d = (Inr (), d') \<and>
     conv_of d' did = filter (\<lambda>x. en_now E (dv_tick d) - s * 1000 \<le> ms_ts x) (conv_of d did) \<and>
     (\<forall>p. p \<noteq> conv_path did \<longrightarrow> dv_convs d' p = dv_convs d p)"
proof -
  let ?cut = "en_now E (dv_tick d) - s * 1000"
  have c: "i64 (en_now E (dv_tick d) - i64 (s * 1000)) = ?cut"
    using assms(4-7) by (simp add: i64_def)
  have e: "get_expiry_secs E did d = (Inr s, d)"
    using assms(2,3) by (simp add: get_expiry_secs_def read_expiry_def run run_store [OF assms(1)])
  have p: "prune_expired E did d = (if list_ex (\<lambda>x. ms_ts x < ?cut) (conv_of d did)
      then (Inr (), d\<lparr>dv_convs := (dv_convs d)(conv_path did := Some (filter (\<lambda>x. ?cut \<le> ms_ts x) (conv_of d did)))\<rparr>)
      else (Inr (), d))"
    using assms(4) c by (simp add: prune_expired_def run e run_contacts [OF assms(1)] nowD_def ignoreD_def okD_def Let_def)
  show ?thesis
  proof (cases "list_ex (\<lambda>x. ms_ts x < ?cut) (conv_of d did)")
    case True
    then show ?thesis using p by (simp add: conv_of_def)
  next
    case False
    then have "filter (\<lambda>x. ?cut \<le> ms_ts x) (conv_of d did) = conv_of d did"
      by (simp add: list_ex_iff filter_id_conv) (metis not_less)
    then show ?thesis using p False by simp
  qed
qed

section \<open>Witnesses\<close>

lemma sample_storage_ok: "storage_ok sample_env"
  by (simp add: storage_ok_def sample_env_def)

lemma sample_device_files [simp]: "contacts_of sample_device = []" "conv_of sample_device did = []" "dv_tick sample_device = 0"
  by (simp_all add: contacts_of_def conv_of_def sample_device_def)

theorem upsert_contact_book_witness:
  "\<exists>u l. upsert_contact_record sample_env (legacy_contact ''a'' ''hi'' 3 1) sample_device =
     (Inr u, sample_device\<lparr>dv_contacts := Some l\<rparr>) \<and> contacts_wf l \<and> find_did ''a'' l = Some u"
  using upsert_contact_book [OF sample_storage_ok, of sample_device "legacy_contact ''a'' ''hi'' 3 1"]
  by (fastforce simp: legacy_contact_def)

theorem read_failure_loses_contacts_witness:
  "\<exists>d'. upsert_contact_record (sample_env\<lparr>en_read_ok := (\<lambda>_ _. False)\<rparr>) (legacy_contact ''a'' ''hi'' 3 1)
     (sample_device\<lparr>dv_contacts := Some [legacy_contact ''b'' ''yo'' 2 0]\<rparr>) = (Inr (legacy_contact ''a'' ''hi'' 3 1), d') \<and>
     contacts_of d' = [legacy_contact ''a'' ''hi'' 3 1]"
  by (subst read_failure_loses_contacts) (simp_all add: sample_env_def)

definition sample_expiring :: device where
  "sample_expiring = sample_device\<lparr>dv_expiry := Some [''a'' \<mapsto> 3],
     dv_convs := [conv_path ''a'' \<mapsto> [\<lparr>ms_id = ''1'', ms_text = ''x'', ms_ts = 5999, ms_mine = True, ms_encrypted = True,
       ms_attachments = [], ms_sender_name = [], ms_pinned = False\<rparr>]]\<rparr>"

theorem prune_keeps_recent_witness:
  "\<exists>d'. prune_expired (sample_env\<lparr>en_now := (\<lambda>_. 9000)\<rparr>) ''a'' sample_expiring = (Inr (), d') \<and> conv_of d' ''a'' = []"
proof -
  let ?E = "sample_env\<lparr>en_now := (\<lambda>_. 9000)\<rparr>"
  have E: "storage_ok ?E" "en_now ?E k = 9000" for k using sample_storage_ok by (simp_all add: storage_ok_def)
  have d: "dv_expiry sample_expiring = Some [''a'' \<mapsto> 3]" by (simp add: sample_expiring_def)
  have c: "filter (\<lambda>x. 6000 \<le> ms_ts x) (conv_of sample_expiring ''a'') = []"
    by (simp add: sample_expiring_def conv_of_def)
  show ?thesis using prune_keeps_recent [OF E(1) d, of "''a''" 3] c by (simp add: E(2)) blast
qed

end
