(* ===== verification/Carrier.thy ===== *)
theory Carrier
imports Samples
begin

text \<open>
  The client of the carrier (module \<open>peer\<close> of \<open>capsules/hey-core/src/runtime.rs\<close>): dialling
  tickets, joining a topic, and waiting until a neighbour on the topic is confirmed. The
  answers of the carrier itself are functions of the environment; sleeping between two
  attempts is not a step of the model.
\<close>

section \<open>Reading answers\<close>

definition or_else :: "'a option \<Rightarrow> 'a option \<Rightarrow> 'a option" where
  "or_else x y = (case x of Some v \<Rightarrow> Some v | None \<Rightarrow> y)"

definition under_data :: "string \<Rightarrow> json \<Rightarrow> json option" where
  "under_data k v = or_else (Option.bind (j_get ''data'' v) (j_get k)) (j_get k v)"

definition connected_ids :: "json \<Rightarrow> string list" where
  "connected_ids rsp = (case Option.bind (under_data ''connected'' rsp) j_arr of
     Some l \<Rightarrow> List.map_filter j_str l | None \<Rightarrow> [])"

definition lists_peer :: "json \<Rightarrow> bool" where
  "lists_peer rsp = (case Option.bind (under_data ''peers'' rsp) j_arr of Some l \<Rightarrow> l \<noteq> [] | None \<Rightarrow> False)"

section \<open>Operations\<close>

definition connect :: "env \<Rightarrow> string \<Rightarrow> json io" where
  "connect E ticket = callD (\<lambda>k. en_connect E k ticket)"

definition list_topic_peers :: "env \<Rightarrow> string \<Rightarrow> json io" where
  "list_topic_peers E topic = callD (\<lambda>k. en_list_peers E k topic)"

definition has_topic_peer :: "env \<Rightarrow> string \<Rightarrow> bool io" where
  "has_topic_peer E topic = bindD (okD (list_topic_peers E topic)) (\<lambda>r.
     retD (case r of Some rsp \<Rightarrow> lists_peer rsp | None \<Rightarrow> False))"

fun dial :: "env \<Rightarrow> string list \<Rightarrow> string list io" where
  "dial E [] = retD []"
| "dial E (t # ts) = bindD (okD (connect E t)) (\<lambda>r. bindD (dial E ts) (\<lambda>ids.
     retD ((case r of Some rsp \<Rightarrow> connected_ids rsp | None \<Rightarrow> []) @ ids)))"

definition graft :: "env \<Rightarrow> string \<Rightarrow> string list \<Rightarrow> unit io" where
  "graft E topic ids = (if ids = [] then retD () else ignoreD (callD (\<lambda>k. en_join_peers E k topic ids)))"

text \<open>The loop of \<open>wait_for_topic_peers\<close>; the number counts the attempts left.\<close>

fun wait_loop :: "env \<Rightarrow> string \<Rightarrow> string list \<Rightarrow> nat \<Rightarrow> bool io" where
  "wait_loop E topic boot 0 = retD False"
| "wait_loop E topic boot (Suc n) = bindD (dial E boot) (\<lambda>ids. bindD (graft E topic ids) (\<lambda>_.
     bindD (has_topic_peer E topic) (\<lambda>up. if up then retD True else wait_loop E topic boot n)))"

definition wait_for_topic_peers :: "env \<Rightarrow> string \<Rightarrow> string list \<Rightarrow> bool io" where
  "wait_for_topic_peers E topic bootstrap = (let boot = filter (\<lambda>s. s \<noteq> []) bootstrap in
     if boot = [] then retD False else wait_loop E topic boot 20)"

definition join_topic_with :: "env \<Rightarrow> string \<Rightarrow> string list \<Rightarrow> json io" where
  "join_topic_with E topic bootstrap = (let boot = filter (\<lambda>s. s \<noteq> []) bootstrap in
     bindD (forD (\<lambda>t. ignoreD (connect E t)) boot) (\<lambda>_.
     bindD (tryD (callD (\<lambda>k. en_join E k topic))) (\<lambda>joined.
     bindD (if boot \<noteq> [] then bindD (wait_for_topic_peers E topic boot) (\<lambda>_. retD ()) else retD ()) (\<lambda>_.
     liftD joined))))"

definition join_topic :: "env \<Rightarrow> string \<Rightarrow> json io" where
  "join_topic E topic = join_topic_with E topic []"

fun regraft :: "env \<Rightarrow> string \<Rightarrow> string list \<Rightarrow> unit io" where
  "regraft E topic [] = retD ()"
| "regraft E topic (t # ts) = (if t = [] then regraft E topic ts
     else bindD (okD (connect E t)) (\<lambda>r. bindD (case r of Some rsp \<Rightarrow> graft E topic (connected_ids rsp) | None \<Rightarrow> retD ())
       (\<lambda>_. regraft E topic ts)))"

definition leave_topic :: "env \<Rightarrow> string \<Rightarrow> json io" where
  "leave_topic E topic = callD (\<lambda>k. en_leave E k topic)"

definition my_ticket :: "env \<Rightarrow> string option io" where
  "my_ticket E = bindD (okD (callD (en_ticket E))) (\<lambda>r. retD (case Option.bind r (\<lambda>rsp.
       Option.bind (or_else (j_get ''ticket'' rsp) (Option.bind (j_get ''data'' rsp) (j_get ''ticket''))) j_str) of
     Some t \<Rightarrow> if t = [] then None else Some t | None \<Rightarrow> None))"

section \<open>Health\<close>

record carrier_health =
  hl_online :: bool
  hl_node_id :: string
  hl_peer_count :: nat

definition carrier_health_now :: "env \<Rightarrow> carrier_health io" where
  "carrier_health_now E = bindD (okD (callD (en_ticket E))) (\<lambda>r. let
     nid = (case Option.bind r (\<lambda>rsp. Option.bind (or_else (j_get ''node_id'' rsp)
              (Option.bind (j_get ''data'' rsp) (j_get ''node_id''))) j_str) of Some s \<Rightarrow> s | None \<Rightarrow> []) in
     if nid = [] then retD \<lparr>hl_online = False, hl_node_id = [], hl_peer_count = 0\<rparr>
     else bindD (okD (callD (en_list_all E))) (\<lambda>l. retD \<lparr>hl_online = True, hl_node_id = nid,
       hl_peer_count = (case Option.bind (Option.bind l (under_data ''peers'')) j_arr of Some a \<Rightarrow> length a | None \<Rightarrow> 0)\<rparr>))"

section \<open>Lemmas\<close>

text \<open>No answer of the carrier is a panic.\<close>

definition carrier_calm :: "env \<Rightarrow> bool" where
  "carrier_calm E = ((\<forall>k t. \<not> is_panic (en_connect E k t)) \<and> (\<forall>k t. \<not> is_panic (en_list_peers E k t)) \<and>
     (\<forall>k t l. \<not> is_panic (en_join_peers E k t l)) \<and> (\<forall>k t. \<not> is_panic (en_join E k t)))"

lemma okD_call:
  "\<not> is_panic (f (dv_tick d)) \<Longrightarrow> okD (callD f) d =
     (Inr (case f (dv_tick d) of Inr x \<Rightarrow> Some x | Inl _ \<Rightarrow> None), d\<lparr>dv_tick := dv_tick d + 1\<rparr>)"
  by (auto simp: okD_def callD_def split: sum.split fault.split)

lemma okD_runs:
  assumes "\<And>k. \<not> is_panic (f k)"
  obtains r where "okD (callD f) d = (Inr r, d\<lparr>dv_tick := dv_tick d + 1\<rparr>)"
  using okD_call [of f d] assms by blast

lemma dial_runs:
  assumes "carrier_calm E"
  shows "\<exists>ids k. dial E ts d = (Inr ids, d\<lparr>dv_tick := k\<rparr>) \<and> dv_tick d + length ts \<le> k"
proof (induction ts arbitrary: d)
  case Nil
  have "dial E [] d = (Inr [], d\<lparr>dv_tick := dv_tick d\<rparr>)" by (simp add: run)
  then show ?case by force
next
  case (Cons t ts)
  obtain r where r: "okD (connect E t) d = (Inr r, d\<lparr>dv_tick := dv_tick d + 1\<rparr>)"
    unfolding connect_def by (rule okD_runs [of "\<lambda>k. en_connect E k t" d]) (use assms in \<open>simp add: carrier_calm_def\<close>)
  obtain ids k where k: "dial E ts (d\<lparr>dv_tick := dv_tick d + 1\<rparr>) = (Inr ids, d\<lparr>dv_tick := k\<rparr>)" "dv_tick d + 1 + length ts \<le> k"
    using Cons.IH [of "d\<lparr>dv_tick := dv_tick d + 1\<rparr>"] by auto
  have "dial E (t # ts) d = (Inr ((case r of Some rsp \<Rightarrow> connected_ids rsp | None \<Rightarrow> []) @ ids), d\<lparr>dv_tick := k\<rparr>)"
    using r k(1) by (simp add: run)
  moreover have "dv_tick d + length (t # ts) \<le> k" using k(2) by simp
  ultimately show ?case by blast
qed

lemma graft_runs:
  assumes "carrier_calm E"
  shows "\<exists>k. graft E topic ids d = (Inr (), d\<lparr>dv_tick := k\<rparr>) \<and> dv_tick d \<le> k"
proof (cases "ids = []")
  case True
  then have "graft E topic ids d = (Inr (), d\<lparr>dv_tick := dv_tick d\<rparr>)" by (simp add: graft_def run)
  then show ?thesis by blast
next
  case False
  obtain r where r: "okD (callD (\<lambda>k. en_join_peers E k topic ids)) d = (Inr r, d\<lparr>dv_tick := dv_tick d + 1\<rparr>)"
    by (rule okD_runs [of "\<lambda>k. en_join_peers E k topic ids" d]) (use assms in \<open>simp add: carrier_calm_def\<close>)
  then have "graft E topic ids d = (Inr (), d\<lparr>dv_tick := dv_tick d + 1\<rparr>)"
    using False by (simp add: graft_def ignoreD_def run)
  then show ?thesis by (metis le_add1)
qed

text \<open>\<open>neighbour_at E topic k\<close>: asked as the \<open>k\<close>-th question, the carrier lists a neighbour.\<close>

definition neighbour_at :: "env \<Rightarrow> string \<Rightarrow> nat \<Rightarrow> bool" where
  "neighbour_at E topic k = (case en_list_peers E k topic of Inr rsp \<Rightarrow> lists_peer rsp | Inl _ \<Rightarrow> False)"

lemma has_topic_peer_runs:
  assumes "carrier_calm E"
  shows "has_topic_peer E topic d = (Inr (neighbour_at E topic (dv_tick d)), d\<lparr>dv_tick := dv_tick d + 1\<rparr>)"
  using okD_call [of "\<lambda>k. en_list_peers E k topic" d] assms
  by (auto simp: has_topic_peer_def list_topic_peers_def neighbour_at_def carrier_calm_def run split: sum.split)

lemma wait_loop_confirms:
  assumes "carrier_calm E"
  shows "\<exists>up k. wait_loop E topic boot n d = (Inr up, d\<lparr>dv_tick := k\<rparr>) \<and>
    (up \<longrightarrow> (\<exists>j \<ge> dv_tick d. neighbour_at E topic j)) \<and>
    (n > 0 \<longrightarrow> (\<forall>j \<ge> dv_tick d + n - 1. neighbour_at E topic j) \<longrightarrow> up)"
proof (induction n arbitrary: d)
  case 0
  have "wait_loop E topic boot 0 d = (Inr False, d\<lparr>dv_tick := dv_tick d\<rparr>)" by (simp add: run)
  then show ?case by blast
next
  case (Suc n)
  obtain ids k where k: "dial E boot d = (Inr ids, d\<lparr>dv_tick := k\<rparr>)" "dv_tick d \<le> k"
    using dial_runs [OF assms, of boot d] by force
  obtain l where l: "graft E topic ids (d\<lparr>dv_tick := k\<rparr>) = (Inr (), d\<lparr>dv_tick := l\<rparr>)" "k \<le> l"
    using graft_runs [OF assms, of topic ids "d\<lparr>dv_tick := k\<rparr>"] by auto
  let ?d = "d\<lparr>dv_tick := l + 1\<rparr>"
  have step: "wait_loop E topic boot (Suc n) d = (if neighbour_at E topic l then (Inr True, ?d) else wait_loop E topic boot n ?d)"
    using k(1) l(1) has_topic_peer_runs [OF assms, of topic "d\<lparr>dv_tick := l\<rparr>"] by (simp add: run)
  show ?case
  proof (cases "neighbour_at E topic l")
    case True
    then show ?thesis using step k(2) l(2) by (metis order_trans)
  next
    case False
    obtain up m where m: "wait_loop E topic boot n ?d = (Inr up, ?d\<lparr>dv_tick := m\<rparr>)"
      "up \<longrightarrow> (\<exists>j \<ge> l + 1. neighbour_at E topic j)" "n > 0 \<longrightarrow> (\<forall>j \<ge> l + n. neighbour_at E topic j) \<longrightarrow> up"
      using Suc.IH [of ?d] by auto
    have up: "up \<longrightarrow> (\<exists>j \<ge> dv_tick d. neighbour_at E topic j)"
      using m(2) k(2) l(2) by (meson add_leD1 order_trans)
    have live: "(\<forall>j \<ge> dv_tick d + n. neighbour_at E topic j) \<longrightarrow> up"
      using m(3) k(2) l(2) False by (cases "n > 0") (auto intro: order.trans)
    have "wait_loop E topic boot (Suc n) d = (Inr up, d\<lparr>dv_tick := m\<rparr>)" using step False m(1) by simp
    then show ?thesis using up live by auto
  qed
qed

section \<open>Properties\<close>

text \<open>C22. Waiting for a neighbour is sound and live: it always returns, it confirms a neighbour only
  when the carrier listed one, and when from the twentieth question on the carrier lists one it
  does confirm it, whatever the dials answer.\<close>

theorem wait_confirms_neighbour:
  assumes "carrier_calm E" "\<exists>t \<in> set bootstrap. t \<noteq> []"
  shows "\<exists>up k. wait_for_topic_peers E topic bootstrap d = (Inr up, d\<lparr>dv_tick := k\<rparr>) \<and>
    (up \<longrightarrow> (\<exists>j \<ge> dv_tick d. neighbour_at E topic j)) \<and>
    ((\<forall>j \<ge> dv_tick d + 19. neighbour_at E topic j) \<longrightarrow> up)"
proof -
  have "filter (\<lambda>s. s \<noteq> []) bootstrap \<noteq> []" using assms(2) by (simp add: filter_empty_conv)
  then show ?thesis
    using wait_loop_confirms [OF assms(1), of topic "filter (\<lambda>s. s \<noteq> []) bootstrap" 20 d]
    by (simp add: wait_for_topic_peers_def add.commute)
qed

text \<open>A carrier that lists a neighbour from its seventh answer on.\<close>

definition sample_carrier :: env where
  "sample_carrier = sample_env\<lparr>en_list_peers := (\<lambda>k _. Inr (JObj [(''peers'', JArr (if k < 7 then [] else [JStr ''n1'']))]))\<rparr>"

theorem wait_confirms_neighbour_witness:
  "\<exists>k. wait_for_topic_peers sample_carrier ''q/1'' [''t''] sample_device = (Inr True, sample_device\<lparr>dv_tick := k\<rparr>)"
proof -
  have "carrier_calm sample_carrier"
    by (simp add: carrier_calm_def sample_carrier_def sample_env_def)
  moreover have "\<forall>j \<ge> 19. neighbour_at sample_carrier ''q/1'' j"
    by (simp add: neighbour_at_def sample_carrier_def lists_peer_def under_data_def or_else_def)
  ultimately show ?thesis
    using wait_confirms_neighbour [of sample_carrier "[''t'']" "''q/1''" sample_device]
    by (force simp: sample_device_def)
qed

end
