(* ===== verification/Attachments.thy ===== *)
theory Attachments
imports Contacts Carrier
begin

text \<open>
  Attachments (\<open>upload_attachment\<close>, \<open>fetch_attachment\<close> of \<open>capsules/hey-core/src/api/dms.rs\<close>
  with the content and blob wrappers of \<open>runtime.rs\<close>): a file is sealed, then carried inline,
  as blob tickets, or as chunks in the content store.
\<close>

section \<open>Providers\<close>

definition dig2 :: "json \<Rightarrow> string \<Rightarrow> string \<Rightarrow> string option" where
  "dig2 v a b = Option.bind (Option.bind (j_get a v) (j_get b)) j_str"

definition extract_cid :: "json \<Rightarrow> string option" where
  "extract_cid v = or_else (dig2 v ''payload'' ''cid'') (or_else (dig2 v ''data'' ''cid'') (j_get_str ''cid'' v))"

definition extract_ref :: "json \<Rightarrow> (string \<times> string) option" where
  "extract_ref v = (let
     field = (\<lambda>k. Option.bind (or_else (j_get k v) (Option.bind (j_get ''data'' v) (j_get k))) j_str) in
     do { h \<leftarrow> field ''hash''; t \<leftarrow> field ''ticket''; Some (h, t) })"

definition fetched_bytes :: "prims \<Rightarrow> json \<Rightarrow> bytes res" where
  "fetched_bytes P v = bindR (of_option ''content.fetch: no data in response''
      (or_else (dig2 v ''data'' ''data'') (j_get_str ''data'' v))) (\<lambda>b64.
     of_option ''content.fetch base64'' (b64_dec P b64))"

text \<open>\<open>content::get_bytes\<close> without a path: the cache first, then the provider.\<close>

definition get_bytes :: "env \<Rightarrow> string \<Rightarrow> bytes io" where
  "get_bytes E cid = bindD (getD (\<lambda>d. cache_get (dv_cache d) (cache_key cid None))) (\<lambda>hit. case hit of
     Some b \<Rightarrow> retD b
   | None \<Rightarrow> bindD (callD (\<lambda>k. en_fetch E k cid)) (\<lambda>v. bindD (liftD (fetched_bytes (en_prims E) v)) (\<lambda>b.
       bindD (modD (\<lambda>d. d\<lparr>dv_cache := cache_put (dv_cache d) (cache_key cid None) b\<rparr>)) (\<lambda>_. retD b))))"

definition fetch_bytes :: "env \<Rightarrow> string \<Rightarrow> bytes io" where
  "fetch_bytes E ticket = bindD (callD (\<lambda>k. en_blob_fetch E k ticket)) (\<lambda>v.
     bindD (liftD (of_option ''blobs.fetch: no bytes in response''
       (or_else (dig2 v ''data'' ''bytes'') (or_else (dig2 v ''data'' ''data'')
          (or_else (j_get_str ''bytes'' v) (j_get_str ''data'' v)))))) (\<lambda>b64.
     liftD (of_option ''blobs.fetch base64'' (b64_dec (en_prims E) b64))))"

section \<open>Uploading\<close>

definition MAX_ATTACHMENT_BYTES :: nat where "MAX_ATTACHMENT_BYTES = 25 * 1024 * 1024"
definition ATTACHMENT_CHUNK_BYTES :: nat where "ATTACHMENT_CHUNK_BYTES = 256 * 1024"
definition INLINE_ATTACHMENT_MAX_BYTES :: nat where "INLINE_ATTACHMENT_MAX_BYTES = 16 * 1000"

text \<open>\<open>chunks(n)\<close>.\<close>

function chunks :: "nat \<Rightarrow> 'a list \<Rightarrow> 'a list list" where
  "chunks n xs = (if xs = [] \<or> n = 0 then [] else take n xs # chunks n (drop n xs))"
  by pat_completeness auto
termination by (relation "measure (\<lambda>(_, xs). length xs)") auto

declare chunks.simps [simp del]

fun try_blobs :: "env \<Rightarrow> bytes list \<Rightarrow> string list option io" where
  "try_blobs E [] = retD (Some [])"
| "try_blobs E (c # cs) = bindD (okD (callD (\<lambda>k. en_blob_add E k c))) (\<lambda>r.
     case Option.bind r extract_ref of None \<Rightarrow> retD None
     | Some (_, ticket) \<Rightarrow> bindD (try_blobs E cs) (\<lambda>ts. retD (map_option (\<lambda>l. ticket # l) ts)))"

definition try_upload_blobs :: "env \<Rightarrow> bytes \<Rightarrow> string list option io" where
  "try_upload_blobs E ciphertext = bindD (try_blobs E (chunks ATTACHMENT_CHUNK_BYTES ciphertext)) (\<lambda>ts.
     retD (case ts of Some l \<Rightarrow> if l = [] then None else Some l | None \<Rightarrow> None))"

fun publish_chunks :: "env \<Rightarrow> bytes list \<Rightarrow> string list io" where
  "publish_chunks E [] = retD []"
| "publish_chunks E (c # cs) = bindD (callD (\<lambda>k. en_publish E k c)) (\<lambda>v.
     bindD (liftD (of_option ''attachment upload: no cid in response'' (extract_cid v))) (\<lambda>cid.
     bindD (publish_chunks E cs) (\<lambda>l. retD (cid # l))))"

definition attachment_ref :: "string \<Rightarrow> string \<Rightarrow> string \<Rightarrow> nat \<Rightarrow> string \<Rightarrow> string \<Rightarrow> string list \<Rightarrow> string list \<Rightarrow> string option \<Rightarrow> attachment" where
  "attachment_ref uid name mime sz key_b64 cid chs tickets inl = \<lparr>at_id = uid, at_name = take_chars 255 name,
     at_mime = take_chars 128 mime, at_size = sz, at_cid = cid, at_chunks = chs, at_tickets = tickets,
     at_key_b64 = key_b64, at_inline_b64 = inl\<rparr>"

definition upload_attachment :: "env \<Rightarrow> string \<Rightarrow> string \<Rightarrow> bytes \<Rightarrow> attachment io" where
  "upload_attachment E name mime bs = (let P = en_prims E in
     if bs = [] then failD ''empty attachment''
     else if length bs > MAX_ATTACHMENT_BYTES then failD ''attachment too large''
     else bindD (drawD E 32) (\<lambda>key. bindD (drawD E 12) (\<lambda>nonce.
     let (ciphertext, key_b64) = encrypt_attachment P bs key nonce in
     if length bs \<le> INLINE_ATTACHMENT_MAX_BYTES
     then bindD (uuidD E) (\<lambda>uid. retD (attachment_ref uid name mime (length bs) key_b64 [] [] [] (Some (b64_enc P ciphertext))))
     else bindD (try_upload_blobs E ciphertext) (\<lambda>blobs. case blobs of
       Some tickets \<Rightarrow> bindD (uuidD E) (\<lambda>uid. retD (attachment_ref uid name mime (length bs) key_b64 [] [] tickets None))
     | None \<Rightarrow> bindD (publish_chunks E (chunks ATTACHMENT_CHUNK_BYTES ciphertext)) (\<lambda>cids.
         bindD (uuidD E) (\<lambda>uid. retD (attachment_ref uid name mime (length bs) key_b64
           (case cids of [] \<Rightarrow> [] | c # _ \<Rightarrow> c) (if length cids > 1 then cids else []) [] None)))))))"

section \<open>Fetching\<close>

fun gather :: "('a \<Rightarrow> bytes io) \<Rightarrow> 'a list \<Rightarrow> bytes io" where
  "gather f [] = retD []"
| "gather f (x # xs) = bindD (f x) (\<lambda>b. bindD (gather f xs) (\<lambda>r. retD (b @ r)))"

definition open_attachment :: "prims \<Rightarrow> attachment \<Rightarrow> bytes \<Rightarrow> bytes res" where
  "open_attachment P att ciphertext = bindR (decrypt_attachment P ciphertext (at_key_b64 att)) (\<lambda>plaintext.
     if length plaintext \<noteq> at_size att then Inl (Error ''attachment size mismatch'') else Inr plaintext)"

definition fetch_attachment :: "env \<Rightarrow> attachment \<Rightarrow> bytes io" where
  "fetch_attachment E att = (let P = en_prims E in case at_inline_b64 att of
     Some b64 \<Rightarrow> bindD (liftD (of_option ''inline attachment b64'' (b64_dec P b64))) (\<lambda>c. liftD (open_attachment P att c))
   | None \<Rightarrow>
       if at_tickets att \<noteq> [] then bindD (gather (fetch_bytes E) (at_tickets att)) (\<lambda>c. liftD (open_attachment P att c))
       else bindD (gather (get_bytes E) (if at_chunks att = [] then [at_cid att] else at_chunks att))
              (\<lambda>c. liftD (open_attachment P att c)))"

end
