(* ===== verification/Queues.thy ===== *)
theory Queues
imports Contacts Carrier
begin

text \<open>
  Per-pair queues of \<open>capsules/hey-core/src/api/dms.rs\<close>: the deterministic queue of a pair of
  DIDs, which queues a contact owns, rotation and the grace list, the topics to listen on,
  and contacts made from known keys with the rule that pinned keys are not replaced.
\<close>

section \<open>Topics\<close>

definition TOPIC_PREFIX_V2 :: string where "TOPIC_PREFIX_V2 = ''q''"

definition topic_of :: "string \<Rightarrow> string" where
  "topic_of queue = TOPIC_PREFIX_V2 @ ''/'' @ queue"

definition queue_id_from_topic :: "string \<Rightarrow> string option" where
  "queue_id_from_topic topic = strip_prefix (TOPIC_PREFIX_V2 @ ''/'') topic"

definition pair_inbound_queue :: "prims \<Rightarrow> string \<Rightarrow> string \<Rightarrow> string" where
  "pair_inbound_queue P recipient_did sender_did = bytes_to_hex (sha256 P
     (as_bytes ''hey-dm-pair-inbound-v1'' @ [0] @ as_bytes recipient_did @ [0] @ as_bytes sender_did))"

definition owns_inbound_queue :: "dm_contact \<Rightarrow> string \<Rightarrow> bool" where
  "owns_inbound_queue c queue_id = (ct_my_inbound_queue c = Some queue_id \<or>
     list_ex (\<lambda>r. rq_queue r = queue_id) (ct_retired_queues c))"

definition owns_inbound_queue_with :: "prims \<Rightarrow> dm_contact \<Rightarrow> string \<Rightarrow> string \<Rightarrow> bool" where
  "owns_inbound_queue_with P c queue_id my_did = (owns_inbound_queue c queue_id \<or>
     (ct_mode c = Regular \<and> pair_inbound_queue P my_did (ct_did c) = queue_id))"

section \<open>The carrier\<close>

text \<open>\<open>peer_receiver::forget_topic\<close>, \<open>outbox::purge_topic\<close> and
  \<open>outbox::publish_or_enqueue\<close> on the device.\<close>

definition forget_topic :: "env \<Rightarrow> string \<Rightarrow> unit io" where
  "forget_topic E topic = bindD (modD (\<lambda>d. d\<lparr>dv_joined := filter (\<lambda>t. t \<noteq> topic) (dv_joined d)\<rparr>))
     (\<lambda>_. ignoreD (leave_topic E topic))"

definition purge_topicD :: "env \<Rightarrow> string \<Rightarrow> unit io" where
  "purge_topicD E topic = modD (\<lambda>d. d\<lparr>dv_outbox := purge_topic (en_net E (dv_tick d)) topic (dv_outbox d)\<rparr>)"

definition publishD :: "env \<Rightarrow> string \<Rightarrow> string list \<Rightarrow> string \<Rightarrow> string \<Rightarrow> unit io" where
  "publishD E topic boot sender_id wire d =
     (case publish_or_enqueue (en_net E (dv_tick d)) (en_now E (dv_tick d)) topic boot sender_id wire (dv_outbox d) of
        Inl e \<Rightarrow> (Inl e, d\<lparr>dv_tick := dv_tick d + 1\<rparr>)
      | Inr (confirmed, f) \<Rightarrow> (if confirmed then Inr ()
          else Inl (Error ''publish not confirmed delivered; queued for retry''),
          d\<lparr>dv_outbox := f, dv_tick := dv_tick d + 1\<rparr>))"

section \<open>Rotation\<close>

definition QUEUE_ROTATE_MSGS :: nat where "QUEUE_ROTATE_MSGS = 200"
definition QUEUE_ROTATE_MS :: int where "QUEUE_ROTATE_MS = 7 * 24 * 60 * 60 * 1000"
definition QUEUE_ROTATE_FLOOR_MS :: int where "QUEUE_ROTATE_FLOOR_MS = 60 * 60 * 1000"
definition QUEUE_GRACE_MS :: int where "QUEUE_GRACE_MS = 60 * 60 * 1000"

definition or_anonymous :: "string option \<Rightarrow> string" where
  "or_anonymous p = (case p of Some s \<Rightarrow> s | None \<Rightarrow> ''anonymous'')"

text \<open>The two random values are arguments here and drawn by \<open>rotate_contact_queue\<close>.\<close>

definition install_queue :: "string \<Rightarrow> string \<Rightarrow> int \<Rightarrow> dm_contact \<Rightarrow> dm_contact" where
  "install_queue new_queue new_pseudonym now c = (let
     c1 = (case ct_my_inbound_queue c of
        Some old_q \<Rightarrow> c\<lparr>ct_retired_queues := ct_retired_queues c @
          [\<lparr>rq_queue = old_q, rq_pseudonym = or_anonymous (ct_my_recv_pseudonym c), rq_retire_at = now\<rparr>]\<rparr>
      | None \<Rightarrow> c)
     in c1\<lparr>ct_my_inbound_queue := Some new_queue, ct_my_recv_pseudonym := Some new_pseudonym,
           ct_my_queue_rotated_at := now, ct_my_queue_msg_count := 0\<rparr>)"

definition rotate_contact_queue :: "env \<Rightarrow> dm_contact \<Rightarrow> int \<Rightarrow> (string \<times> dm_contact) io" where
  "rotate_contact_queue E c now = bindD (random_hex E 32) (\<lambda>new_queue.
     bindD (random_hex E 16) (\<lambda>new_pseudonym.
     retD (new_queue, install_queue new_queue new_pseudonym now c)))"

definition expired_queue :: "int \<Rightarrow> retired_queue \<Rightarrow> bool" where
  "expired_queue now rq = (now - rq_retire_at rq \<ge> QUEUE_GRACE_MS)"

definition prune_retired_queues :: "dm_contact \<Rightarrow> int \<Rightarrow> string list \<times> dm_contact" where
  "prune_retired_queues c now =
     (map (\<lambda>rq. topic_of (rq_queue rq)) (filter (expired_queue now) (ct_retired_queues c)),
      c\<lparr>ct_retired_queues := filter (\<lambda>rq. \<not> expired_queue now rq) (ct_retired_queues c)\<rparr>)"

definition rotation_due :: "dm_contact \<Rightarrow> int \<Rightarrow> bool" where
  "rotation_due c now = (let since = now - ct_my_queue_rotated_at c in
     since \<ge> QUEUE_ROTATE_FLOOR_MS \<and> (ct_my_queue_msg_count c \<ge> QUEUE_ROTATE_MSGS \<or> since \<ge> QUEUE_ROTATE_MS))"

text \<open>The part of \<open>maybe_rotate_inbound_queue\<close> before the decision: the message is counted and
  the clock of a contact that never rotated starts.\<close>

definition count_message :: "int \<Rightarrow> dm_contact \<Rightarrow> dm_contact" where
  "count_message now c = (let c1 = c\<lparr>ct_my_queue_msg_count := sat_add32 (ct_my_queue_msg_count c) 1\<rparr>
     in if ct_my_queue_rotated_at c1 = 0 then c1\<lparr>ct_my_queue_rotated_at := now\<rparr> else c1)"

section \<open>Listening\<close>

definition contact_topics :: "prims \<Rightarrow> int \<Rightarrow> string \<Rightarrow> dm_contact \<Rightarrow> (string \<times> string \<times> string list) list" where
  "contact_topics P now my_did c = (let
     boot = (case ct_peer_ticket c of Some t \<Rightarrow> [t] | None \<Rightarrow> []);
     consumer_id = or_anonymous (ct_my_recv_pseudonym c)
     in (if ct_mode c = Regular \<and> my_did \<noteq> [] then [(topic_of (pair_inbound_queue P my_did (ct_did c)), consumer_id, boot)] else [])
      @ (case ct_my_inbound_queue c of Some q \<Rightarrow> [(topic_of q, consumer_id, boot)] | None \<Rightarrow> [])
      @ map (\<lambda>rq. (topic_of (rq_queue rq), if rq_pseudonym rq = [] then ''anonymous'' else rq_pseudonym rq, boot))
          (filter (\<lambda>rq. now - rq_retire_at rq < QUEUE_GRACE_MS) (ct_retired_queues c)))"

definition my_v2_topics :: "env \<Rightarrow> (string \<times> string \<times> string list) list io" where
  "my_v2_topics E = bindD (nowD E) (\<lambda>now. bindD my_did_or_empty (\<lambda>my_did. bindD (list_contacts E) (\<lambda>l.
     retD (concat (map (contact_topics (en_prims E) now my_did) l)))))"

section \<open>Contacts from known keys\<close>

definition or_draw :: "env \<Rightarrow> nat \<Rightarrow> string option \<Rightarrow> string io" where
  "or_draw E n v = (case v of Some q \<Rightarrow> retD q | None \<Rightarrow> random_hex E n)"

definition adopt_keys :: "peer_keys \<Rightarrow> bool \<Rightarrow> string option \<Rightarrow> string \<Rightarrow> string \<Rightarrow> string \<Rightarrow> string \<Rightarrow> dm_contact \<Rightarrow> dm_contact" where
  "adopt_keys keys verified ticket inq rp det sp c = (let
     c1 = c\<lparr>ct_peer_pubkeys := Some keys, ct_key_verified := verified, ct_mode := Regular, ct_status := Active,
        ct_my_inbound_queue := Some inq, ct_my_recv_pseudonym := Some rp,
        ct_their_inbound_queue := (case ct_their_inbound_queue c of Some q \<Rightarrow> Some q | None \<Rightarrow> Some det),
        ct_my_send_pseudonym := Some sp\<rparr>
     in if ticket \<noteq> None then c1\<lparr>ct_peer_ticket := ticket\<rparr> else c1)"

definition keyed_contact :: "string \<Rightarrow> string \<Rightarrow> peer_keys \<Rightarrow> string option \<Rightarrow> bool \<Rightarrow> string \<Rightarrow> string \<Rightarrow> string \<Rightarrow> string \<Rightarrow> dm_contact" where
  "keyed_contact did name keys ticket verified inq rp det sp = \<lparr>ct_did = did, ct_name = name, ct_last_ts = 0,
     ct_last_preview = [], ct_unread = 0, ct_my_inbound_queue = Some inq, ct_my_recv_pseudonym = Some rp,
     ct_their_inbound_queue = Some det, ct_my_send_pseudonym = Some sp, ct_peer_ticket = ticket,
     ct_peer_pubkeys = Some keys, ct_status = Active, ct_mode = Regular, ct_anon_identity = None,
     ct_ratchet_capable = False, ct_key_verified = verified, ct_my_queue_rotated_at = 0,
     ct_my_queue_msg_count = 0, ct_retired_queues = []\<rparr>"

definition bootstrap_contact_from_keys ::
    "env \<Rightarrow> string \<Rightarrow> string \<Rightarrow> peer_keys \<Rightarrow> string option \<Rightarrow> bool \<Rightarrow> bool io" where
  "bootstrap_contact_from_keys E did name keys ticket verified = bindD my_did_or_empty (\<lambda>my_did.
     if did = [] \<or> did = my_did then retD False
     else let det = pair_inbound_queue (en_prims E) did my_did in
     bindD (list_contacts E) (\<lambda>l. case find_did did l of
       Some c \<Rightarrow> (case ct_peer_pubkeys c of
         Some existing \<Rightarrow>
           if existing = keys then
             (if verified \<and> \<not> ct_key_verified c then
                bindD (ignoreD (write_contacts E (upd_did did (\<lambda>c. c\<lparr>ct_key_verified := True,
                  ct_peer_ticket := (if ct_peer_ticket c = None then ticket else ct_peer_ticket c)\<rparr>) l))) (\<lambda>_. retD True)
              else retD False)
           else
             (if verified \<and> \<not> ct_key_verified c then
                bindD (ignoreD (write_contacts E (upd_did did (\<lambda>c. c\<lparr>ct_peer_pubkeys := Some keys, ct_key_verified := True,
                  ct_peer_ticket := (if ticket \<noteq> None then ticket else ct_peer_ticket c)\<rparr>) l))) (\<lambda>_. retD True)
              else retD False)
       | None \<Rightarrow>
           bindD (or_draw E 32 (ct_my_inbound_queue c)) (\<lambda>inq. bindD (or_draw E 16 (ct_my_recv_pseudonym c)) (\<lambda>rp.
           bindD (or_draw E 16 (ct_my_send_pseudonym c)) (\<lambda>sp.
           bindD (ignoreD (write_contacts E (upd_did did (adopt_keys keys verified ticket inq rp det sp) l))) (\<lambda>_. retD True)))))
     | None \<Rightarrow>
         bindD (random_hex E 32) (\<lambda>inq. bindD (random_hex E 16) (\<lambda>rp. bindD (random_hex E 16) (\<lambda>sp.
         bindD (ignoreD (write_contacts E (l @ [keyed_contact did name keys ticket verified inq rp det sp]))) (\<lambda>_. retD True))))))"

section \<open>Lemmas\<close>

lemma queue_id_topic [simp]: "queue_id_from_topic (topic_of q) = Some q"
  unfolding queue_id_from_topic_def strip_prefix_iff by (simp add: topic_of_def)

lemma topic_of_inject [simp]: "topic_of a = topic_of b \<longleftrightarrow> a = b"
  by (simp add: topic_of_def)

subsection \<open>Rotation\<close>

text \<open>What \<open>maybe_rotate_inbound_queue\<close> does to the contact, given the random values.\<close>

definition rotation_step :: "string \<Rightarrow> string \<Rightarrow> int \<Rightarrow> dm_contact \<Rightarrow> dm_contact" where
  "rotation_step new_queue new_pseudonym now c =
     (let c1 = snd (prune_retired_queues (count_message now c) now)
      in if rotation_due c1 now then install_queue new_queue new_pseudonym now c1 else c1)"

definition grace_wf :: "dm_contact \<Rightarrow> bool" where
  "grace_wf c = (length (ct_retired_queues c) \<le> 1 \<and>
     (\<forall>r \<in> set (ct_retired_queues c). 0 \<le> rq_retire_at r \<and> rq_retire_at r \<le> ct_my_queue_rotated_at c) \<and>
     0 \<le> ct_my_queue_rotated_at c)"

lemma count_message_fields [simp]:
  "ct_retired_queues (count_message now c) = ct_retired_queues c"
  "ct_my_inbound_queue (count_message now c) = ct_my_inbound_queue c"
  "ct_my_recv_pseudonym (count_message now c) = ct_my_recv_pseudonym c"
  "ct_did (count_message now c) = ct_did c" "ct_status (count_message now c) = ct_status c"
  "ct_my_queue_rotated_at (count_message now c) =
     (if ct_my_queue_rotated_at c = 0 then now else ct_my_queue_rotated_at c)"
  by (simp_all add: count_message_def Let_def)

lemma install_queue_fields [simp]:
  "ct_my_inbound_queue (install_queue q p now c) = Some q" "ct_my_queue_rotated_at (install_queue q p now c) = now"
  "ct_retired_queues (install_queue q p now c) = ct_retired_queues c @ (case ct_my_inbound_queue c of
     Some o' \<Rightarrow> [\<lparr>rq_queue = o', rq_pseudonym = or_anonymous (ct_my_recv_pseudonym c), rq_retire_at = now\<rparr>] | None \<Rightarrow> [])"
  "ct_did (install_queue q p now c) = ct_did c"
  by (simp_all add: install_queue_def Let_def split: option.split)

lemma prune_retired_fields [simp]:
  "ct_retired_queues (snd (prune_retired_queues c now)) = filter (\<lambda>rq. \<not> expired_queue now rq) (ct_retired_queues c)"
  "ct_my_inbound_queue (snd (prune_retired_queues c now)) = ct_my_inbound_queue c"
  "ct_my_recv_pseudonym (snd (prune_retired_queues c now)) = ct_my_recv_pseudonym c"
  "ct_my_queue_rotated_at (snd (prune_retired_queues c now)) = ct_my_queue_rotated_at c"
  "ct_did (snd (prune_retired_queues c now)) = ct_did c"
  by (simp_all add: prune_retired_queues_def)

lemma due_prunes_all:
  assumes "grace_wf c" "0 \<le> now" "rotation_due (snd (prune_retired_queues (count_message now c) now)) now"
  shows "filter (\<lambda>rq. \<not> expired_queue now rq) (ct_retired_queues c) = []"
proof -
  have "now - ct_my_queue_rotated_at c \<ge> QUEUE_GRACE_MS"
    using assms(3) by (auto simp: rotation_due_def Let_def QUEUE_ROTATE_FLOOR_MS_def QUEUE_GRACE_MS_def split: if_splits)
  then have "\<forall>r \<in> set (ct_retired_queues c). expired_queue now r"
    using assms(1) by (force simp: grace_wf_def expired_queue_def)
  then show ?thesis by (simp add: filter_empty_conv)
qed

lemma rotation_step_wf:
  assumes "grace_wf c" "0 \<le> now" "ct_my_queue_rotated_at c \<le> now"
  shows "grace_wf (rotation_step q p now c)"
proof -
  have f: "length (filter (\<lambda>rq. \<not> expired_queue now rq) (ct_retired_queues c)) \<le> 1"
    using assms(1) by (auto simp: grace_wf_def intro: order.trans [OF length_filter_le])
  show ?thesis
  proof (cases "rotation_due (snd (prune_retired_queues (count_message now c) now)) now")
    case True
    then show ?thesis using due_prunes_all [OF assms(1,2)] assms(2)
      by (simp add: rotation_step_def grace_wf_def Let_def split: option.split)
  next
    case False
    then show ?thesis using f assms by (auto simp: rotation_step_def grace_wf_def Let_def)
  qed
qed

inductive rotation_run :: "dm_contact \<Rightarrow> dm_contact \<Rightarrow> bool" where
  step: "ct_my_queue_rotated_at c \<le> now \<Longrightarrow> 0 \<le> now \<Longrightarrow> rotation_run c (rotation_step q p now c)"

inductive_cases rotation_runE: "rotation_run c c'"

interpretation rotation: invariant_system grace_wf rotation_run
proof
  fix s t assume "grace_wf s" "rotation_run s t"
  then show "grace_wf t" by (auto elim!: rotation_runE intro: rotation_step_wf)
qed

section \<open>Properties\<close>

text \<open>However many messages arrive and whenever, a contact never has more than one retired
  queue in its grace list: a rotation happens at most once an hour, which is also the grace
  period.\<close>

theorem one_retired_queue:
  assumes "rotation_run\<^sup>*\<^sup>* c c'" "ct_retired_queues c = []" "0 \<le> ct_my_queue_rotated_at c"
  shows "length (ct_retired_queues c') \<le> 1"
  using rotation.run_keeps [OF assms(1), of "\<lambda>c. length (ct_retired_queues c) \<le> 1"] assms(2,3)
  by (simp add: grace_wf_def)


text \<open>C27. Pinned keys: an assertion of keys about a contact that has keys changes nothing unless it
  is a self-assertion and the pinned keys were vouched by someone else only; then it installs
  the asserted keys as verified. No other contact changes in any case.\<close>

theorem bootstrap_key_pinning:
  assumes "storage_ok E" "dv_session d = Some s" "did \<noteq> []" "did \<noteq> ss_did_key s"
    and "find_did did (contacts_of d) = Some c" "ct_peer_pubkeys c = Some old"
  shows "\<exists>d'. bootstrap_contact_from_keys E did name keys ticket verified d =
      (Inr (verified \<and> \<not> ct_key_verified c), d') \<and>
    (if verified \<and> \<not> ct_key_verified c
     then \<exists>c'. find_did did (contacts_of d') = Some c' \<and> ct_peer_pubkeys c' = Some keys \<and> ct_key_verified c' \<and>
       (\<forall>k. k \<noteq> did \<longrightarrow> find_did k (contacts_of d') = find_did k (contacts_of d))
     else d' = d)"
proof -
  have m: "my_did_or_empty d = (Inr (ss_did_key s), d)"
    using assms(2) by (simp add: my_did_or_empty_def okD_def ensure_profile_def bindD_def retD_def)
  show ?thesis
    by (cases "verified \<and> \<not> ct_key_verified c"; cases "old = keys")
      (use assms m in \<open>auto simp: bootstrap_contact_from_keys_def run run_contacts [OF assms(1)] Let_def ignoreD_def okD_def\<close>)
qed

section \<open>Witnesses\<close>

definition sample_contact :: dm_contact where
  "sample_contact = (keyed_contact ''b'' ''Bob'' \<lparr>pk_x25519 = ''x'', pk_ml_kem = ''k''\<rparr> None False ''q1'' ''r1'' ''det'' ''s1'')
     \<lparr>ct_my_queue_rotated_at := 1, ct_my_queue_msg_count := 199\<rparr>"

lemma sample_contact_simps [simp]:
  "ct_retired_queues sample_contact = []" "ct_my_queue_rotated_at sample_contact = 1"
  "ct_my_inbound_queue sample_contact = Some ''q1''" "ct_my_recv_pseudonym sample_contact = Some ''r1''"
  "ct_did sample_contact = ''b''" "ct_peer_pubkeys sample_contact = Some \<lparr>pk_x25519 = ''x'', pk_ml_kem = ''k''\<rparr>"
  "ct_key_verified sample_contact = False"
  by (simp_all add: sample_contact_def keyed_contact_def)

lemma sample_due: "rotation_due (snd (prune_retired_queues (count_message 3600001 sample_contact) 3600001)) 3600001"
  by (simp add: rotation_due_def Let_def QUEUE_ROTATE_FLOOR_MS_def QUEUE_ROTATE_MSGS_def
      prune_retired_queues_def count_message_def sample_contact_def keyed_contact_def sat_add32_def)

theorem one_retired_queue_witness:
  "length (ct_retired_queues (rotation_step ''q2'' ''r2'' 3600001 sample_contact)) = 1"
proof -
  have "rotation_run\<^sup>*\<^sup>* sample_contact (rotation_step ''q2'' ''r2'' 3600001 sample_contact)"
    by (intro r_into_rtranclp rotation_run.step) simp_all
  then have "length (ct_retired_queues (rotation_step ''q2'' ''r2'' 3600001 sample_contact)) \<le> 1"
    using one_retired_queue by simp
  then show ?thesis using sample_due by (simp add: rotation_step_def Let_def)
qed


theorem bootstrap_key_pinning_witness:
  "\<exists>d' c'. bootstrap_contact_from_keys sample_env ''b'' ''Bob'' \<lparr>pk_x25519 = ''y'', pk_ml_kem = ''k''\<rparr> None True
      (sample_device\<lparr>dv_session := Some \<lparr>ss_auth_key_hex = [], ss_did_key = ''a'', ss_name = ''Al'', ss_kem_secret = [], ss_kem_public = []\<rparr>,
         dv_contacts := Some [sample_contact]\<rparr>) = (Inr True, d') \<and>
     find_did ''b'' (contacts_of d') = Some c' \<and> ct_peer_pubkeys c' = Some \<lparr>pk_x25519 = ''y'', pk_ml_kem = ''k''\<rparr>"
  by (rule exE [OF bootstrap_key_pinning [OF sample_storage_ok, where did = "''b''" and c = sample_contact and verified = True
        and keys = "\<lparr>pk_x25519 = ''y'', pk_ml_kem = ''k''\<rparr>" and name = "''Bob''" and ticket = None]])
    (auto simp: find_did_def)

end
