(* ===== verification/Inner.thy ===== *)
theory Inner
imports Queues Events
begin

text \<open>
  The identity a contact knows us by and the signed inner payload
  (\<open>capsules/hey-core/src/api/dms.rs\<close>, per-contact identity and sealed-sender plumbing): minting
  an anonymous identity, choosing signing and decryption keys, signing, sealing and opening.

  The identity provider of the runtime answers through the environment; \<open>shared_from\<close> and the
  unwrapping of \<open>data\<close> are those of \<open>runtime.rs\<close>.
\<close>

section \<open>Identities\<close>

definition mint_anon_identity :: "env \<Rightarrow> anon_identity io" where
  "mint_anon_identity E = bindD (drawD E 32) (\<lambda>seed. bindD (drawD E 64) (\<lambda>g.
     let (kem_secret, kem_public) = kem_gen (en_prims E) g in
     retD \<lparr>an_seed_hex = bytes_to_hex seed, an_kem_secret = b64_enc (en_prims E) kem_secret,
           an_kem_public = b64_enc (en_prims E) kem_public,
           an_did = public_key_to_did_key (ed_pub (en_prims E) seed)\<rparr>))"

definition anon_pubkeys :: "prims \<Rightarrow> anon_identity \<Rightarrow> peer_keys res" where
  "anon_pubkeys P a = bindR (seed32 (an_seed_hex a)) (\<lambda>seed.
     let (_, x_pub) = x25519_from_seed P seed in
     Inr \<lparr>pk_x25519 = b64_enc P x_pub, pk_ml_kem = an_kem_public a\<rparr>)"

definition anon_user_keys :: "prims \<Rightarrow> anon_identity \<Rightarrow> user_keys res" where
  "anon_user_keys P a = bindR (seed32 (an_seed_hex a)) (\<lambda>seed.
     bindR (of_option ''anon kem secret b64'' (b64_dec P (an_kem_secret a))) (\<lambda>kem_secret.
     bindR (of_option ''anon kem public b64'' (b64_dec P (an_kem_public a))) (\<lambda>kem_public.
     Inr (keys_from_seed_and_kem P seed kem_secret kem_public))))"

definition signing_identity :: "identity_mode \<Rightarrow> anon_identity option \<Rightarrow> string \<Rightarrow> string \<Rightarrow> (string \<times> string) res" where
  "signing_identity mode anon me_did me_auth_key_hex = (case mode of
     Regular \<Rightarrow> Inr (me_did, me_auth_key_hex)
   | Anonymous \<Rightarrow> bindR (of_option ''anonymous contact is missing its ephemeral identity'' anon)
       (\<lambda>a. Inr (an_did a, an_seed_hex a)))"

definition advertised_pubkeys :: "prims \<Rightarrow> identity_mode \<Rightarrow> anon_identity option \<Rightarrow> peer_keys \<Rightarrow> peer_keys res" where
  "advertised_pubkeys P mode anon me_pub = (case mode of
     Regular \<Rightarrow> Inr me_pub
   | Anonymous \<Rightarrow> bindR (of_option ''anonymous contact is missing its ephemeral identity'' anon) (anon_pubkeys P))"

definition shared_display_name :: "identity_mode \<Rightarrow> string \<Rightarrow> string" where
  "shared_display_name mode real_name = (case mode of Regular \<Rightarrow> real_name | Anonymous \<Rightarrow> [])"

datatype decrypt_via = Local user_keys | Provider

definition decrypt_via_for_session :: "decrypt_via res" where
  "decrypt_via_for_session = Inr Provider"

definition decrypt_via_for_contact :: "prims \<Rightarrow> dm_contact \<Rightarrow> decrypt_via res" where
  "decrypt_via_for_contact P c = (if ct_mode c = Anonymous
     then bindR (of_option ''anonymous contact is missing its ephemeral identity (decrypt)'' (ct_anon_identity c)) (\<lambda>a.
          bindR (anon_user_keys P a) (\<lambda>k. Inr (Local k)))
     else decrypt_via_for_session)"

definition decrypt_via_for_queue :: "env \<Rightarrow> string option \<Rightarrow> decrypt_via io" where
  "decrypt_via_for_queue E queue_id = (case queue_id of
     Some qid \<Rightarrow> bindD (list_contacts E) (\<lambda>l. case find (\<lambda>c. ct_my_inbound_queue c = Some qid) l of
       Some c \<Rightarrow> liftD (decrypt_via_for_contact (en_prims E) c)
     | None \<Rightarrow> liftD decrypt_via_for_session)
   | None \<Rightarrow> liftD decrypt_via_for_session)"

section \<open>Opening\<close>

definition shared_from :: "prims \<Rightarrow> json \<Rightarrow> bytes res" where
  "shared_from P rsp = bindR (of_option ''identity provider: no shared_b64 in response''
      (Option.bind (case Option.bind (j_get ''data'' rsp) (j_get ''shared_b64'') of Some v \<Rightarrow> Some v
         | None \<Rightarrow> j_get ''shared_b64'' rsp) j_str)) (\<lambda>b.
     of_option ''identity provider shared_b64'' (b64_dec P b))"

definition shared_secrets :: "env \<Rightarrow> decrypt_via \<Rightarrow> bytes \<Rightarrow> bytes \<Rightarrow> (bytes \<times> bytes) io" where
  "shared_secrets E via eph_pub kem_ct = (case via of
     Local keys \<Rightarrow> bindD (liftD (guardR (length eph_pub = 32) ''eph wrong size'')) (\<lambda>_.
       bindD (liftD (ml_kem_decapsulate_local (en_prims E) kem_ct (ml_kem_secret_bytes keys))) (\<lambda>k.
       retD (dh (en_prims E) (x25519_priv keys) eph_pub, k)))
   | Provider \<Rightarrow> bindD (callD (\<lambda>t. en_dh E t eph_pub)) (\<lambda>x. bindD (callD (\<lambda>t. en_decaps E t kem_ct)) (\<lambda>k.
       bindD (liftD (shared_from (en_prims E) x)) (\<lambda>x_shared. bindD (liftD (shared_from (en_prims E) k)) (\<lambda>k_shared.
       retD (x_shared, k_shared))))))"

definition open_envelope :: "env \<Rightarrow> hpq_envelope \<Rightarrow> decrypt_via \<Rightarrow> string io" where
  "open_envelope E envl via = bindD (liftD (envelope_recipient_inputs (en_prims E) envl)) (\<lambda>(eph, kem_ct).
     bindD (shared_secrets E via eph kem_ct) (\<lambda>(x, k). liftD (open_with_secrets (en_prims E) envl x k)))"

definition ratchet_kem_ss :: "env \<Rightarrow> hpq_envelope \<Rightarrow> decrypt_via \<Rightarrow> bytes io" where
  "ratchet_kem_ss E envl via = bindD (liftD (envelope_recipient_inputs (en_prims E) envl)) (\<lambda>(_, kem_ct). case via of
     Local keys \<Rightarrow> liftD (ml_kem_decapsulate_local (en_prims E) kem_ct (ml_kem_secret_bytes keys))
   | Provider \<Rightarrow> bindD (callD (\<lambda>t. en_decaps E t kem_ct)) (\<lambda>k. liftD (shared_from (en_prims E) k)))"

section \<open>Signing and sealing\<close>

definition KIND_MESSAGE :: string where "KIND_MESSAGE = ''message''"
definition KIND_HANDSHAKE :: string where "KIND_HANDSHAKE = ''handshake''"
definition KIND_WELCOME :: string where "KIND_WELCOME = ''welcome''"

definition sign_bytes :: "env \<Rightarrow> bytes \<Rightarrow> string \<Rightarrow> string io" where
  "sign_bytes E payload auth_key_hex = (if auth_key_hex = []
     then bindD (callD (\<lambda>t. en_sign E t payload)) (\<lambda>rsp.
       liftD (of_option ''provider sign: no signature_hex'' (j_get_str ''signature_hex'' (data_of rsp))))
     else bindD (liftD (seed32 auth_key_hex)) (\<lambda>seed. retD (ed_sign (ed_raw_sign (en_prims E)) payload seed)))"

definition inner_sign_bytes :: "(string \<Rightarrow> string) \<Rightarrow> string \<Rightarrow> json \<Rightarrow> string \<Rightarrow> int \<Rightarrow> ratchet_header option \<Rightarrow> string" where
  "inner_sign_bytes jstr kind body sender_did ts rh = canonicalize jstr (JObj
     ([(''kind'', JStr kind), (''body'', body), (''sender_did'', JStr sender_did), (''ts'', JInt ts)]
      @ opt_member ''rh'' (map_option header_json rh)))"

definition build_inner :: "env \<Rightarrow> string \<Rightarrow> json \<Rightarrow> string \<Rightarrow> string \<Rightarrow> ratchet_header option \<Rightarrow> inner_payload io" where
  "build_inner E kind body sender_did auth_key_hex rh = bindD (nowD E) (\<lambda>ts.
     bindD (sign_bytes E (as_bytes (inner_sign_bytes (en_jstr E) kind body sender_did ts rh)) auth_key_hex) (\<lambda>sig.
     retD \<lparr>in_kind = kind, in_sender_did = sender_did, in_ts = ts, in_body = body, in_sig = sig, in_rh = rh\<rparr>))"

definition verify_inner :: "env \<Rightarrow> inner_payload \<Rightarrow> bool res" where
  "verify_inner E i = (if \<not> starts_with (in_sender_did i) ''did:key:z'' then Inr False
     else case did_key_to_public_key (in_sender_did i) of
       Inl _ \<Rightarrow> Inr False
     | Inr pk \<Rightarrow> ed_verify (ed_raw_verify (en_prims E)) (as_bytes (inner_sign_bytes (en_jstr E) (in_kind i) (in_body i)
         (in_sender_did i) (in_ts i) (in_rh i))) (in_sig i) pk)"

definition encrypt_inner_for_peer :: "env \<Rightarrow> inner_payload \<Rightarrow> peer_keys \<Rightarrow> hpq_envelope io" where
  "encrypt_inner_for_peer E inner keys = (let P = en_prims E in
     bindD (liftD (of_option ''peer x25519 b64'' (b64_dec P (pk_x25519 keys)))) (\<lambda>x.
     bindD (liftD (guardR (length x = 32) ''peer x25519 wrong size'')) (\<lambda>_.
     bindD (liftD (of_option ''peer ml-kem b64'' (b64_dec P (pk_ml_kem keys)))) (\<lambda>kem.
     bindD (drawD E 32) (\<lambda>eph. bindD (drawD E 32) (\<lambda>r. bindD (drawD E 12) (\<lambda>nonce.
     liftD (encrypt_to_hybrid P (en_text E (inner_json inner)) x kem eph r nonce))))))))"

definition decrypt_envelope_to_inner :: "env \<Rightarrow> hpq_envelope \<Rightarrow> decrypt_via \<Rightarrow> inner_payload io" where
  "decrypt_envelope_to_inner E envl via = bindD (open_envelope E envl via) (\<lambda>pt.
     liftD (of_option ''inner deserialize'' (Option.bind (en_parse E pt) inner_of)))"

section \<open>What the environment is trusted with\<close>

text \<open>\<open>env_ok\<close>: the documented behaviour of the crates (primitives and JSON). \<open>provider_holds\<close>:
  the identity provider answers for the X25519 and Ed25519 seed \<open>seed\<close> and the ML-KEM pair
  generated from \<open>g\<close>.\<close>

definition env_ok :: "env \<Rightarrow> bool" where
  "env_ok E = (prims_ok (en_prims E) \<and> json_codec (en_text E) (en_parse E) \<and> (\<forall>k n. length (en_rand E k n) = n))"

definition same_world :: "env \<Rightarrow> env \<Rightarrow> bool" where
  "same_world E E' = (en_prims E' = en_prims E \<and> en_text E' = en_text E \<and> en_parse E' = en_parse E \<and>
     en_jstr E' = en_jstr E)"

definition provider_holds :: "env \<Rightarrow> bytes \<Rightarrow> bytes \<Rightarrow> bool" where
  "provider_holds E seed g = (let P = en_prims E in
     (\<forall>t p. length p = 32 \<longrightarrow> (\<exists>rsp. en_dh E t p = Inr rsp \<and> shared_from P rsp = Inr (x_dh P seed p))) \<and>
     (\<forall>t c. length c = 1088 \<longrightarrow> (\<exists>rsp. en_decaps E t c = Inr rsp \<and>
        shared_from P rsp = Inr (kem_decaps P (fst (kem_gen P g)) c))) \<and>
     (\<forall>t m. \<exists>rsp. en_sign E t m = Inr rsp \<and>
        j_get_str ''signature_hex'' (data_of rsp) = Some (ed_sign (ed_raw_sign P) m seed)))"

definition opens_as :: "env \<Rightarrow> decrypt_via \<Rightarrow> bytes \<Rightarrow> bytes \<Rightarrow> bool" where
  "opens_as E via seed g = (case via of
     Local keys \<Rightarrow> keys = keys_from_seed_and_kem (en_prims E) seed (fst (kem_gen (en_prims E) g)) (snd (kem_gen (en_prims E) g))
   | Provider \<Rightarrow> provider_holds E seed g)"

definition signs_as :: "env \<Rightarrow> string \<Rightarrow> bytes \<Rightarrow> bool" where
  "signs_as E auth seed = (if auth = [] then (\<exists>g. provider_holds E seed g) else seed32 auth = Inr seed)"

definition keys_of_seed :: "prims \<Rightarrow> bytes \<Rightarrow> bytes \<Rightarrow> peer_keys" where
  "keys_of_seed P seed g = \<lparr>pk_x25519 = b64_enc P (x_pub P seed), pk_ml_kem = b64_enc P (snd (kem_gen P g))\<rparr>"

definition did_of_seed :: "prims \<Rightarrow> bytes \<Rightarrow> string" where
  "did_of_seed P seed = public_key_to_did_key (ed_pub P seed)"

section \<open>Lemmas\<close>

lemma did_of_seed_key: "prims_ok P \<Longrightarrow> did_key_to_public_key (did_of_seed P seed) = Inr (ed_pub P seed)"
  using did_key.dec_enc [of "ed_pub P seed"] by (simp add: did_of_seed_def prim_laws)

lemma did_of_seed_prefix: "starts_with (did_of_seed P seed) ''did:key:z''"
  unfolding did_of_seed_def public_key_to_did_key_def by (rule starts_with_append)

lemma shared_secrets_ok:
  assumes "prims_ok (en_prims E)" "opens_as E via seed g" "length eph = 32" "length ct = 1088"
  shows "\<exists>d'. shared_secrets E via eph ct d =
     (Inr (x_dh (en_prims E) seed eph, kem_decaps (en_prims E) (fst (kem_gen (en_prims E) g)) ct), d')"
proof (cases via)
  case (Local keys)
  then show ?thesis using assms
    by (simp add: shared_secrets_def opens_as_def keys_from_seed_and_kem_def x25519_from_seed_def
        ml_kem_decapsulate_local_def dh_def prim_laws run)
next
  case Provider
  then have h: "provider_holds E seed g" using assms(2) by (simp add: opens_as_def)
  obtain x where x: "en_dh E (dv_tick d) eph = Inr x" "shared_from (en_prims E) x = Inr (x_dh (en_prims E) seed eph)"
    using h assms(3) unfolding provider_holds_def Let_def by metis
  obtain k where k: "en_decaps E (dv_tick d + 1) ct = Inr k"
      "shared_from (en_prims E) k = Inr (kem_decaps (en_prims E) (fst (kem_gen (en_prims E) g)) ct)"
    using h assms(4) unfolding provider_holds_def Let_def by metis
  show ?thesis using Provider x k by (simp add: shared_secrets_def callD_def run)
qed

lemma ratchet_kem_ss_ok:
  assumes "prims_ok (en_prims E)" "opens_as E via seed g" "b64_dec (en_prims E) (env_eph envl) = Some eph"
    and "b64_dec (en_prims E) (env_kem envl) = Some ct" "length ct = 1088"
  shows "\<exists>d'. ratchet_kem_ss E envl via d = (Inr (kem_decaps (en_prims E) (fst (kem_gen (en_prims E) g)) ct), d')"
proof (cases via)
  case (Local keys)
  then show ?thesis using assms
    by (simp add: ratchet_kem_ss_def opens_as_def keys_from_seed_and_kem_def x25519_from_seed_def
        ml_kem_decapsulate_local_def envelope_recipient_inputs_def prim_laws run)
next
  case Provider
  then have h: "provider_holds E seed g" using assms(2) by (simp add: opens_as_def)
  obtain k where k: "en_decaps E (dv_tick d) ct = Inr k"
      "shared_from (en_prims E) k = Inr (kem_decaps (en_prims E) (fst (kem_gen (en_prims E) g)) ct)"
    using h assms(5) unfolding provider_holds_def Let_def by metis
  show ?thesis using Provider k assms(3,4)
    by (simp add: ratchet_kem_ss_def envelope_recipient_inputs_def callD_def run)
qed

lemma sign_bytes_ok:
  assumes "signs_as E auth seed"
  shows "\<exists>d'. sign_bytes E m auth d = (Inr (ed_sign (ed_raw_sign (en_prims E)) m seed), d')"
proof (cases "auth = []")
  case True
  then obtain g where "provider_holds E seed g" using assms by (auto simp: signs_as_def)
  then obtain r where "en_sign E (dv_tick d) m = Inr r"
      "j_get_str ''signature_hex'' (data_of r) = Some (ed_sign (ed_raw_sign (en_prims E)) m seed)"
    unfolding provider_holds_def Let_def by metis
  then show ?thesis using True by (simp add: sign_bytes_def callD_def run)
next
  case False
  then show ?thesis using assms by (simp add: sign_bytes_def signs_as_def run)
qed

lemma build_inner_ok:
  assumes "signs_as E auth seed"
  shows "\<exists>d'. build_inner E knd body did auth rh d = (Inr \<lparr>in_kind = knd, in_sender_did = did,
     in_ts = en_now E (dv_tick d), in_body = body,
     in_sig = ed_sign (ed_raw_sign (en_prims E)) (as_bytes (inner_sign_bytes (en_jstr E) knd body did (en_now E (dv_tick d)) rh)) seed,
     in_rh = rh\<rparr>, d')"
  using sign_bytes_ok [OF assms, of "as_bytes (inner_sign_bytes (en_jstr E) knd body did (en_now E (dv_tick d)) rh)" d]
  by (auto simp: build_inner_def nowD_def run)

lemma verify_signed_inner:
  assumes "prims_ok (en_prims E)" "in_sender_did i = did_of_seed (en_prims E) seed"
    and "in_sig i = ed_sign (ed_raw_sign (en_prims E)) (as_bytes (inner_sign_bytes (en_jstr E) (in_kind i) (in_body i)
           (in_sender_did i) (in_ts i) (in_rh i))) seed"
  shows "verify_inner E i = Inr True"
  using assms did_of_seed_prefix did_of_seed_key [OF assms(1)] by (simp add: verify_inner_def ed_verify_sign)

lemma encrypt_inner_ok:
  assumes "env_ok E"
  shows "\<exists>e r n d'. encrypt_inner_for_peer E i (keys_of_seed (en_prims E) seed g) d =
     (encrypt_to_hybrid (en_prims E) (en_text E (inner_json i)) (x_pub (en_prims E) seed) (snd (kem_gen (en_prims E) g)) e r n, d') \<and>
     length n = 12"
  using assms
  by (simp add: encrypt_inner_for_peer_def Let_def keys_of_seed_def env_ok_def prim_laws run drawD_def callD_def) blast

lemma open_sealed_inner:
  assumes E: "env_ok E" "same_world E E'" and via: "opens_as E' via seed g" and i: "inner_fits i" "js_ok (inner_json i)"
    and s: "4 + length (en_text E (inner_json i)) < 2 ^ 32" "utf8_valid (as_bytes (en_text E (inner_json i)))"
    and e: "encrypt_to_hybrid (en_prims E) (en_text E (inner_json i)) (x_pub (en_prims E) seed) (snd (kem_gen (en_prims E) g)) eph r n = Inr envl"
      "length n = 12"
  shows "\<exists>d'. decrypt_envelope_to_inner E' envl via d = (Inr i, d')"
proof -
  define P where "P = en_prims E"
  have P: "prims_ok P" "en_prims E' = P" "en_parse E' = en_parse E" "en_text E' = en_text E"
    using E by (auto simp: env_ok_def same_world_def P_def)
  define ct where "ct = fst (kem_encaps P (snd (kem_gen P g)) r)"
  have envl: "envl = \<lparr>env_v = ENVELOPE_VERSION, env_eph = b64_enc P (x_pub P eph), env_kem = b64_enc P ct,
     env_n = b64_enc P n, env_ct = b64_enc P (aead_seal P (derive_key P (x_dh P eph (x_pub P seed))
       (snd (kem_encaps P (snd (kem_gen P g)) r))) n (pad_plaintext (as_bytes (en_text E (inner_json i)))))\<rparr>"
    using e(1) P(1) by (simp add: encrypt_to_hybrid_ok prim_laws ct_def P_def [symmetric])
  obtain d' where d': "shared_secrets E' via (x_pub P eph) ct d = (Inr (x_dh P seed (x_pub P eph),
      kem_decaps P (fst (kem_gen P g)) ct), d')"
    using shared_secrets_ok [OF _ via, of "x_pub P eph" ct d] P by (auto simp: prim_laws ct_def)
  have "open_with_secrets P envl (x_dh P seed (x_pub P eph)) (kem_decaps P (fst (kem_gen P g)) ct) =
      Inr (en_text E (inner_json i))"
    using P(1) s e(2) by (intro open_sealed [where nonce = n])
      (simp_all add: envl ENVELOPE_VERSION_def ct_def prim_laws x_dh_commute [of P eph seed])
  then have "open_envelope E' envl via d = (Inr (en_text E (inner_json i)), d')"
    using d' P by (simp add: open_envelope_def envelope_recipient_inputs_def envl prim_laws run)
  moreover have "en_parse E (en_text E (inner_json i)) = Some (inner_json i)"
    using E(1) i(2) by (simp add: env_ok_def json_codec_def)
  ultimately show ?thesis using P i(1) by (simp add: decrypt_envelope_to_inner_def run)
qed

end
