(* ===== verification/Sending.thy ===== *)
theory Sending
imports Inner Ratchet_Sync
begin

text \<open>
  The sending side of \<open>capsules/hey-core/src/api/dms.rs\<close>: the ratchet files, the wire of a
  ratchet message, sealing a body for one contact and publishing it, sending a message, and
  the rotation of an inbound queue with the welcome that announces it.
\<close>

section \<open>Ratchet files\<close>

definition ratchet_path :: "string \<Rightarrow> string" where
  "ratchet_path did = ''dm/ratchet/'' @ path_safe did @ ''.json''"

definition read_ratchet :: "env \<Rightarrow> string \<Rightarrow> ratchet_state option io" where
  "read_ratchet E did = loadD E (ratchet_path did) (\<lambda>d. map_option Some (dv_ratchets d (ratchet_path did))) None"

definition write_ratchet :: "env \<Rightarrow> string \<Rightarrow> ratchet_state \<Rightarrow> unit io" where
  "write_ratchet E did st = saveD E (ratchet_path did)
     (\<lambda>d. d\<lparr>dv_ratchets := (dv_ratchets d)(ratchet_path did := Some st)\<rparr>)"

definition remove_ratchet :: "env \<Rightarrow> string \<Rightarrow> unit io" where
  "remove_ratchet E did = ignoreD (saveD E (ratchet_path did)
     (\<lambda>d. d\<lparr>dv_ratchets := (dv_ratchets d)(ratchet_path did := None)\<rparr>))"

definition bootstrapped_ratchet :: "env \<Rightarrow> string \<Rightarrow> string \<Rightarrow> ratchet_state io" where
  "bootstrapped_ratchet E did msg = bindD (read_ratchet E did) (\<lambda>r. case r of
     Some st \<Rightarrow> if is_bootstrapped st then retD st else failD msg | None \<Rightarrow> failD msg)"

section \<open>Wires\<close>

definition wire_json :: "json option \<Rightarrow> hpq_envelope \<Rightarrow> json" where
  "wire_json rh envl = JObj ([(''type'', JStr ''dm.v2'')] @ opt_member ''rh'' rh @ [(''envelope'', envelope_json envl)])"

definition page_json :: "ratchet_header \<Rightarrow> json" where
  "page_json h = JObj ([(''pn'', JInt (int (h_pn h))), (''n'', JInt (int (h_n h)))]
     @ opt_member ''kc'' (map_option JStr (h_kem_ct h)) @ opt_member ''kp'' (map_option JStr (h_kem_pub h)))"

definition build_ratchet_wire :: "env \<Rightarrow> string \<Rightarrow> peer_keys \<Rightarrow> json \<Rightarrow> string \<Rightarrow> string \<Rightarrow> string io" where
  "build_ratchet_wire E peer_did keys body my_did my_seed_hex = (let P = en_prims E in
     bindD (bootstrapped_ratchet E peer_did ''ratchet-capable contact has no ratchet state (refusing to downgrade)'') (\<lambda>st.
     bindD (liftD (ratchet_step_send P st)) (\<lambda>(mk, header, st').
     bindD (write_ratchet E peer_did st') (\<lambda>_.
     bindD (build_inner E KIND_MESSAGE body my_did my_seed_hex (Some header)) (\<lambda>inner.
     bindD (liftD (of_option ''peer ml-kem b64'' (b64_dec P (pk_ml_kem keys)))) (\<lambda>kem.
     bindD (liftD (of_option ''ratchet dh b64'' (b64_dec P (h_dh header)))) (\<lambda>dhs_pub.
     bindD (liftD (guardR (length dhs_pub = 32) ''ratchet dh wrong size'')) (\<lambda>_.
     bindD (drawD E 32) (\<lambda>r. bindD (drawD E 12) (\<lambda>nonce.
     bindD (liftD (encrypt_with_mk P (en_text E (inner_json inner)) mk kem dhs_pub r nonce)) (\<lambda>envl.
     retD (en_text E (wire_json (Some (page_json header)) envl)))))))))))))"

definition single_shot_wire :: "env \<Rightarrow> string \<Rightarrow> peer_keys \<Rightarrow> json \<Rightarrow> string \<Rightarrow> string \<Rightarrow> string io" where
  "single_shot_wire E knd keys body my_did my_seed_hex =
     bindD (build_inner E knd body my_did my_seed_hex None) (\<lambda>inner.
     bindD (encrypt_inner_for_peer E inner keys) (\<lambda>envl. retD (en_text E (wire_json None envl))))"

section \<open>Sending\<close>

definition boot_of :: "string option \<Rightarrow> string list" where
  "boot_of t = (case t of Some x \<Rightarrow> [x] | None \<Rightarrow> [])"

definition send_queue :: "prims \<Rightarrow> string \<Rightarrow> dm_contact \<Rightarrow> string option" where
  "send_queue P my_did c = (if ct_mode c = Regular then Some (pair_inbound_queue P (ct_did c) my_did)
     else ct_their_inbound_queue c)"

definition send_body_to_contact :: "env \<Rightarrow> string \<Rightarrow> json \<Rightarrow> unit io" where
  "send_body_to_contact E peer_did body =
     bindD ensure_profile (\<lambda>(me_did, _).
     bindD (bindD (getD dv_session) (\<lambda>s. liftD (of_option ''not signed in'' s))) (\<lambda>s.
     bindD (find_contact E peer_did) (\<lambda>fc.
     bindD (liftD (of_option ''not a metadata-safe (v2) contact''
       (case fc of Some c \<Rightarrow> if is_v2_active c then Some c else None | None \<Rightarrow> None))) (\<lambda>c.
     bindD (liftD (of_option ''no inbound queue for this contact yet'' (send_queue (en_prims E) me_did c))) (\<lambda>queue.
     let send_pseudonym = or_anonymous (ct_my_send_pseudonym c) in
     bindD (liftD (of_option ''no peer keys for this contact'' (ct_peer_pubkeys c))) (\<lambda>keys.
     bindD (liftD (signing_identity (ct_mode c) (ct_anon_identity c) me_did (ss_auth_key_hex s))) (\<lambda>(my_did, my_seed_hex).
     bindD (if ct_ratchet_capable c then build_ratchet_wire E peer_did keys body my_did my_seed_hex
            else single_shot_wire E KIND_MESSAGE keys body my_did my_seed_hex) (\<lambda>wire.
     let topic = topic_of queue; boot = boot_of (ct_peer_ticket c) in
     bindD (ignoreD (join_topic_with E topic boot)) (\<lambda>_.
     ignoreD (publishD E topic boot send_pseudonym wire))))))))))"

definition clip :: string where "clip = utf8 [240, 159, 147, 142, 32]"

definition preview_of :: "string \<Rightarrow> attachment list \<Rightarrow> string" where
  "preview_of txt atts = (if txt = [] \<and> atts \<noteq> [] then clip @ at_name (hd atts) else txt)"

definition text_body :: "string \<Rightarrow> attachment list \<Rightarrow> json" where
  "text_body txt atts = JObj ([(''text'', JStr txt)] @
     (if atts = [] then [] else [(''attachments'', JArr (map attachment_json atts))]))"

definition send_message_inner :: "env \<Rightarrow> string \<Rightarrow> string \<Rightarrow> attachment list \<Rightarrow> dm_message io" where
  "send_message_inner E peer_did txt atts = (let trimmed = trim txt in
     if trimmed = [] \<and> atts = [] then failD ''empty message''
     else bindD ensure_profile (\<lambda>(me_did, _).
     if peer_did = me_did then failD ''cannot DM yourself''
     else let plain = take_chars 4096 trimmed in
     bindD (find_contact E peer_did) (\<lambda>contact.
     if (case contact of Some c \<Rightarrow> ct_status c = PendingInvite | None \<Rightarrow> False)
     then failD ''Awaiting their invite acceptance''
     else let use_v2 = (case contact of Some c \<Rightarrow> is_v2_active c | None \<Rightarrow> False) in
     if atts \<noteq> [] \<and> \<not> use_v2 then failD ''attachments need a metadata-safe (v2) contact''
     else bindD (if use_v2 then retD False else bindD (get_peer_keys E peer_did) (\<lambda>k. retD (k \<noteq> None))) (\<lambda>legacy_encrypted.
     bindD (uuidD E) (\<lambda>uid. bindD (nowD E) (\<lambda>now.
     let msg = \<lparr>ms_id = uid, ms_text = plain, ms_ts = now, ms_mine = True, ms_encrypted = (use_v2 \<or> legacy_encrypted),
                ms_attachments = atts, ms_sender_name = [], ms_pinned = False\<rparr> in
     bindD (read_conversation E peer_did) (\<lambda>conv.
     bindD (write_conversation E peer_did (conv @ [msg])) (\<lambda>_.
     bindD (touch_contact_message E peer_did (preview_of plain atts) (ms_ts msg) 0) (\<lambda>_.
     if use_v2 then bindD (send_body_to_contact E peer_did (text_body plain atts)) (\<lambda>_. retD msg)
     else failD ''contact is not metadata-safe (v2)'')))))))))"

definition send_message :: "env \<Rightarrow> string \<Rightarrow> string \<Rightarrow> dm_message io" where
  "send_message E peer_did txt = send_message_inner E peer_did txt []"

definition send_message_with_attachments :: "env \<Rightarrow> string \<Rightarrow> string \<Rightarrow> attachment list \<Rightarrow> dm_message io" where
  "send_message_with_attachments E peer_did txt atts = send_message_inner E peer_did txt atts"

section \<open>Rotation\<close>

text \<open>\<open>inner_to_my_did\<close>, empty when there is none.\<close>

definition inner_to_my_did :: "string option io" where
  "inner_to_my_did = bindD (getD dv_session) (\<lambda>s. retD (case s of
     Some x \<Rightarrow> if starts_with (ss_did_key x) ''did:key:z'' then Some (ss_did_key x) else None | None \<Rightarrow> None))"

text \<open>The welcome both \<open>send_rotation_welcome\<close> and \<open>receive_handshake\<close> send: any failure is
  dropped. The pseudonym is drawn after the join in the first and before it in the second,
  which makes no difference to either.\<close>

definition welcome_body :: "string \<Rightarrow> json" where
  "welcome_body queue = JObj [(''my_inbound_queue'', JStr queue)]"

definition send_welcome :: "env \<Rightarrow> string \<Rightarrow> peer_keys \<Rightarrow> string \<Rightarrow> identity_mode \<Rightarrow> anon_identity option \<Rightarrow> string list \<Rightarrow> unit io" where
  "send_welcome E their_queue their_keys new_queue mode anon boot =
     bindD (getD dv_session) (\<lambda>s. case s of None \<Rightarrow> retD () | Some s \<Rightarrow>
     bindD inner_to_my_did (\<lambda>me.
     let me_real = (case me of Some x \<Rightarrow> x | None \<Rightarrow> []) in
     (case signing_identity mode anon me_real (ss_auth_key_hex s) of
        Inl _ \<Rightarrow> retD ()
      | Inr (welcome_did, welcome_seed) \<Rightarrow>
          if welcome_did = [] then retD ()
          else bindD (okD (single_shot_wire E KIND_WELCOME their_keys (welcome_body new_queue) welcome_did welcome_seed)) (\<lambda>w.
            case w of None \<Rightarrow> retD () | Some wire \<Rightarrow>
            let topic = topic_of their_queue in
            bindD (ignoreD (join_topic_with E topic boot)) (\<lambda>_.
            bindD (random_hex E 16) (\<lambda>send_pseudonym.
            ignoreD (publishD E topic boot send_pseudonym wire)))))))"

definition send_rotation_welcome ::
    "env \<Rightarrow> string \<Rightarrow> peer_keys \<Rightarrow> string \<Rightarrow> identity_mode \<Rightarrow> anon_identity option \<Rightarrow> string option \<Rightarrow> unit io" where
  "send_rotation_welcome E their_queue their_keys new_queue mode anon peer_ticket =
     send_welcome E their_queue their_keys new_queue mode anon (filter (\<lambda>t. t \<noteq> []) (boot_of peer_ticket))"

definition active_at :: "string \<Rightarrow> dm_contact \<Rightarrow> bool" where
  "active_at did c = (ct_did c = did \<and> ct_status c = Active)"

definition maybe_rotate_inbound_queue :: "env \<Rightarrow> string \<Rightarrow> unit io" where
  "maybe_rotate_inbound_queue E peer_did = bindD (list_contacts E) (\<lambda>l.
     case find (active_at peer_did) l of None \<Rightarrow> retD () | Some c \<Rightarrow>
     if ct_my_inbound_queue c = None then retD ()
     else bindD (nowD E) (\<lambda>now.
     let (expired, c1) = prune_retired_queues (count_message now c) now in
     bindD (if rotation_due c1 now
            then bindD (rotate_contact_queue E c1 now) (\<lambda>(new_queue, c2). retD (Some new_queue, c2))
            else retD (None, c1)) (\<lambda>(announce, c2).
     bindD (okD (write_contacts E (upd_first (active_at peer_did) (\<lambda>_. c2) l))) (\<lambda>w.
     case w of None \<Rightarrow> retD () | Some _ \<Rightarrow>
     bindD (forD (\<lambda>t. bindD (forget_topic E t) (\<lambda>_. purge_topicD E t)) expired) (\<lambda>_.
     case announce of None \<Rightarrow> retD () | Some new_queue \<Rightarrow>
     bindD (ignoreD (join_topic_with E (topic_of new_queue) [])) (\<lambda>_.
     case (ct_their_inbound_queue c2, ct_peer_pubkeys c2) of
       (Some tq, Some tk) \<Rightarrow>
         send_rotation_welcome E tq tk new_queue (ct_mode c2) (ct_anon_identity c2) (ct_peer_ticket c2)
     | _ \<Rightarrow> retD ()))))))"

end
