(* ===== verification/Group_Chat.thy ===== *)
theory Group_Chat
imports Sending
begin

text \<open>
  Group chat of \<open>capsules/hey-core/src/api/dms.rs\<close>: a group is a roster kept by every member,
  a group message is one sealed message per member with the roster attached.
\<close>

section \<open>Files\<close>

definition GROUPS_FILE :: string where "GROUPS_FILE = ''dm/groups.json''"
definition DECLINED_GROUPS_FILE :: string where "DECLINED_GROUPS_FILE = ''dm/declined-groups.json''"

definition group_conv_path :: "string \<Rightarrow> string" where
  "group_conv_path gid = ''dm/group-conv/'' @ filter ascii_alnum gid @ ''.json''"

definition read_groups :: "env \<Rightarrow> group list io" where
  "read_groups E = loadD E GROUPS_FILE dv_groups []"

definition write_groups :: "env \<Rightarrow> group list \<Rightarrow> unit io" where
  "write_groups E l = saveD E GROUPS_FILE (\<lambda>d. d\<lparr>dv_groups := Some l\<rparr>)"

definition list_groups :: "env \<Rightarrow> group list io" where
  "list_groups E = bindD (read_groups E) (\<lambda>g. retD (sort_key (\<lambda>g. - gr_last_ts g) g))"

definition read_group_conversation :: "env \<Rightarrow> string \<Rightarrow> dm_message list io" where
  "read_group_conversation E gid = loadD E (group_conv_path gid) (\<lambda>d. dv_group_convs d (group_conv_path gid)) []"

definition write_group_conversation :: "env \<Rightarrow> string \<Rightarrow> dm_message list \<Rightarrow> unit io" where
  "write_group_conversation E gid msgs = saveD E (group_conv_path gid)
     (\<lambda>d. d\<lparr>dv_group_convs := (dv_group_convs d)(group_conv_path gid := Some msgs)\<rparr>)"

definition read_declined_groups :: "env \<Rightarrow> string list io" where
  "read_declined_groups E = loadD E DECLINED_GROUPS_FILE dv_declined []"

definition find_group :: "string \<Rightarrow> group list \<Rightarrow> group option" where
  "find_group gid l = find (\<lambda>g. gr_id g = gid) l"

definition upd_group :: "string \<Rightarrow> (group \<Rightarrow> group) \<Rightarrow> group list \<Rightarrow> group list" where
  "upd_group gid f l = upd_first (\<lambda>g. gr_id g = gid) f l"

definition touch_group :: "env \<Rightarrow> string \<Rightarrow> string \<Rightarrow> int \<Rightarrow> nat \<Rightarrow> unit io" where
  "touch_group E gid preview ts unread_delta = bindD (read_groups E) (\<lambda>l.
     if find_group gid l = None then retD ()
     else ignoreD (write_groups E (upd_group gid (\<lambda>g. g\<lparr>gr_last_ts := max ts (gr_last_ts g),
       gr_last_preview := take_chars 120 preview, gr_unread := sat_add32 (gr_unread g) unread_delta\<rparr>) l)))"

section \<open>Rosters\<close>

definition group_ctx :: "group \<Rightarrow> json" where
  "group_ctx g = JObj [(''id'', JStr (gr_id g)), (''name'', JStr (gr_name g)),
     (''members'', JArr (map member_json (gr_members g))), (''createdBy'', JStr (gr_created_by g)),
     (''bio'', JStr (gr_bio g)), (''avatarCid'', case gr_avatar_cid g of Some c \<Rightarrow> JStr c | None \<Rightarrow> JNull)]"

definition members_of_ctx :: "json \<Rightarrow> group_member list" where
  "members_of_ctx ctx = (case j_get ''members'' ctx of
     Some (JArr vs) \<Rightarrow> (case those (map member_of vs) of Some l \<Rightarrow> l | None \<Rightarrow> []) | _ \<Rightarrow> [])"

definition str_or :: "string \<Rightarrow> string option \<Rightarrow> string" where
  "str_or dflt v = (case v of Some s \<Rightarrow> s | None \<Rightarrow> dflt)"

definition bootstrap_roster_contact :: "env \<Rightarrow> group_member \<Rightarrow> unit io" where
  "bootstrap_roster_contact E m = (case gm_peer_pubkeys m of None \<Rightarrow> retD ()
     | Some keys \<Rightarrow> bindD (bootstrap_contact_from_keys E (gm_did m) (gm_name m) keys (gm_peer_ticket m) False) (\<lambda>_. retD ()))"

definition merge_ctx :: "string \<Rightarrow> group_member list \<Rightarrow> string \<Rightarrow> string \<Rightarrow> string option \<Rightarrow> group \<Rightarrow> group" where
  "merge_ctx name members created_by bio avatar g = g\<lparr>
     gr_name := (if name \<noteq> [] then name else gr_name g),
     gr_members := (if length members > length (gr_members g) then members else gr_members g),
     gr_created_by := (if created_by \<noteq> [] then created_by else gr_created_by g),
     gr_bio := (if bio \<noteq> [] then bio else gr_bio g),
     gr_avatar_cid := (if avatar \<noteq> None then avatar else gr_avatar_cid g)\<rparr>"

definition upsert_group_from_ctx :: "env \<Rightarrow> json \<Rightarrow> string option io" where
  "upsert_group_from_ctx E ctx = (case j_get_str ''id'' ctx of None \<Rightarrow> retD None | Some gid \<Rightarrow>
     if gid = [] then retD None
     else bindD (read_declined_groups E) (\<lambda>declined.
     if gid \<in> set declined then retD None
     else let name = str_or ''Group'' (j_get_str ''name'' ctx); members = members_of_ctx ctx;
              created_by = str_or [] (j_get_str ''createdBy'' ctx); bio = str_or [] (j_get_str ''bio'' ctx);
              avatar = j_get_str ''avatarCid'' ctx in
     bindD (forD (bootstrap_roster_contact E) members) (\<lambda>_.
     bindD (read_groups E) (\<lambda>l. bindD (nowD E) (\<lambda>now.
     let l' = (if find_group gid l \<noteq> None then upd_group gid (merge_ctx name members created_by bio avatar) l
               else l @ [\<lparr>gr_id = gid, gr_name = name, gr_members = members, gr_last_ts = now, gr_last_preview = [],
                          gr_unread = 0, gr_created_by = created_by, gr_bio = bio, gr_avatar_cid = avatar,
                          gr_pending = True\<rparr>])
     in bindD (ignoreD (write_groups E l')) (\<lambda>_. retD (Some gid)))))))"

definition roster_member :: "dm_contact \<Rightarrow> group_member res" where
  "roster_member c = bindR (if trim (ct_name c) = [] then short_did_label (ct_did c) else Inr (ct_name c)) (\<lambda>name.
     Inr \<lparr>gm_did = ct_did c, gm_name = name, gm_peer_pubkeys = ct_peer_pubkeys c, gm_peer_ticket = ct_peer_ticket c\<rparr>)"

definition my_roster_member :: "env \<Rightarrow> string \<Rightarrow> string \<Rightarrow> group_member io" where
  "my_roster_member E me_did me_name = bindD (my_pubkeys E) (\<lambda>k. bindD (my_ticket E) (\<lambda>t.
     retD \<lparr>gm_did = me_did, gm_name = me_name, gm_peer_pubkeys = k, gm_peer_ticket = t\<rparr>))"

section \<open>Operations of the user\<close>

definition accept_group :: "env \<Rightarrow> string \<Rightarrow> unit io" where
  "accept_group E gid = bindD (read_groups E) (\<lambda>l. write_groups E (upd_group gid (\<lambda>g. g\<lparr>gr_pending := False\<rparr>) l))"

definition decline_group :: "env \<Rightarrow> string \<Rightarrow> unit io" where
  "decline_group E gid = bindD (read_groups E) (\<lambda>l.
     bindD (write_groups E (filter (\<lambda>g. gr_id g \<noteq> gid) l)) (\<lambda>_.
     bindD (read_declined_groups E) (\<lambda>declined.
     if gid \<in> set declined then retD ()
     else ignoreD (saveD E DECLINED_GROUPS_FILE (\<lambda>d. d\<lparr>dv_declined := Some (declined @ [gid])\<rparr>)))))"

text \<open>The fan-out: every member of the roster but ourselves, failures dropped.\<close>

definition fan_out :: "env \<Rightarrow> string \<Rightarrow> group \<Rightarrow> json \<Rightarrow> unit io" where
  "fan_out E me_did g body = forD (\<lambda>m. if gm_did m = me_did then retD ()
     else ignoreD (send_body_to_contact E (gm_did m) body)) (gr_members g)"

definition announce :: "env \<Rightarrow> string \<Rightarrow> group \<Rightarrow> unit io" where
  "announce E me_did g = fan_out E me_did g (JObj [(''group'', group_ctx g)])"

definition owner_or_legacy :: "string \<Rightarrow> group \<Rightarrow> bool" where
  "owner_or_legacy me_did g = (gr_created_by g = [] \<or> gr_created_by g = me_did)"

definition set_group_meta :: "env \<Rightarrow> string \<Rightarrow> string \<Rightarrow> string option \<Rightarrow> unit io" where
  "set_group_meta E gid bio avatar = bindD ensure_profile (\<lambda>(me_did, _). bindD (read_groups E) (\<lambda>l.
     bindD (liftD (of_option ''no such group'' (find_group gid l))) (\<lambda>g.
     if \<not> owner_or_legacy me_did g then failD ''only the group owner can edit group info''
     else let g' = g\<lparr>gr_bio := take_chars 280 bio,
                     gr_avatar_cid := (if avatar \<noteq> None then avatar else gr_avatar_cid g)\<rparr> in
     bindD (write_groups E (upd_group gid (\<lambda>_. g') l)) (\<lambda>_. announce E me_did g'))))"

fun gather_members :: "string \<Rightarrow> dm_contact list \<Rightarrow> group_member list \<Rightarrow> string list \<Rightarrow> group_member list res" where
  "gather_members me_did contacts ms [] = Inr ms"
| "gather_members me_did contacts ms (did # dids) =
     (if did = me_did then gather_members me_did contacts ms dids
      else case find (\<lambda>c. ct_did c = did \<and> is_v2_active c) contacts of
        None \<Rightarrow> bindR (short_did_label did) (\<lambda>l. Inl (Error (l @ '' is not an active contact'')))
      | Some c \<Rightarrow> if did \<in> gm_did ` set ms then gather_members me_did contacts ms dids
          else bindR (roster_member c) (\<lambda>m. gather_members me_did contacts (ms @ [m]) dids))"

definition create_group :: "env \<Rightarrow> string \<Rightarrow> string list \<Rightarrow> string io" where
  "create_group E name member_dids = bindD ensure_profile (\<lambda>(me_did, me_name).
     bindD (list_contacts E) (\<lambda>contacts.
     bindD (my_roster_member E me_did me_name) (\<lambda>me.
     bindD (liftD (gather_members me_did contacts [me] member_dids)) (\<lambda>members.
     if length members < 2 then failD ''a group needs at least one other member''
     else bindD (random_hex E 16) (\<lambda>gid. bindD (nowD E) (\<lambda>now.
     let g = \<lparr>gr_id = gid, gr_name = trim name, gr_members = members, gr_last_ts = now,
              gr_last_preview = ''Group created'', gr_unread = 0, gr_created_by = me_did, gr_bio = [],
              gr_avatar_cid = None, gr_pending = False\<rparr> in
     bindD (read_groups E) (\<lambda>l. bindD (write_groups E (l @ [g])) (\<lambda>_.
     bindD (announce E me_did g) (\<lambda>_. retD gid)))))))))"

definition group_body :: "string \<Rightarrow> attachment list \<Rightarrow> json \<Rightarrow> json" where
  "group_body txt atts ctx = JObj ([(''text'', JStr txt)] @
     (if atts = [] then [] else [(''attachments'', JArr (map attachment_json atts))]) @ [(''group'', ctx)])"

definition send_group_message_inner :: "env \<Rightarrow> string \<Rightarrow> string \<Rightarrow> attachment list \<Rightarrow> dm_message io" where
  "send_group_message_inner E gid txt atts = (let trimmed = trim txt in
     if trimmed = [] \<and> atts = [] then failD ''empty message''
     else bindD ensure_profile (\<lambda>(me_did, me_name). bindD (read_groups E) (\<lambda>l.
     bindD (liftD (of_option ''no such group'' (find_group gid l))) (\<lambda>g.
     let plain = take_chars 4096 trimmed in
     bindD (uuidD E) (\<lambda>uid. bindD (nowD E) (\<lambda>now.
     let msg = \<lparr>ms_id = uid, ms_text = plain, ms_ts = now, ms_mine = True, ms_encrypted = True,
                ms_attachments = atts, ms_sender_name = me_name, ms_pinned = False\<rparr> in
     bindD (read_group_conversation E gid) (\<lambda>conv.
     bindD (write_group_conversation E gid (conv @ [msg])) (\<lambda>_.
     bindD (touch_group E gid (preview_of plain atts) (ms_ts msg) 0) (\<lambda>_.
     bindD (fan_out E me_did g (group_body plain atts (group_ctx g))) (\<lambda>_. retD msg))))))))))"

definition send_group_message :: "env \<Rightarrow> string \<Rightarrow> string \<Rightarrow> dm_message io" where
  "send_group_message E gid txt = send_group_message_inner E gid txt []"

definition send_group_message_with_attachments :: "env \<Rightarrow> string \<Rightarrow> string \<Rightarrow> attachment list \<Rightarrow> dm_message io" where
  "send_group_message_with_attachments E gid txt atts = send_group_message_inner E gid txt atts"

fun extend_members :: "string \<Rightarrow> dm_contact list \<Rightarrow> group_member list \<Rightarrow> string list \<Rightarrow> group_member list res" where
  "extend_members me_did contacts ms [] = Inr ms"
| "extend_members me_did contacts ms (did # dids) =
     (if did = me_did \<or> did \<in> gm_did ` set ms then extend_members me_did contacts ms dids
      else case find (\<lambda>c. ct_did c = did \<and> is_v2_active c) contacts of
        None \<Rightarrow> bindR (short_did_label did) (\<lambda>l. Inl (Error (l @ '' is not an active contact'')))
      | Some c \<Rightarrow> bindR (roster_member c) (\<lambda>m. extend_members me_did contacts (ms @ [m]) dids))"

definition add_group_members :: "env \<Rightarrow> string \<Rightarrow> string list \<Rightarrow> unit io" where
  "add_group_members E gid new_dids = bindD ensure_profile (\<lambda>(me_did, _). bindD (list_contacts E) (\<lambda>contacts.
     bindD (read_groups E) (\<lambda>l.
     bindD (liftD (of_option ''no such group'' (find_group gid l))) (\<lambda>g.
     bindD (liftD (extend_members me_did contacts (gr_members g) new_dids)) (\<lambda>members.
     let g' = g\<lparr>gr_members := members\<rparr> in
     bindD (write_groups E (upd_group gid (\<lambda>_. g') l)) (\<lambda>_. announce E me_did g'))))))"

definition remove_group_member :: "env \<Rightarrow> string \<Rightarrow> string \<Rightarrow> unit io" where
  "remove_group_member E gid member_did = bindD ensure_profile (\<lambda>(me_did, _). bindD (read_groups E) (\<lambda>l.
     bindD (liftD (of_option ''no such group'' (find_group gid l))) (\<lambda>g.
     if \<not> owner_or_legacy me_did g then failD ''only the group owner can remove members''
     else if member_did = me_did then failD ''can't remove yourself''
     else let g' = g\<lparr>gr_members := filter (\<lambda>m. gm_did m \<noteq> member_did) (gr_members g)\<rparr> in
     if length (gr_members g') = length (gr_members g) then failD ''not a member of this group''
     else bindD (write_groups E (upd_group gid (\<lambda>_. g') l)) (\<lambda>_. announce E me_did g'))))"

definition pin_group_message :: "env \<Rightarrow> string \<Rightarrow> string \<Rightarrow> bool \<Rightarrow> unit io" where
  "pin_group_message E gid message_id pinned = bindD (read_group_conversation E gid) (\<lambda>conv.
     if list_ex (\<lambda>m. ms_id m = message_id) conv
     then write_group_conversation E gid (upd_first (\<lambda>m. ms_id m = message_id) (\<lambda>m. m\<lparr>ms_pinned := pinned\<rparr>) conv)
     else failD ''no such message'')"

definition mark_group_read :: "env \<Rightarrow> string \<Rightarrow> unit io" where
  "mark_group_read E gid = bindD (read_groups E) (\<lambda>l. case find_group gid l of
     Some g \<Rightarrow> if gr_unread g \<noteq> 0 then ignoreD (write_groups E (upd_group gid (\<lambda>g. g\<lparr>gr_unread := 0\<rparr>) l)) else retD ()
   | None \<Rightarrow> retD ())"

definition delete_group :: "env \<Rightarrow> string \<Rightarrow> unit io" where
  "delete_group E gid = bindD (read_groups E) (\<lambda>l.
     bindD (write_groups E (filter (\<lambda>g. gr_id g \<noteq> gid) l)) (\<lambda>_.
     ignoreD (saveD E (group_conv_path gid)
       (\<lambda>d. d\<lparr>dv_group_convs := (dv_group_convs d)(group_conv_path gid := None)\<rparr>))))"

section \<open>Incoming group messages\<close>

definition incoming_message :: "string \<Rightarrow> string \<Rightarrow> int \<Rightarrow> attachment list \<Rightarrow> string \<Rightarrow> dm_message" where
  "incoming_message mid txt ts atts sender_name = \<lparr>ms_id = mid, ms_text = take_chars 4096 txt, ms_ts = ts,
     ms_mine = False, ms_encrypted = True, ms_attachments = atts, ms_sender_name = sender_name, ms_pinned = False\<rparr>"

definition store_incoming_group_message ::
    "env \<Rightarrow> json \<Rightarrow> string \<Rightarrow> string \<Rightarrow> int \<Rightarrow> string \<Rightarrow> attachment list \<Rightarrow> bool io" where
  "store_incoming_group_message E ctx sender_did txt ts dedup_id atts =
     bindD (upsert_group_from_ctx E ctx) (\<lambda>g. case g of None \<Rightarrow> failD ''group message with no group id'' | Some gid \<Rightarrow>
     if txt = [] \<and> atts = [] then retD False
     else bindD (read_groups E) (\<lambda>l.
     bindD (case Option.bind (find_group gid l) (\<lambda>g. find (\<lambda>m. gm_did m = sender_did) (gr_members g)) of
         Some m \<Rightarrow> if gm_name m \<noteq> [] then retD (gm_name m) else liftD (short_did_label sender_did)
       | None \<Rightarrow> liftD (short_did_label sender_did)) (\<lambda>sender_name.
     bindD (read_group_conversation E gid) (\<lambda>conv.
     if list_ex (\<lambda>m. ms_id m = dedup_id) conv then retD False
     else let msg = incoming_message dedup_id txt ts atts sender_name in
     bindD (write_group_conversation E gid (conv @ [msg])) (\<lambda>_.
     bindD (touch_group E gid (sender_name @ '': '' @ preview_of (ms_text msg) atts) ts 1) (\<lambda>_. retD True))))))"

end
