(* ===== verification/Invites.thy ===== *)
theory Invites
imports Group_Chat
begin

text \<open>
  Invite links and the handshake of \<open>capsules/hey-core/src/api/dms.rs\<close>: minting, reading,
  revoking and accepting an invite, deleting a conversation, the responder's ratchet
  bootstrap, and the receipt of handshakes and welcomes.
\<close>

section \<open>Invite links\<close>

definition INVITE_LINK_VERSION :: nat where "INVITE_LINK_VERSION = 2"
definition INVITE_TTL_MS :: int where "INVITE_TTL_MS = 24 * 60 * 60 * 1000"

record invite_link =
  il_v :: nat
  il_queue :: string
  il_did :: string
  il_name :: string
  il_keys :: peer_keys
  il_nonce :: string
  il_expires_at :: int
  il_ratchet :: "string option"
  il_node_ticket :: "string option"

text \<open>\<open>RatchetPrekey\<close> has one field; \<open>il_ratchet\<close> is that field.\<close>

definition prekey_json :: "string \<Rightarrow> json" where
  "prekey_json k = JObj [(''dh_pub_b64'', JStr k)]"

definition prekey_of :: "json \<Rightarrow> string option" where
  "prekey_of j = do { ms \<leftarrow> as_fields [''dh_pub_b64''] j; f_str ''dh_pub_b64'' ms }"

definition invite_json :: "invite_link \<Rightarrow> json" where
  "invite_json i = JObj ([(''v'', JInt (int (il_v i))), (''queue'', JStr (il_queue i)), (''did'', JStr (il_did i)),
     (''name'', JStr (il_name i)), (''keys'', peer_keys_json (il_keys i)), (''nonce'', JStr (il_nonce i)),
     (''expires_at'', JInt (il_expires_at i))]
     @ opt_member ''ratchet'' (map_option prekey_json (il_ratchet i))
     @ opt_member ''node_ticket'' (map_option JStr (il_node_ticket i)))"

definition invite_of :: "json \<Rightarrow> invite_link option" where
  "invite_of j = do {
     ms \<leftarrow> as_fields [''v'', ''queue'', ''did'', ''name'', ''keys'', ''nonce'', ''expires_at'', ''ratchet'', ''node_ticket''] j;
     v \<leftarrow> Option.bind (map_of ms ''v'') (j_nat 8);
     q \<leftarrow> f_str ''queue'' ms; did \<leftarrow> f_str ''did'' ms; nm \<leftarrow> f_str_dflt ''name'' ms;
     k \<leftarrow> Option.bind (map_of ms ''keys'') peer_keys_of; nc \<leftarrow> f_str ''nonce'' ms;
     ex \<leftarrow> (case map_of ms ''expires_at'' of None \<Rightarrow> Some 0 | Some x \<Rightarrow> j_i64 x);
     r \<leftarrow> f_opt prekey_of ''ratchet'' ms; t \<leftarrow> f_opt j_str ''node_ticket'' ms;
     Some \<lparr>il_v = v, il_queue = q, il_did = did, il_name = nm, il_keys = k, il_nonce = nc, il_expires_at = ex,
           il_ratchet = r, il_node_ticket = t\<rparr> }"

definition encode_invite_link :: "env \<Rightarrow> invite_link \<Rightarrow> string" where
  "encode_invite_link E i = en_b64url_enc E (as_bytes (en_text E (invite_json i)))"

definition decode_invite_link :: "env \<Rightarrow> int \<Rightarrow> string \<Rightarrow> invite_link res" where
  "decode_invite_link E now token = (let
     stripped = trim token;
     stripped1 = trim (case strip_prefix ''hey-invite:'' stripped of Some s \<Rightarrow> s | None \<Rightarrow> stripped)
     in bindR (of_option ''invite base64'' (en_b64url_dec E stripped1)) (\<lambda>bytes.
        bindR (of_option ''invite json'' (Option.bind (en_parse E (of_bytes bytes)) invite_of)) (\<lambda>invite.
        if il_v invite \<noteq> INVITE_LINK_VERSION \<and> il_v invite \<noteq> 1 then Inl (Error ''unsupported invite link version'')
        else if \<not> starts_with (il_did invite) ''did:key:z'' then Inl (Error ''invite did is not a did:key'')
        else if length (il_queue invite) \<noteq> 64 then Inl (Error ''invite queue is not 256-bit hex'')
        else if il_expires_at invite > 0 \<and> il_expires_at invite < now
             then Inl (Error ''invite link has expired'')
        else Inr invite)))"

section \<open>Minting\<close>

definition invite_preview :: string where
  "invite_preview = ''Invite sent '' @ utf8 [226, 128, 148] @ '' awaiting reply''"

definition accepted_preview :: string where
  "accepted_preview = ''Invite accepted '' @ utf8 [226, 156, 147]"

definition pending_did :: "string \<Rightarrow> string" where
  "pending_did queue = ''pending:'' @ queue"

definition prekey_state :: "bytes \<Rightarrow> bytes \<Rightarrow> ratchet_state" where
  "prekey_state priv pub = \<lparr>rs_rk = [], rs_cks = None, rs_ckr = None, rs_dhs_priv = hx priv, rs_dhs_pub = hx pub,
     rs_dhr_pub = None, rs_ns = 0, rs_nr = 0, rs_pn = 0, rs_skipped = [], rs_kem_priv = None, rs_kem_pub = None,
     rs_peer_kem_pub = None, rs_send_kem_ct = None\<rparr>"

definition mint_for_mode :: "env \<Rightarrow> identity_mode \<Rightarrow> anon_identity option io" where
  "mint_for_mode E mode = (case mode of Anonymous \<Rightarrow> bindD (mint_anon_identity E) (\<lambda>a. retD (Some a)) | Regular \<Rightarrow> retD None)"

definition pending_contact :: "string \<Rightarrow> string \<Rightarrow> int \<Rightarrow> string \<Rightarrow> string \<Rightarrow> identity_mode \<Rightarrow> anon_identity option \<Rightarrow> dm_contact" where
  "pending_contact label queue now recv_pseudonym send_pseudonym mode anon = \<lparr>ct_did = pending_did queue,
     ct_name = trim label, ct_last_ts = now, ct_last_preview = invite_preview, ct_unread = 0,
     ct_my_inbound_queue = Some queue, ct_my_recv_pseudonym = Some recv_pseudonym, ct_their_inbound_queue = None,
     ct_my_send_pseudonym = Some send_pseudonym, ct_peer_ticket = None, ct_peer_pubkeys = None,
     ct_status = PendingInvite, ct_mode = mode, ct_anon_identity = anon, ct_ratchet_capable = False,
     ct_key_verified = True, ct_my_queue_rotated_at = 0, ct_my_queue_msg_count = 0, ct_retired_queues = []\<rparr>"

definition generate_invite :: "env \<Rightarrow> string \<Rightarrow> identity_mode \<Rightarrow> string io" where
  "generate_invite E label mode = (let P = en_prims E in
     bindD ensure_profile (\<lambda>(me_did, me_name).
     bindD (bindD (my_pubkeys E) (\<lambda>k. liftD (of_option ''no pubkeys (not signed in)'' k))) (\<lambda>my_pub.
     bindD (mint_for_mode E mode) (\<lambda>anon.
     let share_did = (case anon of Some a \<Rightarrow> an_did a | None \<Rightarrow> me_did) in
     bindD (liftD (advertised_pubkeys P mode anon my_pub)) (\<lambda>share_pub.
     let share_name = shared_display_name mode me_name in
     bindD (random_hex E 32) (\<lambda>queue. bindD (random_hex E 16) (\<lambda>recv_pseudonym.
     bindD (random_hex E 16) (\<lambda>send_pseudonym. bindD (random_hex E 16) (\<lambda>nonce.
     bindD (drawD E 32) (\<lambda>seed. let (prekey_priv, prekey_pub) = ratchet_keypair P seed in
     bindD (nowD E) (\<lambda>now.
     bindD (upsert_contact_record E (pending_contact label queue now recv_pseudonym send_pseudonym mode anon)) (\<lambda>_.
     bindD (ignoreD (write_ratchet E (pending_did queue) (prekey_state prekey_priv prekey_pub))) (\<lambda>_.
     bindD (ignoreD (join_topic_with E (topic_of queue) [])) (\<lambda>_.
     bindD (nowD E) (\<lambda>now2. bindD (my_ticket E) (\<lambda>ticket.
     retD (''hey-invite:'' @ encode_invite_link E \<lparr>il_v = INVITE_LINK_VERSION, il_queue = queue, il_did = share_did,
        il_name = share_name, il_keys = share_pub, il_nonce = nonce, il_expires_at = now2 + INVITE_TTL_MS,
        il_ratchet = Some (b64_enc P prekey_pub), il_node_ticket = ticket\<rparr>)))))))))))))))))"

section \<open>Revoking and deleting\<close>

fun remove_first :: "('a \<Rightarrow> bool) \<Rightarrow> 'a list \<Rightarrow> 'a list" where
  "remove_first p [] = []"
| "remove_first p (x # xs) = (if p x then xs else x # remove_first p xs)"

definition pending_as :: "string \<Rightarrow> dm_contact \<Rightarrow> bool" where
  "pending_as i c = (ct_status c = PendingInvite \<and> (ct_did c = i \<or> ct_my_inbound_queue c = Some i))"

definition revoke_invite :: "env \<Rightarrow> string \<Rightarrow> unit io" where
  "revoke_invite E i = bindD (list_contacts E) (\<lambda>l. case find (pending_as i) l of
     None \<Rightarrow> retD ()
   | Some removed \<Rightarrow>
       bindD (write_contacts E (remove_first (pending_as i) l)) (\<lambda>_.
       bindD (case ct_my_inbound_queue removed of Some q \<Rightarrow> forget_topic E (topic_of q) | None \<Rightarrow> retD ()) (\<lambda>_.
       remove_ratchet E (ct_did removed))))"

definition owned_topics :: "prims \<Rightarrow> string option \<Rightarrow> dm_contact \<Rightarrow> string list" where
  "owned_topics P my_did c =
     (case ct_my_inbound_queue c of Some q \<Rightarrow> [topic_of q] | None \<Rightarrow> [])
     @ (if ct_mode c = Regular then (case my_did of Some md \<Rightarrow> [topic_of (pair_inbound_queue P md (ct_did c))] | None \<Rightarrow> []) else [])
     @ map (\<lambda>rq. topic_of (rq_queue rq)) (ct_retired_queues c)"

definition remove_conversation :: "env \<Rightarrow> string \<Rightarrow> unit io" where
  "remove_conversation E did = ignoreD (saveD E (conv_path did) (\<lambda>d. d\<lparr>dv_convs := (dv_convs d)(conv_path did := None)\<rparr>))"

definition delete_conversation :: "env \<Rightarrow> string \<Rightarrow> unit io" where
  "delete_conversation E did = bindD (list_contacts E) (\<lambda>l. case find_did did l of
     None \<Rightarrow> retD ()
   | Some removed \<Rightarrow>
       bindD (write_contacts E (remove_first (\<lambda>c. ct_did c = did) l)) (\<lambda>_.
       bindD (okD ensure_profile) (\<lambda>me.
       bindD (forD (\<lambda>t. bindD (forget_topic E t) (\<lambda>_. purge_topicD E t))
           (owned_topics (en_prims E) (map_option fst me) removed)) (\<lambda>_.
       bindD (read_conversation E (ct_did removed)) (\<lambda>conv.
       bindD (forD (\<lambda>att. if at_cid att = [] then retD () else ignoreD (callD (\<lambda>k. en_unpin E k (at_cid att))))
           (concat (map ms_attachments conv))) (\<lambda>_.
       bindD (remove_conversation E (ct_did removed)) (\<lambda>_.
       bindD (remove_ratchet E (ct_did removed)) (\<lambda>_.
       bindD (case ct_my_inbound_queue removed of Some q \<Rightarrow> remove_ratchet E (pending_did q) | None \<Rightarrow> retD ()) (\<lambda>_.
       bindD (read_peer_keys E) (\<lambda>pk.
       bindD (if pk (ct_did removed) \<noteq> None then ignoreD (write_peer_keys E (pk(ct_did removed := None))) else retD ()) (\<lambda>_.
       bindD (read_expiry E) (\<lambda>ex.
       if ex (ct_did removed) \<noteq> None then ignoreD (write_expiry E (ex(ct_did removed := None))) else retD ()))))))))))))"

section \<open>Accepting\<close>

text \<open>The bootstrap block of a handshake.\<close>

record ratchet_bootstrap =
  rb_eph_pub_b64 :: string
  rb_kem_ct_b64 :: string
  rb_dh_pub_b64 :: string
  rb_kem_pub_b64 :: "string option"

definition bootstrap_json :: "ratchet_bootstrap \<Rightarrow> json" where
  "bootstrap_json b = JObj ([(''eph_pub_b64'', JStr (rb_eph_pub_b64 b)), (''kem_ct_b64'', JStr (rb_kem_ct_b64 b)),
     (''dh_pub_b64'', JStr (rb_dh_pub_b64 b))] @ opt_member ''kem_pub_b64'' (map_option JStr (rb_kem_pub_b64 b)))"

definition b64_32 :: "prims \<Rightarrow> string \<Rightarrow> string \<Rightarrow> bytes res" where
  "b64_32 P what s = bindR (of_option (what @ '' b64'') (b64_dec P s)) (\<lambda>b.
     bindR (guardR (length b = 32) (what @ '' wrong size'')) (\<lambda>_. Inr b))"

definition bootstrap_initiator :: "env \<Rightarrow> invite_link \<Rightarrow> string \<Rightarrow> (ratchet_bootstrap \<times> ratchet_state) io" where
  "bootstrap_initiator E invite prekey = (let P = en_prims E in
     bindD (liftD (b64_32 P ''invite x25519'' (pk_x25519 (il_keys invite)))) (\<lambda>alice_x.
     bindD (liftD (of_option ''invite ml-kem b64'' (b64_dec P (pk_ml_kem (il_keys invite))))) (\<lambda>alice_kem.
     bindD (liftD (b64_32 P ''invite ratchet prekey'' prekey)) (\<lambda>prekey_pub.
     bindD (drawD E 32) (\<lambda>eph. let (eph_priv, eph_pub) = ratchet_keypair P eph; x3dh = dh P eph_priv alice_x in
     bindD (drawD E 32) (\<lambda>r.
     bindD (liftD (ml_kem_encapsulate_local P alice_kem r)) (\<lambda>(kem_ct, kem_ss).
     let sk = root_init P x3dh kem_ss in
     bindD (drawD E 32) (\<lambda>dhs. bindD (drawD E 64) (\<lambda>g.
     let st = ratchet_init_initiator P \<lparr>tr_dh = dhs, tr_encaps = [], tr_gen = g\<rparr> sk prekey_pub in
     bindD (liftD (b32 (rs_dhs_pub st))) (\<lambda>dhs_pub.
     retD (\<lparr>rb_eph_pub_b64 = b64_enc P eph_pub, rb_kem_ct_b64 = b64_enc P kem_ct, rb_dh_pub_b64 = b64_enc P dhs_pub,
            rb_kem_pub_b64 = rs_kem_pub st\<rparr>, st)))))))))))"

definition accepted_contact :: "invite_link \<Rightarrow> int \<Rightarrow> string \<Rightarrow> string \<Rightarrow> string \<Rightarrow> identity_mode \<Rightarrow> anon_identity option \<Rightarrow> bool \<Rightarrow> dm_contact" where
  "accepted_contact invite now my_queue recv_pseudonym send_pseudonym mode anon capable = \<lparr>ct_did = il_did invite,
     ct_name = il_name invite, ct_last_ts = now, ct_last_preview = ''Invite accepted'', ct_unread = 0,
     ct_my_inbound_queue = Some my_queue, ct_my_recv_pseudonym = Some recv_pseudonym,
     ct_their_inbound_queue = Some (il_queue invite), ct_my_send_pseudonym = Some send_pseudonym,
     ct_peer_ticket = il_node_ticket invite, ct_peer_pubkeys = Some (il_keys invite), ct_status = Active,
     ct_mode = mode, ct_anon_identity = anon, ct_ratchet_capable = capable, ct_key_verified = True,
     ct_my_queue_rotated_at = 0, ct_my_queue_msg_count = 0, ct_retired_queues = []\<rparr>"

definition handshake_body :: "string \<Rightarrow> string \<Rightarrow> peer_keys \<Rightarrow> ratchet_bootstrap option \<Rightarrow> string option \<Rightarrow> json" where
  "handshake_body my_queue share_name share_pub bootstrap ticket = JObj ([(''my_inbound_queue'', JStr my_queue),
     (''name'', JStr share_name), (''pubkeys'', peer_keys_json share_pub)]
     @ opt_member ''ratchet'' (map_option bootstrap_json bootstrap)
     @ opt_member ''node_ticket'' (map_option JStr ticket))"

definition accept_invite :: "env \<Rightarrow> string \<Rightarrow> identity_mode \<Rightarrow> string io" where
  "accept_invite E token mode = (let P = en_prims E in
     bindD (nowD E) (\<lambda>now0.
     bindD (liftD (decode_invite_link E now0 token)) (\<lambda>invite.
     bindD ensure_profile (\<lambda>(me_did, me_name).
     if il_did invite = me_did then failD ''that's your own invite link''
     else bindD (find_contact E (il_did invite)) (\<lambda>existing.
     if (case existing of Some c \<Rightarrow> ct_status c = Active \<and> ct_peer_pubkeys c \<noteq> None | None \<Rightarrow> False)
     then retD (il_did invite)
     else
     bindD (bindD (getD dv_session) (\<lambda>s. liftD (of_option ''not signed in'' s))) (\<lambda>s.
     bindD (bindD (my_pubkeys E) (\<lambda>k. liftD (of_option ''no pubkeys (not signed in)'' k))) (\<lambda>my_pub.
     bindD (mint_for_mode E mode) (\<lambda>anon.
     bindD (liftD (signing_identity mode anon me_did (ss_auth_key_hex s))) (\<lambda>(my_did, my_seed_hex).
     bindD (liftD (advertised_pubkeys P mode anon my_pub)) (\<lambda>share_pub.
     let share_name = shared_display_name mode me_name in
     bindD (random_hex E 32) (\<lambda>my_queue. bindD (random_hex E 16) (\<lambda>recv_pseudonym. bindD (random_hex E 16) (\<lambda>send_pseudonym.
     bindD (case il_ratchet invite of Some prekey \<Rightarrow> bindD (bootstrap_initiator E invite prekey) (\<lambda>b. retD (Some b))
            | None \<Rightarrow> retD None) (\<lambda>bootstrap.
     bindD (nowD E) (\<lambda>now.
     bindD (upsert_contact_record E (accepted_contact invite now my_queue recv_pseudonym send_pseudonym mode anon (bootstrap \<noteq> None))) (\<lambda>_.
     bindD (case bootstrap of Some (_, st) \<Rightarrow> write_ratchet E (il_did invite) st | None \<Rightarrow> retD ()) (\<lambda>_.
     bindD (ignoreD (join_topic_with E (topic_of my_queue) [])) (\<lambda>_.
     bindD (my_ticket E) (\<lambda>ticket.
     bindD (single_shot_wire E KIND_HANDSHAKE (il_keys invite)
        (handshake_body my_queue share_name share_pub (map_option fst bootstrap) ticket) my_did my_seed_hex) (\<lambda>wire.
     let topic = topic_of (il_queue invite); boot = boot_of (il_node_ticket invite) in
     bindD (ignoreD (join_topic_with E topic boot)) (\<lambda>_.
     bindD (ignoreD (publishD E topic boot send_pseudonym wire)) (\<lambda>_.
     retD (il_did invite)))))))))))))))))))))))"

section \<open>Receiving a handshake\<close>

definition block_field :: "json \<Rightarrow> string \<Rightarrow> string res" where
  "block_field rb k = of_option (''ratchet block missing '' @ k) (j_get_str k rb)"

definition bootstrap_responder_ratchet :: "env \<Rightarrow> dm_contact \<Rightarrow> string \<Rightarrow> json \<Rightarrow> string \<Rightarrow> bool io" where
  "bootstrap_responder_ratchet E c placeholder_did rb real_did = (let P = en_prims E in
     bindD (read_ratchet E placeholder_did) (\<lambda>stash. case stash of None \<Rightarrow> retD False | Some prekey \<Rightarrow>
     if is_bootstrapped prekey then retD False
     else
     bindD (liftD (bindR (block_field rb ''eph_pub_b64'') (\<lambda>s. of_option ''ratchet eph b64'' (b64_dec P s)))) (\<lambda>eph_pub.
     bindD (liftD (bindR (block_field rb ''kem_ct_b64'') (\<lambda>s. of_option ''ratchet kem_ct b64'' (b64_dec P s)))) (\<lambda>kem_ct.
     bindD (liftD (bindR (block_field rb ''dh_pub_b64'') (b64_32 P ''ratchet dh''))) (\<lambda>bob_dh.
     bindD (case j_get_str ''kem_pub_b64'' rb of
         Some s \<Rightarrow> bindD (liftD (of_option ''ratchet kem_pub b64'' (b64_dec P s))) (\<lambda>b. retD (Some b))
       | None \<Rightarrow> retD None) (\<lambda>peer_kem_pub.
     bindD (liftD (decrypt_via_for_contact P c)) (\<lambda>via.
     bindD (shared_secrets E via eph_pub kem_ct) (\<lambda>(x3dh, kem_ss).
     let sk = root_init P x3dh kem_ss in
     bindD (liftD (b32 (rs_dhs_priv prekey))) (\<lambda>prekey_priv. bindD (liftD (b32 (rs_dhs_pub prekey))) (\<lambda>prekey_pub.
     bindD (drawD E 64) (\<lambda>gen0. bindD (drawD E 32) (\<lambda>dhs. bindD (drawD E 32) (\<lambda>enc. bindD (drawD E 64) (\<lambda>g.
     bindD (liftD (ratchet_init_responder P gen0 \<lparr>tr_dh = dhs, tr_encaps = enc, tr_gen = g\<rparr> sk prekey_priv prekey_pub
         bob_dh peer_kem_pub)) (\<lambda>st.
     bindD (write_ratchet E real_did st) (\<lambda>_. retD True))))))))))))))))"

definition pending_on :: "string \<Rightarrow> dm_contact \<Rightarrow> bool" where
  "pending_on queue c = (ct_my_inbound_queue c = Some queue \<and> ct_status c = PendingInvite)"

definition promoted_contact :: "inner_payload \<Rightarrow> string \<Rightarrow> peer_keys \<Rightarrow> string \<Rightarrow> string \<Rightarrow> string \<Rightarrow> string \<Rightarrow> dm_contact \<Rightarrow> dm_contact" where
  "promoted_contact inner their_queue their_keys their_name their_ticket new_queue new_pseudonym c = c\<lparr>
     ct_did := in_sender_did inner, ct_their_inbound_queue := Some their_queue, ct_peer_pubkeys := Some their_keys,
     ct_peer_ticket := (if their_ticket \<noteq> [] then Some their_ticket else ct_peer_ticket c), ct_status := Active,
     ct_name := (if ct_name c = [] \<or> starts_with (ct_name c) ''pending:'' then their_name else ct_name c),
     ct_last_ts := in_ts inner, ct_last_preview := accepted_preview,
     ct_my_inbound_queue := Some new_queue, ct_my_recv_pseudonym := Some new_pseudonym\<rparr>"

definition receive_handshake :: "env \<Rightarrow> inner_payload \<Rightarrow> string \<Rightarrow> unit io" where
  "receive_handshake E inner on_queue = (let body = in_body inner in
     bindD (liftD (of_option ''handshake missing my_inbound_queue'' (j_get_str ''my_inbound_queue'' body))) (\<lambda>their_queue.
     bindD (liftD (of_option ''handshake missing pubkeys'' (Option.bind (j_get ''pubkeys'' body) peer_keys_of))) (\<lambda>their_keys.
     let their_name = str_or [] (j_get_str ''name'' body); their_ticket = str_or [] (j_get_str ''node_ticket'' body) in
     bindD (list_contacts E) (\<lambda>l. case find (pending_on on_queue) l of
       None \<Rightarrow> retD ()
     | Some c0 \<Rightarrow>
       bindD (random_hex E 32) (\<lambda>new_queue. bindD (random_hex E 16) (\<lambda>new_pseudonym.
       let placeholder_did = ct_did c0;
           c = promoted_contact inner their_queue their_keys their_name their_ticket new_queue new_pseudonym c0 in
       bindD (case j_get ''ratchet'' body of
           Some rb \<Rightarrow> bindD (bootstrap_responder_ratchet E c placeholder_did rb (in_sender_did inner)) (\<lambda>ok.
             if ok then retD True else failD ''responder ratchet bootstrap: prekey stash missing'')
         | None \<Rightarrow> bindD (remove_ratchet E placeholder_did) (\<lambda>_. retD False)) (\<lambda>capable.
       let c' = c\<lparr>ct_ratchet_capable := capable\<rparr> in
       bindD (write_contacts E (sort_contacts (remove_first (pending_on on_queue) l @ [c']))) (\<lambda>_.
       bindD (if capable then remove_ratchet E placeholder_did else retD ()) (\<lambda>_.
       bindD (getD dv_session) (\<lambda>s. if s = None then retD () else
       bindD (liftD (case signing_identity (ct_mode c') (ct_anon_identity c') [] [] of Inl _ \<Rightarrow> Inr False | Inr _ \<Rightarrow> Inr True)) (\<lambda>can_sign.
       if \<not> can_sign then retD () else
       bindD (send_welcome E their_queue their_keys new_queue (ct_mode c') (ct_anon_identity c')
          (if their_ticket \<noteq> [] then [their_ticket] else [])) (\<lambda>_.
       case ct_my_inbound_queue c0 of
         Some old \<Rightarrow> bindD (forget_topic E (topic_of old)) (\<lambda>_. purge_topicD E (topic_of old))
       | None \<Rightarrow> retD ()))))))))))))"

section \<open>Receiving a welcome\<close>

definition receive_welcome :: "env \<Rightarrow> inner_payload \<Rightarrow> unit io" where
  "receive_welcome E inner =
     bindD (liftD (of_option ''welcome missing my_inbound_queue'' (j_get_str ''my_inbound_queue'' (in_body inner)))) (\<lambda>new_queue.
     bindD (list_contacts E) (\<lambda>l. case find_did (in_sender_did inner) l of
       None \<Rightarrow> retD ()
     | Some c \<Rightarrow>
         bindD (write_contacts E (upd_did (in_sender_did inner) (\<lambda>c. c\<lparr>ct_their_inbound_queue := Some new_queue\<rparr>) l)) (\<lambda>_.
         case ct_their_inbound_queue c of
           Some prev \<Rightarrow> if prev \<noteq> new_queue then purge_topicD E (topic_of prev) else retD ()
         | None \<Rightarrow> retD ())))"

end
