(* ===== verification/Receiving.thy ===== *)
theory Receiving
imports Invites
begin

text \<open>
  The receiving side of \<open>capsules/hey-core/src/api/dms.rs\<close>: \<open>receive_v2_wire\<close>, which opens a
  wire, checks it and dispatches it, and the path of a ratchet message, which advances a copy
  of the ratchet and commits it last.
\<close>

section \<open>Wire fields\<close>

definition u32_field :: "json \<Rightarrow> string \<Rightarrow> nat res" where
  "u32_field obj k = of_option (''rh missing or out-of-range '' @ k) (Option.bind (j_get k obj) (j_nat 32))"

definition dedup_id :: "prims \<Rightarrow> string \<Rightarrow> hpq_envelope \<Rightarrow> string" where
  "dedup_id P tag envl = tag @ bytes_to_hex (take 16 (sha256 P (as_bytes (env_ct envl) @ as_bytes (env_n envl))))"

definition ratchet_dedup_id :: "prims \<Rightarrow> hpq_envelope \<Rightarrow> string" where
  "ratchet_dedup_id P envl = dedup_id P ''rdm:'' envl"

definition single_shot_dedup_id :: "prims \<Rightarrow> hpq_envelope \<Rightarrow> string" where
  "single_shot_dedup_id P envl = dedup_id P ''sdm:'' envl"

section \<open>Storing\<close>

definition has_id :: "string \<Rightarrow> dm_message list \<Rightarrow> bool" where
  "has_id i conv = list_ex (\<lambda>m. ms_id m = i) conv"

definition conv_has :: "env \<Rightarrow> string \<Rightarrow> string \<Rightarrow> bool io" where
  "conv_has E sender i = bindD (read_conversation E sender) (\<lambda>conv. retD (has_id i conv))"

definition store_incoming_message :: "env \<Rightarrow> string \<Rightarrow> string \<Rightarrow> int \<Rightarrow> string \<Rightarrow> attachment list \<Rightarrow> bool io" where
  "store_incoming_message E sender_did txt ts dedup atts = bindD (read_conversation E sender_did) (\<lambda>conv.
     if has_id dedup conv then retD False
     else let msg = incoming_message dedup txt ts atts [] in
     bindD (write_conversation E sender_did (conv @ [msg])) (\<lambda>_.
     bindD (touch_contact_message E sender_did (preview_of (ms_text msg) atts) (ms_ts msg) 1) (\<lambda>_. retD True)))"

definition body_text :: "json \<Rightarrow> string" where
  "body_text body = str_or [] (j_get_str ''text'' body)"

section \<open>Ratchet messages\<close>

definition draw_turn :: "env \<Rightarrow> turn_rand io" where
  "draw_turn E = bindD (drawD E 32) (\<lambda>a. bindD (drawD E 32) (\<lambda>b. bindD (drawD E 64) (\<lambda>c.
     retD \<lparr>tr_dh = a, tr_encaps = b, tr_gen = c\<rparr>)))"

definition owns_active :: "prims \<Rightarrow> string \<Rightarrow> string \<Rightarrow> dm_contact \<Rightarrow> bool" where
  "owns_active P queue_id my_did c = (owns_inbound_queue_with P c queue_id my_did \<and> ct_status c = Active)"

text \<open>The end of an accepted ratchet message: the plaintext is stored first, the advanced state
  last.\<close>

definition commit_ratchet_message :: "env \<Rightarrow> dm_contact \<Rightarrow> inner_payload \<Rightarrow> string \<Rightarrow> ratchet_state \<Rightarrow> unit io" where
  "commit_ratchet_message E c inner dedup st = (let
     txt = body_text (in_body inner); atts = attachments_from_body (in_body inner);
     finish = (\<lambda>appended. bindD (write_ratchet E (ct_did c) st) (\<lambda>_.
       if appended then maybe_rotate_inbound_queue E (ct_did c) else retD ()))
     in case j_get ''group'' (in_body inner) of
       Some ctx \<Rightarrow> bindD (store_incoming_group_message E ctx (ct_did c) txt (in_ts inner) dedup atts) finish
     | None \<Rightarrow> if txt = [] \<and> atts = [] then failD ''message body has neither text nor attachments''
         else bindD (store_incoming_message E (ct_did c) txt (in_ts inner) dedup atts) finish)"

definition check_ratchet_inner :: "env \<Rightarrow> dm_contact \<Rightarrow> ratchet_header \<Rightarrow> inner_payload \<Rightarrow> unit res" where
  "check_ratchet_inner E c want inner = bindR (verify_inner E inner) (\<lambda>ok.
     bindR (guardR ok ''inner signature mismatch'') (\<lambda>_.
     bindR (guardR (in_rh inner = Some want) ''ratchet header mismatch (sealed vs wire)'') (\<lambda>_.
     bindR (guardR (in_kind inner = KIND_MESSAGE) ''ratchet wire carried a non-message kind'') (\<lambda>_.
     guardR (in_sender_did inner = ct_did c) ''ratchet sender does not match queue owner''))))"

text \<open>An error of the advance or of the decryption is a benign redelivery when the conversation
  already holds this ciphertext.\<close>

definition redelivery_or :: "env \<Rightarrow> dm_contact \<Rightarrow> string \<Rightarrow> 'a res \<Rightarrow> ('a \<Rightarrow> unit io) \<Rightarrow> unit io" where
  "redelivery_or E c dedup r k = (case r of
     Inr x \<Rightarrow> k x
   | Inl (Panic p) \<Rightarrow> liftD (Inl (Panic p))
   | Inl (Error e) \<Rightarrow> bindD (conv_has E (ct_did c) dedup) (\<lambda>b. if b then retD ()
       else failD ''undecryptable/forged, dropped''))"

definition receive_ratchet_message ::
    "env \<Rightarrow> string option \<Rightarrow> hpq_envelope \<Rightarrow> nat \<Rightarrow> nat \<Rightarrow> string option \<Rightarrow> string option \<Rightarrow> unit io" where
  "receive_ratchet_message E queue_id envl pn n kc kp = (let P = en_prims E in
     bindD (liftD (of_option ''bad topic'' queue_id)) (\<lambda>queue.
     bindD my_did_or_empty (\<lambda>my_did. bindD (list_contacts E) (\<lambda>l.
     bindD (liftD (of_option ''ratchet message on an unowned queue'' (find (owns_active P queue my_did) l))) (\<lambda>c.
     if \<not> ct_ratchet_capable c then failD ''ratchet message for a non-ratchet contact''
     else
     bindD (bootstrapped_ratchet E (ct_did c) ''ratchet message but no ratchet state'') (\<lambda>st0.
     bindD (liftD (b64_32 P ''eph'' (env_eph envl))) (\<lambda>dh_bytes.
     let dedup = ratchet_dedup_id P envl in
     bindD (draw_turn E) (\<lambda>R. bindD (nowD E) (\<lambda>now.
     redelivery_or E c dedup (ratchet_step_recv P R now st0 (hx dh_bytes) dh_bytes pn n kc kp) (\<lambda>(mk, st).
     bindD (liftD (decrypt_via_for_contact P c)) (\<lambda>via.
     bindD (ratchet_kem_ss E envl via) (\<lambda>kem_ss.
     redelivery_or E c dedup (open_with_secrets P envl mk kem_ss) (\<lambda>plaintext.
     bindD (liftD (of_option ''inner deserialize'' (Option.bind (en_parse E plaintext) inner_of))) (\<lambda>inner.
     bindD (liftD (check_ratchet_inner E c
         \<lparr>h_dh = env_eph envl, h_pn = pn, h_n = n, h_kem_ct = kc, h_kem_pub = kp\<rparr> inner)) (\<lambda>_.
     commit_ratchet_message E c inner dedup st)))))))))))))))"

section \<open>Receiving a wire\<close>

definition receive_single_shot_message :: "env \<Rightarrow> string option \<Rightarrow> hpq_envelope \<Rightarrow> inner_payload \<Rightarrow> unit io" where
  "receive_single_shot_message E queue_id envl inner = (let P = en_prims E in
     bindD (liftD (of_option ''bad topic'' queue_id)) (\<lambda>queue.
     bindD my_did_or_empty (\<lambda>my_did. bindD (list_contacts E) (\<lambda>l.
     bindD (liftD (of_option ''sender does not match queue owner''
        (find (\<lambda>c. ct_did c = in_sender_did inner \<and> owns_active P queue my_did c) l))) (\<lambda>owner.
     if ct_ratchet_capable owner then failD ''refusing single-shot message from a ratchet-capable contact (downgrade)''
     else let txt = body_text (in_body inner); atts = attachments_from_body (in_body inner);
              dedup = single_shot_dedup_id P envl in
     case j_get ''group'' (in_body inner) of
       Some ctx \<Rightarrow> bindD (store_incoming_group_message E ctx (in_sender_did inner) txt (in_ts inner) dedup atts) (\<lambda>_. retD ())
     | None \<Rightarrow> if txt = [] \<and> atts = [] then failD ''message body has neither text nor attachments''
         else bindD (store_incoming_message E (in_sender_did inner) txt (in_ts inner) dedup atts) (\<lambda>appended.
           if appended then maybe_rotate_inbound_queue E (in_sender_did inner) else retD ()))))))"

definition receive_v2_wire :: "env \<Rightarrow> string \<Rightarrow> string \<Rightarrow> unit io" where
  "receive_v2_wire E topic wire =
     bindD (liftD (of_option ''wire json'' (en_parse E wire))) (\<lambda>v.
     if j_get_str ''type'' v \<noteq> Some ''dm.v2'' then failD ''not a dm.v2 wire''
     else bindD (liftD (of_option ''no envelope'' (j_get ''envelope'' v))) (\<lambda>env_val.
     bindD (liftD (of_option ''envelope shape'' (envelope_of env_val))) (\<lambda>envl.
     let queue_id = queue_id_from_topic topic in
     case j_get ''rh'' v of
       Some rh \<Rightarrow> bindD (liftD (u32_field rh ''pn'')) (\<lambda>pn. bindD (liftD (u32_field rh ''n'')) (\<lambda>n.
         receive_ratchet_message E queue_id envl pn n (j_get_str ''kc'' rh) (j_get_str ''kp'' rh)))
     | None \<Rightarrow>
         bindD (decrypt_via_for_queue E queue_id) (\<lambda>via.
         bindD (decrypt_envelope_to_inner E envl via) (\<lambda>inner.
         bindD (liftD (verify_inner E inner)) (\<lambda>ok.
         if \<not> ok then failD ''inner signature mismatch''
         else if in_kind inner = KIND_MESSAGE then receive_single_shot_message E queue_id envl inner
         else if in_kind inner = KIND_HANDSHAKE then
           bindD (liftD (of_option ''bad topic'' queue_id)) (\<lambda>queue. receive_handshake E inner queue)
         else if in_kind inner = KIND_WELCOME then receive_welcome E inner
         else failD ''unknown inner kind''))))))"

end
