(* ===== verification/Peer_Receiver.thy ===== *)
theory Peer_Receiver
imports Receiving
begin

text \<open>
  The polling loop of \<open>capsules/hey-core/src/peer_receiver.rs\<close>: subscribing to topics,
  draining the per-pair queues into \<open>receive_v2_wire\<close> and plain topics into the handlers
  an application registered, and flushing the outbox. The handlers, the provider of extra
  topics and the name of the capsule are arguments.
\<close>

section \<open>Subscribing\<close>

definition ensure_joined :: "env \<Rightarrow> string \<Rightarrow> string list \<Rightarrow> unit io" where
  "ensure_joined E topic bootstrap = bindD (getD dv_joined) (\<lambda>joined.
     if topic \<in> set joined then retD ()
     else bindD (okD (join_topic_with E topic bootstrap)) (\<lambda>r.
       if r = None then retD () else modD (\<lambda>d. d\<lparr>dv_joined := topic # dv_joined d\<rparr>)))"

section \<open>Draining\<close>

definition recv_messages :: "json \<Rightarrow> json list option" where
  "recv_messages rsp = Option.bind (under_data ''messages'' rsp) j_arr"

definition entry_wire :: "json \<Rightarrow> string option" where
  "entry_wire entry = Option.bind (or_else (j_get ''content'' entry) (j_get ''message'' entry)) j_str"

definition reassembleD :: "env \<Rightarrow> string \<Rightarrow> string option io" where
  "reassembleD E wire = bindD (nowD E) (\<lambda>now. bindD (getD dv_frags) (\<lambda>m.
     let (r, m') = reassemble (en_frag_dec E) now wire m in
     bindD (modD (\<lambda>d. d\<lparr>dv_frags := m'\<rparr>)) (\<lambda>_. retD r)))"

definition consume_entry :: "env \<Rightarrow> string \<Rightarrow> json \<Rightarrow> unit io" where
  "consume_entry E topic entry = (case entry_wire entry of None \<Rightarrow> retD ()
     | Some wire \<Rightarrow> bindD (reassembleD E wire) (\<lambda>full. case full of None \<Rightarrow> retD ()
         | Some w \<Rightarrow> ignoreD (receive_v2_wire E topic w)))"

definition consume_v2_queue :: "env \<Rightarrow> string \<Rightarrow> string \<Rightarrow> unit io" where
  "consume_v2_queue E topic consumer_id =
     bindD (okD (callD (\<lambda>k. en_recv E k topic consumer_id None))) (\<lambda>r.
     case Option.bind r recv_messages of None \<Rightarrow> retD ()
     | Some arr \<Rightarrow> forD (consume_entry E topic) arr)"

section \<open>Signed events\<close>

definition signed_event_of :: "json \<Rightarrow> signed_event option" where
  "signed_event_of j = do {
     ms \<leftarrow> as_fields [''type'', ''payload'', ''sender_did'', ''ts'', ''signature''] j;
     t \<leftarrow> f_str ''type'' ms; p \<leftarrow> map_of ms ''payload''; s \<leftarrow> f_str ''sender_did'' ms;
     ts \<leftarrow> Option.bind (map_of ms ''ts'') j_i64; sig \<leftarrow> f_str ''signature'' ms;
     Some \<lparr>ev_type = t, ev_payload = p, ev_sender_did = s, ev_ts = ts, ev_signature = sig\<rparr> }"

definition signed_event_json :: "signed_event \<Rightarrow> json" where
  "signed_event_json e = JObj [(''type'', JStr (ev_type e)), (''payload'', ev_payload e),
     (''sender_did'', JStr (ev_sender_did e)), (''ts'', JInt (ev_ts e)), (''signature'', JStr (ev_signature e))]"

definition to_wire_string :: "env \<Rightarrow> signed_event \<Rightarrow> string" where
  "to_wire_string E e = en_text E (signed_event_json e)"

definition from_wire_string :: "env \<Rightarrow> string \<Rightarrow> signed_event option" where
  "from_wire_string E s = Option.bind (en_parse E s) signed_event_of"

type_synonym handlers = "string \<Rightarrow> (json \<Rightarrow> string \<Rightarrow> unit io) option"

definition route :: "handlers \<Rightarrow> string \<Rightarrow> json \<Rightarrow> string \<Rightarrow> unit io" where
  "route H event_type payload sender_did = (case H event_type of Some h \<Rightarrow> h payload sender_did | None \<Rightarrow> retD ())"

definition consume_event :: "env \<Rightarrow> handlers \<Rightarrow> json \<Rightarrow> unit io" where
  "consume_event E H entry = (case Option.bind (entry_wire entry) (from_wire_string E) of None \<Rightarrow> retD ()
     | Some evt \<Rightarrow> bindD (liftD (verify_signed_event (en_prims E) (en_jstr E) evt)) (\<lambda>v.
         if v \<noteq> Valid then retD () else ignoreD (route H (ev_type evt) (ev_payload evt) (ev_sender_did evt))))"

definition consume_topic :: "env \<Rightarrow> handlers \<Rightarrow> string \<Rightarrow> string \<Rightarrow> string option \<Rightarrow> unit io" where
  "consume_topic E H topic consumer_id my_did =
     bindD (okD (callD (\<lambda>k. en_recv E k topic consumer_id my_did))) (\<lambda>r.
     case Option.bind r recv_messages of None \<Rightarrow> retD ()
     | Some arr \<Rightarrow> forD (consume_event E H) arr)"

section \<open>Polling\<close>

definition flushD :: "env \<Rightarrow> unit io" where
  "flushD E d = (case flush (en_net E (dv_tick d)) (en_now E (dv_tick d)) (dv_outbox d) of
     Inl e \<Rightarrow> (Inl e, d\<lparr>dv_tick := dv_tick d + 1\<rparr>)
   | Inr f \<Rightarrow> (Inr (), d\<lparr>dv_outbox := f, dv_tick := dv_tick d + 1\<rparr>))"

definition poll_topic :: "env \<Rightarrow> string \<times> string \<times> string list \<Rightarrow> unit io" where
  "poll_topic E = (\<lambda>(topic, consumer, boot).
     bindD (ensure_joined E topic boot) (\<lambda>_.
     bindD (if boot = [] then retD () else bindD (has_topic_peer E topic) (\<lambda>up.
        if up then retD () else bindD (wait_for_topic_peers E topic boot) (\<lambda>_. retD ()))) (\<lambda>_.
     consume_v2_queue E topic consumer)))"

definition poll_once :: "env \<Rightarrow> handlers \<Rightarrow> (string \<times> string list) list io \<Rightarrow> string \<Rightarrow> string \<Rightarrow> unit io" where
  "poll_once E H extra capsule_id my_did = (let consumer_id = capsule_id @ '':'' @ my_did in
     bindD extra (\<lambda>xs.
     bindD (forD (\<lambda>(topic, bootstrap). bindD (ensure_joined E topic bootstrap) (\<lambda>_.
        consume_topic E H topic consumer_id (Some my_did))) xs) (\<lambda>_.
     bindD (my_v2_topics E) (\<lambda>ts.
     bindD (forD (poll_topic E) ts) (\<lambda>_. flushD E)))))"

text \<open>One turn of \<open>run\<close>: nothing while signed out, an error of the poll is dropped.\<close>

definition run_turn :: "env \<Rightarrow> handlers \<Rightarrow> (string \<times> string list) list io \<Rightarrow> string \<Rightarrow> unit io" where
  "run_turn E H extra capsule_id = bindD (getD dv_session) (\<lambda>s. case s of
     Some s \<Rightarrow> ignoreD (poll_once E H extra capsule_id (ss_did_key s)) | None \<Rightarrow> retD ())"

end
