(* ===== verification/Wipe.thy ===== *)
theory Wipe
imports Invites
begin

text \<open>
  Wiping the identity (\<open>wipe_dm_storage\<close> of \<open>capsules/hey-core/src/api/dms.rs\<close>): the files of
  every contact on the list, then the list, the key cache, the expiry map and the outbox.
\<close>

definition clear_outboxD :: "env \<Rightarrow> unit io" where
  "clear_outboxD E = modD (\<lambda>d. d\<lparr>dv_outbox := outbox_clear (en_net E (dv_tick d)) (dv_outbox d)\<rparr>)"

definition wipe_contact :: "env \<Rightarrow> dm_contact \<Rightarrow> unit io" where
  "wipe_contact E c = bindD (remove_conversation E (ct_did c)) (\<lambda>_.
     bindD (remove_ratchet E (ct_did c)) (\<lambda>_.
     case ct_my_inbound_queue c of Some q \<Rightarrow> remove_ratchet E (pending_did q) | None \<Rightarrow> retD ()))"

definition wipe_dm_storage :: "env \<Rightarrow> unit io" where
  "wipe_dm_storage E = bindD (list_contacts E) (\<lambda>contacts.
     bindD (forD (wipe_contact E) contacts) (\<lambda>_.
     bindD (ignoreD (saveD E CONTACTS_FILE (\<lambda>d. d\<lparr>dv_contacts := None\<rparr>))) (\<lambda>_.
     bindD (ignoreD (saveD E PEER_KEYS_FILE (\<lambda>d. d\<lparr>dv_peer_keys := None\<rparr>))) (\<lambda>_.
     bindD (ignoreD (saveD E EXPIRY_FILE (\<lambda>d. d\<lparr>dv_expiry := None\<rparr>))) (\<lambda>_. clear_outboxD E)))))"

end
