(* ===== verification/Plat.thy ===== *)
theory Plat
imports Text Frag Identity
begin

text \<open>
  The loopback transport and the file store of the native client
  (\<open>capsules/hey-core/src/plat.rs\<close>): parsing a URL, splitting a response, undoing the chunked
  transfer coding, and mapping a storage path to path segments. Sockets and files are not
  modelled. \<open>usize\<close> has 64 bits here, as on the targets the native client is built for.
\<close>

section \<open>Lossy UTF-8\<close>

text \<open>\<open>String::from_utf8_lossy\<close>: every maximal prefix of a sequence that cannot be completed is
  replaced by U+FFFD. \<open>seq_ranges\<close> gives the ranges of the bytes after the first.\<close>

definition seq_ranges :: "nat \<Rightarrow> (nat \<times> nat) list option" where
  "seq_ranges b = (if b < 128 then Some []
     else if 194 \<le> b \<and> b \<le> 223 then Some [(128, 191)]
     else if b = 224 then Some [(160, 191), (128, 191)]
     else if b = 237 then Some [(128, 159), (128, 191)]
     else if 225 \<le> b \<and> b \<le> 239 then Some [(128, 191), (128, 191)]
     else if b = 240 then Some [(144, 191), (128, 191), (128, 191)]
     else if 241 \<le> b \<and> b \<le> 243 then Some [(128, 191), (128, 191), (128, 191)]
     else if b = 244 then Some [(128, 143), (128, 191), (128, 191)]
     else None)"

fun seq_match :: "(nat \<times> nat) list \<Rightarrow> bytes \<Rightarrow> nat" where
  "seq_match ((lo, hi) # rs) (b # bs) = (if lo \<le> unat b \<and> unat b \<le> hi then Suc (seq_match rs bs) else 0)"
| "seq_match _ _ = 0"

function lossy :: "bytes \<Rightarrow> bytes" where
  "lossy [] = []"
| "lossy (b # bs) = (case seq_ranges (unat b) of
     None \<Rightarrow> [239, 191, 189] @ lossy bs
   | Some rs \<Rightarrow> let n = seq_match rs bs in
       (if n = length rs then b # take n bs else [239, 191, 189]) @ lossy (drop n bs))"
  by pat_completeness auto
termination by (relation "measure length") (auto simp: le_imp_less_Suc)

definition from_utf8_lossy :: "bytes \<Rightarrow> string" where
  "from_utf8_lossy bs = of_bytes (lossy bs)"

section \<open>Numbers\<close>

text \<open>\<open>from_str_radix\<close> and \<open>parse\<close> for an unsigned type with values below \<open>lim\<close>: an optional plus
  sign and at least one digit, an error on overflow.\<close>

fun digits_in :: "nat \<Rightarrow> nat \<Rightarrow> string \<Rightarrow> nat option" where
  "digits_in r acc [] = Some acc"
| "digits_in r acc (c # cs) = (case hex_value c of
     Some v \<Rightarrow> if v < r then digits_in r (acc * r + v) cs else None | None \<Rightarrow> None)"

definition parse_unsigned :: "nat \<Rightarrow> nat \<Rightarrow> string \<Rightarrow> nat option" where
  "parse_unsigned r lim s = (let t = (case s of CHR ''+'' # u \<Rightarrow> u | _ \<Rightarrow> s) in
     if t = [] then None else case digits_in r 0 t of Some v \<Rightarrow> if v < lim then Some v else None | None \<Rightarrow> None)"

section \<open>URLs\<close>

text \<open>\<open>rsplit_once\<close> on one character.\<close>

definition rsplit_once :: "char \<Rightarrow> string \<Rightarrow> (string \<times> string) option" where
  "rsplit_once c s = (case dropWhile (\<lambda>x. x \<noteq> c) (rev s) of
     [] \<Rightarrow> None | _ # r \<Rightarrow> Some (rev r, rev (takeWhile (\<lambda>x. x \<noteq> c) (rev s))))"

definition parse_url :: "string \<Rightarrow> (string \<times> nat \<times> string) res" where
  "parse_url url = bindR (of_option (''only http:// supported (loopback): '' @ url) (strip_prefix ''http://'' url)) (\<lambda>rest.
     let authority = takeWhile (\<lambda>c. c \<noteq> CHR ''/'') rest; tail = dropWhile (\<lambda>c. c \<noteq> CHR ''/'') rest;
         path = (if tail = [] then ''/'' else tail)
     in case rsplit_once (CHR '':'') authority of
          Some (h, p) \<Rightarrow> bindR (of_option ''bad port'' (parse_unsigned 10 65536 p)) (\<lambda>port. Inr (h, port, path))
        | None \<Rightarrow> Inr (authority, 80, path))"

section \<open>Responses\<close>

fun find_sub :: "'a list \<Rightarrow> 'a list \<Rightarrow> nat option" where
  "find_sub pat [] = (if pat = [] then Some 0 else None)"
| "find_sub pat (x # xs) = (if take (length pat) (x # xs) = pat then Some 0 else map_option Suc (find_sub pat xs))"

definition usize_max :: nat where "usize_max = 2 ^ 64"

definition chunk_size :: "bytes \<Rightarrow> nat" where
  "chunk_size line = (case parse_unsigned 16 usize_max (trim (from_utf8_lossy line)) of Some n \<Rightarrow> n | None \<Rightarrow> 0)"

text \<open>The loop of \<open>dechunk\<close>. Where \<open>start + size\<close> wraps, the slice ends before it begins.\<close>

function dechunk_loop :: "bytes \<Rightarrow> bytes res" where
  "dechunk_loop b = (case find_sub [13, 10] b of None \<Rightarrow> Inr []
     | Some nl \<Rightarrow> let sz = chunk_size (take nl b); start = nl + 2 in
         if sz = 0 then Inr []
         else if start + sz \<ge> usize_max then Inl (Panic ''slice index starts after it ends'')
         else let stop = min (start + sz) (length b) in
           bindR (dechunk_loop (if stop + 2 \<le> length b then drop (stop + 2) b else []))
             (\<lambda>out. Inr (take (stop - start) (drop start b) @ out)))"
  by pat_completeness auto
termination
proof (relation "measure length")
  fix b :: bytes and nl sz start stop
  assume h: "find_sub [13, 10] b = Some nl" "stop = min (start + sz) (length b)"
  then have "b \<noteq> []" by auto
  then show "(if stop + 2 \<le> length b then drop (stop + 2) b else [], b) \<in> measure length" by auto
qed simp

declare dechunk_loop.simps [simp del]

definition dechunk :: "bytes \<Rightarrow> string res" where
  "dechunk b = bindR (dechunk_loop b) (\<lambda>out. Inr (from_utf8_lossy out))"

function split_on :: "string \<Rightarrow> string \<Rightarrow> string list" where
  "split_on pat s = (if pat = [] then [s] else case find_sub pat s of None \<Rightarrow> [s]
     | Some i \<Rightarrow> if s = [] then [s] else take i s # split_on pat (drop (i + length pat) s))"
  by pat_completeness auto
termination by (relation "measure (\<lambda>(_, s). length s)") auto

declare split_on.simps [simp del]

definition to_ascii_lowercase :: "string \<Rightarrow> string" where
  "to_ascii_lowercase = map (\<lambda>c. let n = of_char c :: nat in if 65 \<le> n \<and> n \<le> 90 then char_of (n + 32) else c)"

text \<open>The second item of \<open>split_whitespace\<close>: the text after the first run of white space inside
  the trimmed line, up to the next white space.\<close>

function words_of :: "string \<Rightarrow> string \<Rightarrow> string list" where
  "words_of acc s = (case strip_one white_space s of
     Some r \<Rightarrow> (if acc = [] then [] else [acc]) @ (if length r < length s then words_of [] r else [])
   | None \<Rightarrow> (case s of [] \<Rightarrow> if acc = [] then [] else [acc] | c # cs \<Rightarrow> words_of (acc @ [c]) cs))"
  by pat_completeness auto
termination by (relation "measure (\<lambda>(_, s). length s)") auto

declare words_of.simps [simp del]

definition nth_word :: "nat \<Rightarrow> string \<Rightarrow> string option" where
  "nth_word n s = (let ws = words_of [] s in if n < length ws then Some (ws ! n) else None)"

definition is_chunked :: "string \<Rightarrow> bool" where
  "is_chunked l = (let m = to_ascii_lowercase l in
     starts_with m ''transfer-encoding:'' \<and> find_sub ''chunked'' m \<noteq> None)"

definition decode_body :: "bytes \<Rightarrow> (nat \<times> string) res" where
  "decode_body raw = bindR (of_option ''malformed HTTP response (no header terminator)'' (find_sub [13, 10, 13, 10] raw)) (\<lambda>sep.
     let head = from_utf8_lossy (take sep raw); body_bytes = drop (sep + 4) raw;
         hdr = split_on [CHR 0x0D, CHR 0x0A] head; status_line = (case hdr of [] \<Rightarrow> [] | l # _ \<Rightarrow> l)
     in bindR (of_option (''bad status line: '' @ status_line)
          (Option.bind (nth_word 1 status_line) (parse_unsigned 10 65536))) (\<lambda>status.
        bindR (if list_ex is_chunked (tl hdr) then dechunk body_bytes else Inr (from_utf8_lossy body_bytes)) (\<lambda>body.
        Inr (status, body))))"

section \<open>Storage paths\<close>

fun split_char :: "char \<Rightarrow> string \<Rightarrow> string list" where
  "split_char c [] = [[]]"
| "split_char c (x # xs) = (if x = c then [] # split_char c xs
     else (case split_char c xs of [] \<Rightarrow> [[x]] | w # ws \<Rightarrow> (x # w) # ws))"

text \<open>The segments \<open>safe_path\<close> pushes onto the store root.\<close>

definition safe_path :: "string \<Rightarrow> string list" where
  "safe_path suffix = filter (\<lambda>s. s \<noteq> [] \<and> s \<noteq> ''.'' \<and> s \<noteq> ''..'') (split_char (CHR ''/'') suffix)"

end
