(* ===== verification/Device_Link.thy ===== *)
theory Device_Link
imports Wire
begin

text \<open>
  The device-link token of \<open>capsules/hey-core/src/runtime.rs\<close>: a launch token wrapped with an
  expiry for a QR code, and its resolution on the other device with a grace for clock skew.
\<close>

definition DEVICE_LINK_PREFIX :: string where "DEVICE_LINK_PREFIX = ''dl1.''"
definition DEVICE_LINK_TTL_MS :: int where "DEVICE_LINK_TTL_MS = 300000"
definition DEVICE_LINK_SKEW_MS :: int where "DEVICE_LINK_SKEW_MS = 120000"

definition link_body :: "string \<Rightarrow> int \<Rightarrow> json" where
  "link_body raw now = JObj [(''t'', JStr raw), (''exp'', JInt (now + DEVICE_LINK_TTL_MS)), (''jti'', JInt now)]"

definition make_device_link_token :: "env \<Rightarrow> int \<Rightarrow> string \<Rightarrow> string" where
  "make_device_link_token E now raw = DEVICE_LINK_PREFIX @ en_b64url_enc E (as_bytes (en_text E (link_body raw now)))"

text \<open>The sum of \<open>exp\<close> and the grace is an \<open>i64\<close>; it wraps where the release profile lets it.\<close>

definition wrap64 :: "int \<Rightarrow> int" where
  "wrap64 x = (x + 2 ^ 63) mod 2 ^ 64 - 2 ^ 63"

definition resolve_device_link_token :: "env \<Rightarrow> int \<Rightarrow> string \<Rightarrow> string option" where
  "resolve_device_link_token E now tok = (case strip_prefix DEVICE_LINK_PREFIX tok of None \<Rightarrow> Some tok
     | Some b64 \<Rightarrow> do {
         bytes \<leftarrow> en_b64url_dec E b64;
         v \<leftarrow> en_parse E (of_bytes bytes);
         if now > wrap64 ((case Option.bind (j_get ''exp'' v) j_i64 of Some e \<Rightarrow> e | None \<Rightarrow> 0) + DEVICE_LINK_SKEW_MS)
         then None else j_get_str ''t'' v })"

end
