(* ===== verification/Frames.thy ===== *)
theory Frames
imports Receiving
begin

text \<open>
  What the operations leave alone. Every relation between device states that does not look at
  the number of answers taken (\<open>tick_relation\<close>) is respected by the operations that only ask
  the outside; one that does not look at the outbox and the joined topics either
  (\<open>quiet_relation\<close>) by those that publish; writes are respected when the relation allows them.
\<close>

context tick_relation
begin

lemma resp_if: "(b \<Longrightarrow> resp R m) \<Longrightarrow> (\<not> b \<Longrightarrow> resp R n) \<Longrightarrow> resp R (if b then m else n)"
  by simp

lemma resp_opt: "(x = None \<Longrightarrow> resp R m) \<Longrightarrow> (\<And>y. x = Some y \<Longrightarrow> resp R (f y)) \<Longrightarrow>
    resp R (case x of None \<Rightarrow> m | Some y \<Rightarrow> f y)"
  by (cases x) simp_all

lemma resp_prod: "(\<And>a b. p = (a, b) \<Longrightarrow> resp R (f a b)) \<Longrightarrow> resp R (case p of (a, b) \<Rightarrow> f a b)"
  by (cases p) simp

lemma resp_sum: "(\<And>e. x = Inl e \<Longrightarrow> resp R (f e)) \<Longrightarrow> (\<And>y. x = Inr y \<Longrightarrow> resp R (g y)) \<Longrightarrow>
    resp R (case x of Inl e \<Rightarrow> f e | Inr y \<Rightarrow> g y)"
  by (cases x) simp_all

lemma resp_via: "(\<And>k. v = Local k \<Longrightarrow> resp R (f k)) \<Longrightarrow> (v = Provider \<Longrightarrow> resp R m) \<Longrightarrow>
    resp R (case v of Local k \<Rightarrow> f k | Provider \<Rightarrow> m)"
  by (cases v) simp_all

lemma resp_fault: "(\<And>e. x = Error e \<Longrightarrow> resp R (f e)) \<Longrightarrow> (\<And>e. x = Panic e \<Longrightarrow> resp R (g e)) \<Longrightarrow>
    resp R (case x of Error e \<Rightarrow> f e | Panic e \<Rightarrow> g e)"
  by (cases x) simp_all

lemmas resp_all = resp_rules resp_if resp_opt resp_prod resp_sum resp_via resp_fault

lemma resp_dial: "resp R (dial E ts)"
  by (induction ts) (auto simp: connect_def intro!: resp_all)

lemma resp_graft: "resp R (graft E topic ids)"
  unfolding graft_def by (intro resp_all)

lemma resp_has_peer: "resp R (has_topic_peer E topic)"
  unfolding has_topic_peer_def list_topic_peers_def by (intro resp_all)

lemma resp_wait_loop: "resp R (wait_loop E topic boot n)"
  by (induction n) (auto intro!: resp_all resp_dial resp_graft resp_has_peer)

lemma resp_wait: "resp R (wait_for_topic_peers E topic boot)"
  unfolding wait_for_topic_peers_def Let_def by (intro resp_all resp_wait_loop)

lemma resp_join: "resp R (join_topic_with E topic boot)"
  unfolding join_topic_with_def Let_def connect_def by (intro resp_all resp_wait)

lemma resp_ticket: "resp R (my_ticket E)"
  unfolding my_ticket_def by (intro resp_all)

lemma resp_profile: "resp R ensure_profile" "resp R my_did_or_empty"
proof -
  show p: "resp R ensure_profile"
    by (auto simp: resp_def ensure_profile_def R_refl split: option.split)
  show "resp R my_did_or_empty"
    unfolding my_did_or_empty_def by (intro resp_all p)
qed

lemma resp_contacts: "resp R (list_contacts E)" "resp R (find_contact E did)" "resp R (read_conversation E did)"
    "resp R (get_peer_keys E did)" "resp R (read_ratchet E did)"
  unfolding list_contacts_def find_contact_def read_conversation_def get_peer_keys_def read_peer_keys_def read_ratchet_def
  by (intro resp_all)+

lemma resp_secrets: "resp R (shared_secrets E via eph ct)" "resp R (ratchet_kem_ss E envl via)"
  unfolding shared_secrets_def ratchet_kem_ss_def by (intro resp_all)+

lemma resp_open: "resp R (open_envelope E envl via)"
  unfolding open_envelope_def by (intro resp_all resp_secrets)

lemma resp_inner: "resp R (decrypt_envelope_to_inner E envl via)" "resp R (build_inner E knd body did auth rh)"
    "resp R (encrypt_inner_for_peer E inner keys)" "resp R (decrypt_via_for_queue E q)"
  unfolding decrypt_envelope_to_inner_def build_inner_def sign_bytes_def encrypt_inner_for_peer_def
    decrypt_via_for_queue_def Let_def
  by (intro resp_all resp_open resp_draw resp_contacts)+

lemma resp_single_shot: "resp R (single_shot_wire E knd keys body did auth)"
  unfolding single_shot_wire_def by (intro resp_all resp_inner)

lemma resp_my_did: "resp R inner_to_my_did"
  unfolding inner_to_my_did_def by (intro resp_all)

lemmas resp_ask = resp_all resp_draw resp_join resp_ticket resp_profile resp_contacts resp_secrets resp_open
  resp_inner resp_single_shot resp_my_did

end

context quiet_relation
begin

lemma resp_forget: "resp R (forget_topic E topic)"
  unfolding forget_topic_def leave_topic_def by (intro resp_all resp_mod R_joined)

lemma resp_purge: "resp R (purge_topicD E topic)"
  unfolding purge_topicD_def by (intro resp_mod R_outbox)

lemma resp_publish: "resp R (publishD E topic boot sender wire)"
proof -
  have "R d (d\<lparr>dv_outbox := f, dv_tick := k\<rparr>)" for d f k
    using R_trans [OF R_outbox R_tick] by blast
  then show ?thesis
    by (auto simp: resp_def publishD_def R_tick split: sum.split prod.split)
qed

lemma resp_welcome: "resp R (send_welcome E q keys nq mode anon boot)" "resp R (send_rotation_welcome E q keys nq mode anon t)"
  unfolding send_rotation_welcome_def send_welcome_def Let_def
  by (intro resp_all resp_my_did resp_single_shot resp_join resp_draw resp_publish)+

lemmas resp_quiet = resp_ask resp_forget resp_purge resp_publish resp_welcome

text \<open>Rotation, where the relation allows a new contact list.\<close>

lemma resp_rotate:
  assumes "\<And>d l. R d (d\<lparr>dv_contacts := l\<rparr>)"
  shows "resp R (maybe_rotate_inbound_queue E did)"
proof -
  have "resp R (write_contacts E l)" for l
    unfolding write_contacts_def by (intro resp_save assms)
  moreover have "resp R (rotate_contact_queue E c now)" for c now
    unfolding rotate_contact_queue_def Let_def by (intro resp_quiet)
  ultimately show ?thesis
    unfolding maybe_rotate_inbound_queue_def Let_def by (intro resp_quiet)
qed

text \<open>Receiving a group message, where it allows new contacts, groups and group logs.\<close>

lemma resp_bootstrap:
  assumes "\<And>d l. R d (d\<lparr>dv_contacts := l\<rparr>)"
  shows "resp R (bootstrap_contact_from_keys E did name keys ticket verified)" "resp R (bootstrap_roster_contact E m)"
proof -
  have w: "resp R (write_contacts E l)" for l
    unfolding write_contacts_def by (intro resp_save assms)
  have o: "resp R (or_draw E n v)" for n v
    unfolding or_draw_def by (intro resp_quiet)
  show b: "resp R (bootstrap_contact_from_keys E did name keys ticket verified)" for did name keys ticket verified
    unfolding bootstrap_contact_from_keys_def Let_def by (intro resp_quiet w o)
  show "resp R (bootstrap_roster_contact E m)"
    unfolding bootstrap_roster_contact_def by (intro resp_quiet b)
qed

lemma resp_upsert_group:
  assumes "\<And>d l. R d (d\<lparr>dv_contacts := l\<rparr>)" "\<And>d l. R d (d\<lparr>dv_groups := l\<rparr>)"
  shows "resp R (upsert_group_from_ctx E ctx)"
proof -
  have "resp R (write_groups E l)" for l
    unfolding write_groups_def by (intro resp_save assms)
  then show ?thesis
    unfolding upsert_group_from_ctx_def read_groups_def read_declined_groups_def Let_def
    by (intro resp_quiet resp_bootstrap(2) assms)
qed

lemma resp_store_group:
  assumes "\<And>d l. R d (d\<lparr>dv_contacts := l\<rparr>)" "\<And>d l. R d (d\<lparr>dv_groups := l\<rparr>)" "\<And>d l. R d (d\<lparr>dv_group_convs := l\<rparr>)"
  shows "resp R (store_incoming_group_message E ctx sender tx ts mid atts)"
proof -
  have w: "resp R (write_groups E l)" "resp R (write_group_conversation E g ms)" for l g ms
    unfolding write_groups_def write_group_conversation_def by (intro resp_save assms)+
  then have "resp R (touch_group E g p t n)" for g p t n
    unfolding touch_group_def read_groups_def by (intro resp_quiet)
  with w show ?thesis
    unfolding store_incoming_group_message_def read_groups_def read_group_conversation_def Let_def
    by (intro resp_quiet resp_upsert_group assms)
qed

text \<open>Receiving any wire, where it allows new contacts, conversations and ratchet files and
  respects the storing of group messages.\<close>

lemma resp_receive:
  assumes c: "\<And>d l. R d (d\<lparr>dv_contacts := l\<rparr>)" "\<And>d l. R d (d\<lparr>dv_convs := l\<rparr>)" "\<And>d l. R d (d\<lparr>dv_ratchets := l\<rparr>)"
    and g: "\<And>ctx sender tx ts mid atts. resp R (store_incoming_group_message E ctx sender tx ts mid atts)"
  shows "resp R (receive_v2_wire E topic wire)"
proof -
  have w: "resp R (write_contacts E l)" "resp R (write_conversation E did ms)" "resp R (write_ratchet E did st)" "resp R (remove_ratchet E did)"
    for l did ms st
    unfolding write_contacts_def write_conversation_def write_ratchet_def remove_ratchet_def
    by (intro resp_quiet resp_save c)+
  have s: "resp R (touch_contact_message E did p ts n)" for did p ts n
    unfolding touch_contact_message_def Let_def by (intro resp_quiet w)
  have m: "resp R (store_incoming_message E did tx ts mid atts)" for did tx ts mid atts
    unfolding store_incoming_message_def Let_def by (intro resp_quiet w s)
  have i: "resp R (conv_has E did mid)" "resp R (bootstrapped_ratchet E did msg)" "resp R (draw_turn E)" for did mid msg
    unfolding conv_has_def bootstrapped_ratchet_def draw_turn_def by (intro resp_quiet)+
  have o: "resp R (redelivery_or E ct mid r k)" if "\<And>x. resp R (k x)" for ct mid and r :: "'x res" and k
    unfolding redelivery_or_def by (intro resp_quiet i that)
  have "resp R (commit_ratchet_message E ct inner mid st)" for ct inner mid st
    unfolding commit_ratchet_message_def Let_def by (intro resp_quiet w m g resp_rotate c)
  then have rt: "resp R (receive_ratchet_message E q envl pn n kc kp)" for q envl pn n kc kp
    unfolding receive_ratchet_message_def Let_def by (intro resp_quiet i o)
  have ss: "resp R (receive_single_shot_message E q envl inner)" for q envl inner
    unfolding receive_single_shot_message_def Let_def by (intro resp_quiet m g resp_rotate c)
  have "resp R (bootstrap_responder_ratchet E ct pl rb did)" for ct pl rb did
    unfolding bootstrap_responder_ratchet_def Let_def by (intro resp_quiet w)
  then have hs: "resp R (receive_handshake E inner q)" for inner q
    unfolding receive_handshake_def Let_def by (intro resp_quiet w)
  have wl: "resp R (receive_welcome E inner)" for inner
    unfolding receive_welcome_def Let_def by (intro resp_quiet w)
  show ?thesis
    unfolding receive_v2_wire_def Let_def by (intro resp_quiet rt ss hs wl)
qed

end

end
