(* ===== verification/Delivery.thy ===== *)
theory Delivery
imports Frames
begin

text \<open>
  Delivery of messages: what a device stores when it receives a wire another device built, for
  single-shot and for ratchet messages; a second receipt of the same wire changes nothing.
\<close>

section \<open>Frames\<close>

text \<open>Everything but the contact list: message logs, ratchet files, groups, the session.\<close>

definition logs_kept :: "device \<Rightarrow> device \<Rightarrow> bool" where
  "logs_kept d d' = (dv_convs d' = dv_convs d \<and> dv_ratchets d' = dv_ratchets d \<and> dv_groups d' = dv_groups d \<and>
     dv_group_convs d' = dv_group_convs d \<and> dv_declined d' = dv_declined d \<and> dv_session d' = dv_session d)"

interpretation logs: quiet_relation logs_kept
  by unfold_locales (auto simp: logs_kept_def)

text \<open>Nothing but the number of answers taken.\<close>

definition ticked :: "device \<Rightarrow> device \<Rightarrow> bool" where
  "ticked d d' = (d' = d\<lparr>dv_tick := dv_tick d'\<rparr>)"

interpretation ticks: tick_relation ticked
proof
  fix a b c assume "ticked a b" "ticked b c"
  then have "c = (a\<lparr>dv_tick := dv_tick b\<rparr>)\<lparr>dv_tick := dv_tick c\<rparr>" unfolding ticked_def by metis
  then show "ticked a c" by (simp add: ticked_def)
qed (simp_all add: ticked_def)

lemma rotate_logs: "logs_kept d (snd (maybe_rotate_inbound_queue E did d))"
  using logs.resp_rotate [of E did] by (simp add: resp_def logs_kept_def)

lemma conv_of_logs: "logs_kept d d' \<Longrightarrow> conv_of d' did = conv_of d did"
  by (simp add: logs_kept_def conv_of_def)

section \<open>Bodies\<close>

definition made_inner :: "env \<Rightarrow> string \<Rightarrow> json \<Rightarrow> bytes \<Rightarrow> ratchet_header option \<Rightarrow> int \<Rightarrow> inner_payload" where
  "made_inner E knd body seed rh ts = (let did = did_of_seed (en_prims E) seed in
     \<lparr>in_kind = knd, in_sender_did = did, in_ts = ts, in_body = body,
      in_sig = ed_sign (ed_raw_sign (en_prims E)) (as_bytes (inner_sign_bytes (en_jstr E) knd body did ts rh)) seed,
      in_rh = rh\<rparr>)"

text \<open>A payload the sealing layer carries: well-formed JSON, valid text, below the length limit.\<close>

definition carriable :: "env \<Rightarrow> inner_payload \<Rightarrow> bool" where
  "carriable E i = (inner_fits i \<and> js_ok (inner_json i) \<and> 4 + length (en_text E (inner_json i)) < 2 ^ 32 \<and>
     utf8_valid (as_bytes (en_text E (inner_json i))))"

definition wire_envelope :: "env \<Rightarrow> string \<Rightarrow> hpq_envelope option" where
  "wire_envelope E wire = Option.bind (Option.bind (en_parse E wire) (j_get ''envelope'')) envelope_of"

lemma made_inner_fields [simp]:
  "in_kind (made_inner E knd body seed rh ts) = knd" "in_body (made_inner E knd body seed rh ts) = body"
  "in_sender_did (made_inner E knd body seed rh ts) = did_of_seed (en_prims E) seed"
  "in_ts (made_inner E knd body seed rh ts) = ts" "in_rh (made_inner E knd body seed rh ts) = rh"
  by (simp_all add: made_inner_def Let_def)

lemma made_inner_verifies:
  assumes "env_ok E" "same_world E E'"
  shows "verify_inner E' (made_inner E knd body seed rh ts) = Inr True"
  using assms by (intro verify_signed_inner [of _ _ seed]) (simp_all add: env_ok_def same_world_def made_inner_def Let_def)

lemma text_body_fields:
  assumes "list_all (\<lambda>a. at_size a < 2 ^ 64) atts"
  shows "body_text (text_body tx atts) = tx" "attachments_from_body (text_body tx atts) = atts"
    "j_get ''group'' (text_body tx atts) = None"
proof -
  have "those (map attachment_of (map attachment_json atts)) = Some atts"
    using assms by (intro those_map_Some) (simp add: list_all_iff)
  then show "attachments_from_body (text_body tx atts) = atts"
    by (cases "atts = []") (simp_all add: attachments_from_body_def text_body_def)
  show "body_text (text_body tx atts) = tx" "j_get ''group'' (text_body tx atts) = None"
    by (simp_all add: body_text_def text_body_def j_get_str_def str_or_def)
qed

section \<open>Single-shot wires\<close>

lemma single_shot_wire_ok:
  assumes E: "env_ok E" and s: "signs_as E auth seed"
  obtains envl eph r n d1 where
    "single_shot_wire E knd (keys_of_seed (en_prims E) rseed g) body (did_of_seed (en_prims E) seed) auth d =
       (Inr (en_text E (wire_json None envl)), d1)"
    "encrypt_to_hybrid (en_prims E) (en_text E (inner_json (made_inner E knd body seed None (en_now E (dv_tick d)))))
       (x_pub (en_prims E) rseed) (snd (kem_gen (en_prims E) g)) eph r n = Inr envl" "length n = 12"
proof -
  let ?i = "made_inner E knd body seed None (en_now E (dv_tick d))"
  obtain d' where d': "build_inner E knd body (did_of_seed (en_prims E) seed) auth None d = (Inr ?i, d')"
    using build_inner_ok [OF s] by (force simp: made_inner_def Let_def)
  obtain eph r n d1 where e: "encrypt_inner_for_peer E ?i (keys_of_seed (en_prims E) rseed g) d' =
     (encrypt_to_hybrid (en_prims E) (en_text E (inner_json ?i)) (x_pub (en_prims E) rseed) (snd (kem_gen (en_prims E) g)) eph r n, d1)"
     "length n = 12"
    using encrypt_inner_ok [OF E, of "?i" rseed g d'] by blast
  have "prims_ok (en_prims E)" using E by (simp add: env_ok_def)
  then obtain envl where v: "encrypt_to_hybrid (en_prims E) (en_text E (inner_json ?i)) (x_pub (en_prims E) rseed)
      (snd (kem_gen (en_prims E) g)) eph r n = Inr envl"
    by (simp add: encrypt_to_hybrid_ok prim_laws)
  show thesis
    by (rule that [of envl d1 eph r n]) (use d' e v in \<open>simp_all add: single_shot_wire_def run\<close>)
qed

lemma parse_wire:
  assumes "json_codec (en_text E) (en_parse E)"
  shows "en_parse E (en_text E (wire_json None envl)) = Some (wire_json None envl)"
  using assms by (simp add: json_codec_def wire_json_def opt_member_def envelope_json_def)

lemma wire_json_fields:
  "j_get_str ''type'' (wire_json rh envl) = Some ''dm.v2''" "j_get ''envelope'' (wire_json rh envl) = Some (envelope_json envl)"
  "j_get ''rh'' (wire_json rh envl) = rh"
  by (cases rh; simp add: wire_json_def opt_member_def j_get_str_def)+

lemma receive_single_shot:
  assumes "json_codec (en_text E') (en_parse E')" "en_text E' = en_text E"
    and "decrypt_via_for_queue E' (Some q) d = (Inr via, d)" "decrypt_envelope_to_inner E' envl via d = (Inr i, d1)"
    and "verify_inner E' i = Inr True" "in_kind i = KIND_MESSAGE"
  shows "receive_v2_wire E' (topic_of q) (en_text E (wire_json None envl)) d =
     receive_single_shot_message E' (Some q) envl i d1"
  using assms parse_wire [OF assms(1)]
  by (simp add: receive_v2_wire_def wire_json_fields run Let_def)

lemma touch_runs:
  assumes "storage_ok E"
  shows "\<exists>l. touch_contact_message E did p ts k d = (Inr (), d\<lparr>dv_contacts := Some l\<rparr>)"
  by (auto simp: touch_contact_message_def run run_contacts [OF assms] Let_def)

lemma store_incoming_runs:
  assumes "storage_ok E"
  shows "\<exists>d'. store_incoming_message E did tx ts mid atts d = (Inr (\<not> has_id mid (conv_of d did)), d') \<and>
    dv_ratchets d' = dv_ratchets d \<and> dv_session d' = dv_session d \<and> dv_tick d' = dv_tick d \<and>
    (if has_id mid (conv_of d did) then d' = d
     else dv_convs d' = (dv_convs d)(conv_path did := Some (conv_of d did @ [incoming_message mid tx ts atts []])))"
proof (cases "has_id mid (conv_of d did)")
  case True
  then show ?thesis by (simp add: store_incoming_message_def run run_contacts [OF assms])
next
  case False
  let ?m = "incoming_message mid tx ts atts []"
  let ?d = "d\<lparr>dv_convs := (dv_convs d)(conv_path did := Some (conv_of d did @ [?m]))\<rparr>"
  obtain l where "touch_contact_message E did (preview_of (ms_text ?m) atts) (ms_ts ?m) 1 ?d = (Inr (), ?d\<lparr>dv_contacts := Some l\<rparr>)"
    using touch_runs [OF assms] by blast
  then show ?thesis using False
    by (simp add: store_incoming_message_def run run_contacts [OF assms] Let_def)
qed

lemma receive_message_stores:
  assumes S: "storage_ok E" and my: "my_did_or_empty d = (Inr my, d)"
    and c: "find (\<lambda>c. ct_did c = in_sender_did i \<and> owns_active (en_prims E) q my c) (contacts_of d) = Some c"
      "\<not> ct_ratchet_capable c"
    and i: "in_body i = text_body tx atts" "list_all (\<lambda>a. at_size a < 2 ^ 64) atts" "tx \<noteq> [] \<or> atts \<noteq> []"
    and mid: "mid = single_shot_dedup_id (en_prims E) envl"
  shows "let (r, d') = receive_single_shot_message E (Some q) envl i d in
    if has_id mid (conv_of d (in_sender_did i)) then r = Inr () \<and> d' = d
    else dv_convs d' = (dv_convs d)(conv_path (in_sender_did i) :=
       Some (conv_of d (in_sender_did i) @ [incoming_message mid tx (in_ts i) atts []]))"
proof -
  let ?s = "in_sender_did i"
  obtain d1 where d1: "store_incoming_message E ?s tx (in_ts i) mid atts d = (Inr (\<not> has_id mid (conv_of d ?s)), d1)"
    "if has_id mid (conv_of d ?s) then d1 = d
     else dv_convs d1 = (dv_convs d)(conv_path ?s := Some (conv_of d ?s @ [incoming_message mid tx (in_ts i) atts []]))"
    using store_incoming_runs [OF S, of "?s" tx "in_ts i" mid atts d] by (metis (no_types, lifting))
  have ne: "(tx = [] \<and> atts = []) = False" using i(3) by blast
  have "receive_single_shot_message E (Some q) envl i d =
    (if has_id mid (conv_of d ?s) then (Inr (), d1) else maybe_rotate_inbound_queue E ?s d1)"
    using my c i(1) d1(1) run_contacts(1) [OF S, of d] text_body_fields [OF i(2), of tx]
    by (simp add: receive_single_shot_message_def Let_def run mid [symmetric] ne)
  then show ?thesis
    using d1(2) rotate_logs [of d1 E "?s"] by (auto simp: logs_kept_def split: prod.split if_splits)
qed

section \<open>Properties\<close>

text \<open>C6. A single-shot message arrives: the wire a sender builds for a recipient's published keys,
  received on a queue the recipient holds for an active contact with the sender's DID, adds
  to the conversation exactly the text and the attachments sent, with the time the sender
  stamped; and a second receipt of it changes nothing on the device but the count of answers
  taken.\<close>

theorem single_shot_delivery:
  assumes "env_ok E" "same_world E E'" "storage_ok E'" "signs_as E auth seed"
    and "did = did_of_seed (en_prims E) seed" "ts = en_now E (dv_tick ds)"
    and "carriable E (made_inner E KIND_MESSAGE (text_body tx atts) seed None ts)"
    and "list_all (\<lambda>a. at_size a < 2 ^ 64) atts" "tx \<noteq> [] \<or> atts \<noteq> []"
    and "dv_session d = Some s"
    and "find (\<lambda>c. ct_did c = did \<and> owns_active (en_prims E) q (ss_did_key s) c) (contacts_of d) = Some c" "\<not> ct_ratchet_capable c"
    and "decrypt_via_for_queue E' (Some q) d = (Inr via, d)" "opens_as E' via rseed g"
  shows "\<exists>wire ds'. single_shot_wire E KIND_MESSAGE (keys_of_seed (en_prims E) rseed g) (text_body tx atts) did auth ds =
       (Inr wire, ds') \<and>
    (let mid = single_shot_dedup_id (en_prims E) (the (wire_envelope E wire)); (r, d') = receive_v2_wire E' (topic_of q) wire d in
     if has_id mid (conv_of d did) then r = Inr () \<and> (\<exists>k. d' = d\<lparr>dv_tick := k\<rparr>)
     else dv_convs d' = (dv_convs d)(conv_path did := Some (conv_of d did @ [incoming_message mid tx ts atts []])))"
proof -
  let ?i = "made_inner E KIND_MESSAGE (text_body tx atts) seed None ts"
  have E: "json_codec (en_text E') (en_parse E')" "en_text E' = en_text E" "en_prims E' = en_prims E"
    using assms(1,2) by (auto simp: env_ok_def same_world_def)
  obtain envl eph r n ds' where w: "single_shot_wire E KIND_MESSAGE (keys_of_seed (en_prims E) rseed g) (text_body tx atts) did auth ds =
      (Inr (en_text E (wire_json None envl)), ds')"
    "encrypt_to_hybrid (en_prims E) (en_text E (inner_json ?i)) (x_pub (en_prims E) rseed) (snd (kem_gen (en_prims E) g)) eph r n = Inr envl"
    "length n = 12"
    using single_shot_wire_ok [OF assms(1,4)] assms(5,6) by metis
  define wire where "wire = en_text E (wire_json None envl)"
  have envl: "wire_envelope E wire = Some envl"
    using parse_wire [of E envl] assms(1) by (simp add: wire_envelope_def wire_def env_ok_def wire_json_fields)
  have "\<exists>d1. decrypt_envelope_to_inner E' envl via d = (Inr ?i, d1)"
    using assms(7) by (intro open_sealed_inner [OF assms(1,2,14) _ _ _ _ w(2,3)]) (simp_all add: carriable_def)
  then obtain d1 where d1: "decrypt_envelope_to_inner E' envl via d = (Inr ?i, d1)" by blast
  have "ticked d d1" using ticks.resp_inner(1) [of E' envl via] d1 unfolding resp_def by (metis snd_conv)
  then obtain k where k: "d1 = d\<lparr>dv_tick := k\<rparr>" unfolding ticked_def by blast
  have recv: "receive_v2_wire E' (topic_of q) wire d = receive_single_shot_message E' (Some q) envl ?i d1"
    unfolding wire_def using E assms(13) d1 made_inner_verifies [OF assms(1,2)]
    by (intro receive_single_shot) simp_all
  have my: "my_did_or_empty d1 = (Inr (ss_did_key s), d1)"
    using assms(10) by (simp add: k my_did_or_empty_def okD_def ensure_profile_def bindD_def retD_def)
  have c: "conv_of d1 did = conv_of d did" "contacts_of d1 = contacts_of d" "dv_convs d1 = dv_convs d"
    by (simp_all add: k conv_of_def)
  define mid where "mid = single_shot_dedup_id (en_prims E) envl"
  have st: "let (r, d') = receive_v2_wire E' (topic_of q) wire d in
    if has_id mid (conv_of d did) then r = Inr () \<and> d' = d1
    else dv_convs d' = (dv_convs d)(conv_path did := Some (conv_of d did @ [incoming_message mid tx ts atts []]))"
  proof -
    have f: "find (\<lambda>c. ct_did c = in_sender_did ?i \<and> owns_active (en_prims E') q (ss_did_key s) c) (contacts_of d1) = Some c"
      using assms(5,11) c(2) E(3) by simp
    have m: "mid = single_shot_dedup_id (en_prims E') envl" by (simp add: mid_def E(3))
    show ?thesis
      using receive_message_stores [OF assms(3) my f assms(12) made_inner_fields(2) assms(8,9) m]
      unfolding recv made_inner_fields c assms(5) [symmetric] .
  qed
  show ?thesis
  proof (intro exI conjI)
    show "single_shot_wire E KIND_MESSAGE (keys_of_seed (en_prims E) rseed g) (text_body tx atts) did auth ds = (Inr wire, ds')"
      using w(1) by (simp add: wire_def)
    show "let mid = single_shot_dedup_id (en_prims E) (the (wire_envelope E wire)); (r, d') = receive_v2_wire E' (topic_of q) wire d in
     if has_id mid (conv_of d did) then r = Inr () \<and> (\<exists>k. d' = d\<lparr>dv_tick := k\<rparr>)
     else dv_convs d' = (dv_convs d)(conv_path did := Some (conv_of d did @ [incoming_message mid tx ts atts []]))"
      using st k unfolding Let_def envl option.sel mid_def [symmetric] case_prod_beta
      by (cases "has_id mid (conv_of d did)") (simp_all only: if_True if_False, blast)
  qed
qed

section \<open>Witness\<close>

text \<open>Alice signs with a seed of ones; Bob's identity provider holds the zero seed.\<close>

definition alice_seed :: bytes where "alice_seed = replicate 32 1"

definition alice_did :: string where "alice_did = public_key_to_did_key (replicate 32 1)"

definition bob_contact :: dm_contact where
  "bob_contact = keyed_contact alice_did ''Al'' \<lparr>pk_x25519 = [], pk_ml_kem = []\<rparr> None True ''q1'' ''r'' ''q2'' ''p''"

definition bob :: device where
  "bob = sample_device\<lparr>dv_session := Some \<lparr>ss_auth_key_hex = [], ss_did_key = ''b'', ss_name = ''Bob'', ss_kem_secret = [],
     ss_kem_public = []\<rparr>, dv_contacts := Some [bob_contact]\<rparr>"

lemma bob_contact_simps [simp]:
  "ct_did bob_contact = alice_did" "ct_mode bob_contact = Regular" "ct_status bob_contact = Active"
  "ct_my_inbound_queue bob_contact = Some ''q1''" "ct_ratchet_capable bob_contact = False"
  by (simp_all add: bob_contact_def keyed_contact_def)

lemma length_unary [simp]: "length (unary n) = Suc n"
  by (simp add: unary_def)

lemma sample_env_ok: "env_ok sample_env"
  using sample_json_codec sample_prims_ok [of 64] by (simp add: env_ok_def sample_env_def)

lemma sample_env_simps [simp]: "en_prims sample_env = sample_prims 64" "en_text sample_env = sample_text"
    "en_parse sample_env = sample_parse" "en_now sample_env k = 5"
  by (simp_all add: sample_env_def)

lemma alice_did_of_seed: "did_of_seed (sample_prims 64) alice_seed = alice_did"
  by (simp add: did_of_seed_def alice_did_def alice_seed_def sample_prims_def fit_id)

lemma alice_signs: "signs_as sample_env (bytes_to_hex alice_seed) alice_seed"
proof -
  have "length alice_seed = 32" by (simp add: alice_seed_def)
  moreover have "length (bytes_to_hex alice_seed) \<noteq> 0" by (simp add: alice_seed_def)
  then have "bytes_to_hex alice_seed \<noteq> []" by (metis length_0_conv)
  ultimately show ?thesis using hex.dec_enc [of alice_seed] by (auto simp: signs_as_def seed32_def)
qed

lemma bob_provider: "provider_holds sample_env (replicate 32 0) []"
  by (simp add: provider_holds_def sample_env_def sample_prims_def shared_from_def data_of_def j_get_str_def Let_def)

lemma sample_carriable:
  assumes "body = text_body ''hi'' []" "0 \<le> ts" "ts < 2 ^ 20"
    and "\<And>h. rh = Some h \<Longrightarrow> header_fits h \<and> ascii_json (header_json h) \<and> js_ok (header_json h) \<and>
      length (sample_text (header_json h)) \<le> 2 ^ 20"
  shows "carriable sample_env (made_inner sample_env KIND_MESSAGE body alice_seed rh ts)"
proof -
  let ?i = "made_inner sample_env KIND_MESSAGE body alice_seed rh ts"
  let ?t = "sample_text (inner_json ?i)"
  have did: "ascii alice_did" "length alice_did \<le> 400"
    using did_key_ascii [of "replicate 32 1"] by (simp_all add: alice_did_def)
  have sig: "ascii (in_sig ?i)" "length (in_sig ?i) = 128"
    unfolding made_inner_def ed_sign_def Let_def inner_payload.simps
    by (simp_all add: ascii_hex) (simp add: sample_prims_def)
  have j: "inner_json ?i = JObj ([(''kind'', JStr ''message''), (''sender_did'', JStr alice_did), (''ts'', JInt ts),
     (''body'', JObj [(''text'', JStr ''hi'')]), (''sig'', JStr (in_sig ?i))] @ opt_member ''rh'' (map_option header_json rh))"
    using assms(1) by (simp add: inner_json_def text_body_def KIND_MESSAGE_def alice_did_of_seed)
  have "ascii_json (inner_json ?i)" unfolding j using did sig assms(4)
    by (cases rh) (simp_all add: opt_member_def)
  moreover have "length ?t \<le> 2 ^ 22" unfolding j using did sig assms(2,3) assms(4) [of "the rh"]
    by (cases rh) (auto simp: sample_int.simps opt_member_def)
  moreover have "js_ok (inner_json ?i)" unfolding j using assms(4)
    by (cases rh) (simp_all add: opt_member_def)
  ultimately show ?thesis
    using assms(2-4) by (simp add: carriable_def inner_fits_def utf8_ascii ascii_sample_text)
qed

theorem single_shot_delivery_witness:
  "\<exists>wire ds' mid. single_shot_wire sample_env KIND_MESSAGE (keys_of_seed (sample_prims 64) (replicate 32 0) [])
      (text_body ''hi'' []) alice_did (bytes_to_hex alice_seed) sample_device = (Inr wire, ds') \<and>
    dv_convs (snd (receive_v2_wire sample_env (topic_of ''q1'') wire bob)) =
      (dv_convs bob)(conv_path alice_did := Some [incoming_message mid ''hi'' 5 [] []])"
proof -
  have c: "find (\<lambda>c. ct_did c = alice_did \<and> owns_active (en_prims sample_env) ''q1'' ''b'' c) (contacts_of bob) = Some bob_contact"
    by (simp add: bob_def owns_active_def owns_inbound_queue_with_def owns_inbound_queue_def contacts_of_def)
  have via: "decrypt_via_for_queue sample_env (Some ''q1'') bob = (Inr Provider, bob)"
    by (simp add: decrypt_via_for_queue_def run run_contacts [OF sample_storage_ok] bob_def contacts_of_def
        decrypt_via_for_contact_def decrypt_via_for_session_def)
  have opens: "opens_as sample_env Provider (replicate 32 0) []"
    using bob_provider by (simp add: opens_as_def)
  have s: "dv_session bob = Some \<lparr>ss_auth_key_hex = [], ss_did_key = ''b'', ss_name = ''Bob'', ss_kem_secret = [], ss_kem_public = []\<rparr>"
    by (simp add: bob_def)
  have e: "conv_of bob alice_did = []" by (simp add: conv_of_def bob_def sample_device_def)
  show ?thesis
    using single_shot_delivery [OF sample_env_ok _ sample_storage_ok alice_signs, where did = alice_did and ts = 5 and ds = sample_device
        and tx = "''hi''" and atts = "[]" and d = bob and q = "''q1''" and c = bob_contact and via = Provider
        and rseed = "replicate 32 0" and g = "[]"] s c via opens e sample_carriable [OF refl, of 5 None]
    by (force simp: same_world_def alice_did_of_seed has_id_def Let_def case_prod_beta)
qed

end
