(* ===== verification/Ratchet_Delivery.thy ===== *)
theory Ratchet_Delivery
imports Delivery
begin

text \<open>
  Delivery of ratchet messages: the wire of \<open>build_ratchet_wire\<close>, received while the ratchet files
  of the two devices belong to a reachable joint state of \<open>Ratchet_Sync\<close> with the message on
  its way, is stored and advances the receiver's file.
\<close>

section \<open>The wire\<close>

definition turn_at :: "env \<Rightarrow> nat \<Rightarrow> turn_rand" where
  "turn_at E k = \<lparr>tr_dh = en_rand E k 32, tr_encaps = en_rand E (k + 1) 32, tr_gen = en_rand E (k + 2) 64\<rparr>"

lemma draw_turn_runs: "draw_turn E d = (Inr (turn_at E (dv_tick d)), d\<lparr>dv_tick := dv_tick d + 3\<rparr>)"
  by (simp add: draw_turn_def drawD_def callD_def turn_at_def run)

lemma read_ratchet_runs: "storage_ok E \<Longrightarrow> read_ratchet E did d = (Inr (dv_ratchets d (ratchet_path did)), d)"
  by (simp add: read_ratchet_def run_store split: option.split)

lemma write_ratchet_runs: "storage_ok E \<Longrightarrow> write_ratchet E did st d =
    (Inr (), d\<lparr>dv_ratchets := (dv_ratchets d)(ratchet_path did := Some st)\<rparr>)"
  by (simp add: write_ratchet_def run_store)

lemma bootstrapped_runs:
  "storage_ok E \<Longrightarrow> dv_ratchets d (ratchet_path did) = Some st \<Longrightarrow> is_bootstrapped st \<Longrightarrow>
    bootstrapped_ratchet E did m d = (Inr st, d)"
  by (simp add: bootstrapped_ratchet_def run read_ratchet_runs)

lemma send_header:
  assumes "ratchet_step_send P st = Inr (mk, h, st')"
  obtains dhs where "h_dh h = b64_enc P dhs" "length dhs = 32"
proof -
  from assms obtain dhs where d: "b32 (rs_dhs_pub st) = Inr dhs" "h_dh h = b64_enc P dhs"
    by (auto simp: ratchet_step_send_def bindR_Inr Let_def case_prod_beta)
  then have "length dhs = 32" by (auto simp: b32_def seed32_def bindR_Inr split: if_splits)
  with d(2) show thesis by (rule that)
qed

lemma build_ratchet_wire_ok:
  assumes E: "env_ok E" "storage_ok E" and s: "signs_as E auth seed"
    and st: "dv_ratchets d (ratchet_path peer) = Some st" "is_bootstrapped st"
      "ratchet_step_send (en_prims E) st = Inr (mk, h, st')" "h_dh h = b64_enc (en_prims E) dhs" "length dhs = 32"
  obtains envl r n d1 where
    "build_ratchet_wire E peer (keys_of_seed (en_prims E) rseed g) body (did_of_seed (en_prims E) seed) auth d =
       (Inr (en_text E (wire_json (Some (page_json h)) envl)), d1)"
    "dv_ratchets d1 (ratchet_path peer) = Some st'"
    "encrypt_with_mk (en_prims E) (en_text E (inner_json (made_inner E KIND_MESSAGE body seed (Some h) (en_now E (dv_tick d)))))
       mk (snd (kem_gen (en_prims E) g)) dhs r n = Inr envl" "length n = 12"
proof -
  let ?i = "made_inner E KIND_MESSAGE body seed (Some h) (en_now E (dv_tick d))"
  let ?P = "en_prims E"
  let ?d = "d\<lparr>dv_ratchets := (dv_ratchets d)(ratchet_path peer := Some st')\<rparr>"
  have P: "prims_ok ?P" using E(1) by (simp add: env_ok_def)
  obtain d2 where d2: "build_inner E KIND_MESSAGE body (did_of_seed ?P seed) auth (Some h) ?d = (Inr ?i, d2)"
    using build_inner_ok [OF s, of KIND_MESSAGE body "did_of_seed ?P seed" "Some h" "?d"] by (auto simp: made_inner_def Let_def)
  have "logs_kept ?d d2" using logs.resp_inner(2) d2 unfolding resp_def by (metis snd_conv)
  then have f: "dv_ratchets d2 (ratchet_path peer) = Some st'" by (simp add: logs_kept_def)
  obtain envl where v: "encrypt_with_mk ?P (en_text E (inner_json ?i)) mk (snd (kem_gen ?P g)) dhs
      (en_rand E (dv_tick d2) 32) (en_rand E (Suc (dv_tick d2)) 12) = Inr envl"
    using P by (simp add: encrypt_with_mk_ok prim_laws)
  show thesis
    by (rule that [of envl "d2\<lparr>dv_tick := Suc (Suc (dv_tick d2))\<rparr>" "en_rand E (dv_tick d2) 32" "en_rand E (Suc (dv_tick d2)) 12"])
      (use E(1) st P d2 v f in \<open>simp_all add: build_ratchet_wire_def Let_def run bootstrapped_runs [OF E(2)] write_ratchet_runs [OF E(2)]
        keys_of_seed_def prim_laws drawD_def callD_def env_ok_def\<close>)
qed

lemma parse_ratchet_wire:
  assumes "json_codec (en_text E) (en_parse E)"
  shows "en_parse E (en_text E (wire_json (Some (page_json h)) envl)) = Some (wire_json (Some (page_json h)) envl)"
  using assms by (cases "h_kem_ct h"; cases "h_kem_pub h")
    (simp_all add: json_codec_def wire_json_def opt_member_def envelope_json_def page_json_def)

lemma page_fields:
  assumes "h_pn h < 2 ^ 32" "h_n h < 2 ^ 32"
  shows "u32_field (page_json h) ''pn'' = Inr (h_pn h)" "u32_field (page_json h) ''n'' = Inr (h_n h)"
    "j_get_str ''kc'' (page_json h) = h_kem_ct h" "j_get_str ''kp'' (page_json h) = h_kem_pub h"
  using assms by (cases "h_kem_ct h"; cases "h_kem_pub h";
    simp add: u32_field_def page_json_def opt_member_def j_get_str_def j_nat_def)+

section \<open>Receiving\<close>

lemma ratchet_kem_ticks: "ratchet_kem_ss E envl via d = (r, d') \<Longrightarrow> ticked d d'"
  using ticks.resp_secrets(2) [of E envl via] unfolding resp_def by (metis snd_conv)

lemma commit_runs:
  assumes S: "storage_ok E"
    and i: "in_body i = text_body tx atts" "list_all (\<lambda>a. at_size a < 2 ^ 64) atts" "tx \<noteq> [] \<or> atts \<noteq> []"
  shows "let did = ct_did c; d' = snd (commit_ratchet_message E c i mid st d) in
    dv_ratchets d' = (dv_ratchets d)(ratchet_path did := Some st) \<and>
    dv_convs d' = (if has_id mid (conv_of d did) then dv_convs d else (dv_convs d)(conv_path did :=
       Some (conv_of d did @ [incoming_message mid tx (in_ts i) atts []])))"
proof -
  let ?s = "ct_did c"
  obtain d1 where d1: "store_incoming_message E ?s tx (in_ts i) mid atts d = (Inr (\<not> has_id mid (conv_of d ?s)), d1)"
    "dv_ratchets d1 = dv_ratchets d"
    "if has_id mid (conv_of d ?s) then d1 = d
     else dv_convs d1 = (dv_convs d)(conv_path ?s := Some (conv_of d ?s @ [incoming_message mid tx (in_ts i) atts []]))"
    using store_incoming_runs [OF S, of "?s" tx "in_ts i" mid atts d] by (metis (no_types, lifting))
  let ?d = "d1\<lparr>dv_ratchets := (dv_ratchets d1)(ratchet_path ?s := Some st)\<rparr>"
  have ne: "(tx = [] \<and> atts = []) = False" using i(3) by blast
  have "commit_ratchet_message E c i mid st d =
    (if has_id mid (conv_of d ?s) then (Inr (), ?d) else maybe_rotate_inbound_queue E ?s ?d)"
    using i(1) d1(1) text_body_fields [OF i(2), of tx]
    by (simp add: commit_ratchet_message_def Let_def run write_ratchet_runs [OF S] ne)
  then show ?thesis
    using d1(2,3) rotate_logs [of "?d" E "?s"] by (auto simp: Let_def logs_kept_def split: if_splits)
qed

lemma receive_ratchet_opens:
  assumes S: "storage_ok E'" and E: "env_ok E" "same_world E E'"
    and d: "dv_session d = Some s" "find (owns_active (en_prims E) q (ss_did_key s)) (contacts_of d) = Some c"
      "ct_ratchet_capable c" "decrypt_via_for_contact (en_prims E) c = Inr via" "opens_as E' via rseed g"
      "dv_ratchets d (ratchet_path (ct_did c)) = Some st0" "is_bootstrapped st0"
    and i: "i = made_inner E KIND_MESSAGE body seed (Some h) ts" "carriable E i" "ct_did c = did_of_seed (en_prims E) seed"
    and envl: "encrypt_with_mk (en_prims E) (en_text E (inner_json i)) mk (snd (kem_gen (en_prims E) g)) dhs r n = Inr envl"
      "length n = 12" "h_dh h = b64_enc (en_prims E) dhs" "length dhs = 32"
    and step: "recv_header (en_prims E) (turn_at E' (dv_tick d)) (en_now E' (dv_tick d + 3)) st0 h = Inr (mk, st)"
  obtains k where
    "receive_ratchet_message E' (Some q) envl (h_pn h) (h_n h) (h_kem_ct h) (h_kem_pub h) d =
       commit_ratchet_message E' c i (ratchet_dedup_id (en_prims E) envl) st (d\<lparr>dv_tick := k\<rparr>)"
proof -
  define P where "P = en_prims E"
  have P: "prims_ok P" "en_prims E' = P" "en_parse E' = en_parse E" "en_text E' = en_text E"
    using E by (auto simp: env_ok_def same_world_def P_def)
  define ct where "ct = fst (kem_encaps P (snd (kem_gen P g)) r)"
  have v: "envl = \<lparr>env_v = ENVELOPE_VERSION, env_eph = b64_enc P dhs, env_kem = b64_enc P ct,
     env_n = b64_enc P n, env_ct = b64_enc P (aead_seal P (derive_key P mk
       (snd (kem_encaps P (snd (kem_gen P g)) r))) n (pad_plaintext (as_bytes (en_text E (inner_json i)))))\<rparr>"
    using envl(1) P(1) by (simp add: encrypt_with_mk_ok prim_laws ct_def P_def [symmetric])
  define d3 where "d3 = d\<lparr>dv_tick := dv_tick d + 3\<rparr>"
  obtain d4 where d4: "ratchet_kem_ss E' envl via d3 = (Inr (kem_decaps P (fst (kem_gen P g)) ct), d4)"
    using ratchet_kem_ss_ok [OF _ d(5), of envl dhs ct d3] P by (auto simp: v prim_laws ct_def)
  obtain k where k: "d4 = d\<lparr>dv_tick := k\<rparr>"
    using ratchet_kem_ticks [OF d4] by (auto simp: ticked_def d3_def)
  have o: "open_with_secrets P envl mk (kem_decaps P (fst (kem_gen P g)) ct) = Inr (en_text E (inner_json i))"
    using P(1) i(2) envl(2) by (intro open_sealed [where nonce = n])
      (simp_all add: v ENVELOPE_VERSION_def ct_def prim_laws carriable_def)
  have parse: "en_parse E (en_text E (inner_json i)) = Some (inner_json i)" "inner_of (inner_json i) = Some i"
    using E(1) i(2) by (simp_all add: env_ok_def json_codec_def carriable_def)
  have check: "check_ratchet_inner E' c \<lparr>h_dh = env_eph envl, h_pn = h_pn h, h_n = h_n h, h_kem_ct = h_kem_ct h,
      h_kem_pub = h_kem_pub h\<rparr> i = Inr ()"
    using made_inner_verifies [OF E] i(1,3) envl(3) by (simp add: check_ratchet_inner_def v P_def)
  have my: "my_did_or_empty d = (Inr (ss_did_key s), d)"
    using d(1) by (simp add: my_did_or_empty_def okD_def ensure_profile_def bindD_def retD_def)
  have step': "ratchet_step_recv P (turn_at E' (dv_tick d)) (en_now E' (dv_tick d3)) st0 (hx dhs) dhs (h_pn h) (h_n h)
      (h_kem_ct h) (h_kem_pub h) = Inr (mk, st)"
    using step envl(3) P(1) by (simp add: recv_header_def P_def [symmetric] prim_laws d3_def)
  have eph: "env_eph envl = b64_enc P dhs" by (simp add: v)
  show thesis
    by (rule that [of k])
      (use my d P d4 o parse check step' envl(4) run_contacts(1) [OF S, of d] in
        \<open>simp add: receive_ratchet_message_def Let_def run bootstrapped_runs [OF S] b64_32_def eph prim_laws P_def [symmetric]
          draw_turn_runs nowD_def redelivery_or_def d3_def [symmetric] k\<close>)
qed

lemma joint_bootstrapped:
  assumes "prims_ok P" "joint_reachable P (a, b, used)"
  shows "is_bootstrapped (sd_st a)" "is_bootstrapped (sd_st b)"
proof -
  have p: "is_bootstrapped st" if "party P G used st p r g" for G st p r g
  proof -
    have "length (hx r) = 64" using that by (simp add: party_def hx_def length_bytes_to_hex)
    then show ?thesis using that by (auto simp: party_def is_bootstrapped_def)
  qed
  have "joint_inv P (a, b, used)" by (rule joint_reachable_inv [OF assms(2,1)])
  then show "is_bootstrapped (sd_st a)" "is_bootstrapped (sd_st b)"
    unfolding joint_inv_def linked_def link_at_def using p by (auto simp: split_def)
qed

text \<open>Either side of a reachable joint state may be the receiver.\<close>

definition sides_reachable :: "prims \<Rightarrow> side \<Rightarrow> side \<Rightarrow> string set \<Rightarrow> bool" where
  "sides_reachable P a b used = (joint_reachable P (a, b, used) \<or> joint_reachable P (b, a, used))"

lemma sides_receive:
  assumes "prims_ok P" "sides_reachable P a b used" "(h, mk) \<in> set (sd_in b)" "deliverable P used R now (sd_st b) h"
  obtains st where "recv_header P R now (sd_st b) h = Inr (mk, st)"
    "sides_reachable P a \<lparr>sd_st = st, sd_in = removeAll (h, mk) (sd_in b)\<rparr> (insert (rs_dhs_pub st) used)"
    "is_bootstrapped (sd_st b)"
proof -
  have inv: "joint_inv P (b, a, used)"
    using assms(2) joint_reachable_inv [of P "(a, b, used)", OF _ assms(1)] joint_reachable_inv [of P "(b, a, used)", OF _ assms(1)]
    unfolding sides_reachable_def joint_inv_def by (simp only: prod.case) blast
  obtain st where st: "recv_header P R now (sd_st b) h = Inr (mk, st)"
    using joint_inv_deliver [OF assms(1) inv assms(3,4)] by blast
  have h: "half_step P (b, a, used) (\<lparr>sd_st = st, sd_in = removeAll (h, mk) (sd_in b)\<rparr>, a, insert (rs_dhs_pub st) used)"
    by (rule half_step.recv [OF assms(3,4) st])
  show thesis
    using that [OF st] assms(2) joint_bootstrapped [OF assms(1)] joint_reachable.step joint_step.left [OF h] joint_step.right [OF h]
    unfolding sides_reachable_def by metis
qed

section \<open>Properties\<close>

text \<open>C2. A ratchet message arrives, late or out of order: let a device have built a wire for a
  contact, its ratchet file having advanced past that message, and let the message be on its
  way in a state the two ratchets can reach. The device whose file holds the receiving side,
  getting the wire on a queue it holds for the sender, adds exactly the text and attachments
  sent to the conversation (nothing if it has them already), advances its ratchet file, and
  the two ratchets are again in a state they can reach, with the message received.\<close>

theorem ratchet_delivery:
  assumes "env_ok E" "same_world E E'" "storage_ok E" "storage_ok E'" "signs_as E auth seed"
    and "did = did_of_seed (en_prims E) seed" "ts = en_now E (dv_tick ds)"
    and "dv_ratchets ds (ratchet_path peer) = Some st" "is_bootstrapped st" "ratchet_step_send (en_prims E) st = Inr (mk, h, st')"
    and "carriable E (made_inner E KIND_MESSAGE (text_body tx atts) seed (Some h) ts)"
    and "list_all (\<lambda>a. at_size a < 2 ^ 64) atts" "tx \<noteq> [] \<or> atts \<noteq> []"
    and "sides_reachable (en_prims E) a b used" "(h, mk) \<in> set (sd_in b)"
    and "dv_session d = Some s" "find (owns_active (en_prims E) q (ss_did_key s)) (contacts_of d) = Some c"
    and "ct_did c = did" "ct_ratchet_capable c"
    and "decrypt_via_for_contact (en_prims E) c = Inr via" "opens_as E' via rseed g"
    and "dv_ratchets d (ratchet_path did) = Some (sd_st b)"
    and "deliverable (en_prims E) used (turn_at E' (dv_tick d)) (en_now E' (dv_tick d + 3)) (sd_st b) h"
  shows "\<exists>wire ds' st2. build_ratchet_wire E peer (keys_of_seed (en_prims E) rseed g) (text_body tx atts) did auth ds = (Inr wire, ds') \<and>
    dv_ratchets ds' (ratchet_path peer) = Some st' \<and>
    (let mid = ratchet_dedup_id (en_prims E) (the (wire_envelope E wire)); d' = snd (receive_v2_wire E' (topic_of q) wire d) in
      dv_ratchets d' = (dv_ratchets d)(ratchet_path did := Some st2) \<and>
      dv_convs d' = (if has_id mid (conv_of d did) then dv_convs d else (dv_convs d)(conv_path did :=
        Some (conv_of d did @ [incoming_message mid tx ts atts []])))) \<and>
    sides_reachable (en_prims E) a \<lparr>sd_st = st2, sd_in = removeAll (h, mk) (sd_in b)\<rparr> (insert (rs_dhs_pub st2) used)"
proof -
  define P where "P = en_prims E"
  define i where "i = made_inner E KIND_MESSAGE (text_body tx atts) seed (Some h) ts"
  have P: "prims_ok P" "json_codec (en_text E') (en_parse E')" "en_text E' = en_text E" "en_parse E' = en_parse E" "en_prims E' = P"
    using assms(1,2) by (auto simp: env_ok_def same_world_def P_def)
  obtain dhs where dhs: "h_dh h = b64_enc P dhs" "length dhs = 32"
    using send_header [OF assms(10)] unfolding P_def by blast
  obtain envl r n ds' where w: "build_ratchet_wire E peer (keys_of_seed P rseed g) (text_body tx atts) did auth ds =
      (Inr (en_text E (wire_json (Some (page_json h)) envl)), ds')"
    "dv_ratchets ds' (ratchet_path peer) = Some st'"
    "encrypt_with_mk P (en_text E (inner_json i)) mk (snd (kem_gen P g)) dhs r n = Inr envl" "length n = 12"
    using build_ratchet_wire_ok [OF assms(1,3,5,8,9,10), of dhs rseed g "text_body tx atts"] dhs assms(6,7)
    unfolding P_def i_def by metis
  define wire where "wire = en_text E (wire_json (Some (page_json h)) envl)"
  have parse: "en_parse E wire = Some (wire_json (Some (page_json h)) envl)"
    unfolding wire_def using assms(1) by (intro parse_ratchet_wire) (simp add: env_ok_def)
  then have envl: "wire_envelope E wire = Some envl" by (simp add: wire_envelope_def wire_json_fields)
  obtain st2 where st2: "recv_header P (turn_at E' (dv_tick d)) (en_now E' (dv_tick d + 3)) (sd_st b) h = Inr (mk, st2)"
    "sides_reachable P a \<lparr>sd_st = st2, sd_in = removeAll (h, mk) (sd_in b)\<rparr> (insert (rs_dhs_pub st2) used)"
    "is_bootstrapped (sd_st b)"
    using sides_receive [OF P(1) assms(14) [folded P_def] assms(15) assms(23) [folded P_def]] by blast
  have fits: "h_pn h < 2 ^ 32" "h_n h < 2 ^ 32"
    using assms(11) by (simp_all add: carriable_def inner_fits_def header_fits_def)
  define mid where "mid = ratchet_dedup_id P envl"
  obtain k where k: "receive_ratchet_message E' (Some q) envl (h_pn h) (h_n h) (h_kem_ct h) (h_kem_pub h) d =
       commit_ratchet_message E' c i mid st2 (d\<lparr>dv_tick := k\<rparr>)"
    using receive_ratchet_opens [OF assms(4,1,2,16,17,19,20,21) _ st2(3) i_def] assms(6,11,18,22) w(3,4) dhs st2(1)
    unfolding P_def i_def mid_def by metis
  have "receive_v2_wire E' (topic_of q) wire d = commit_ratchet_message E' c i mid st2 (d\<lparr>dv_tick := k\<rparr>)"
    using P parse k by (simp add: receive_v2_wire_def wire_json_fields page_fields [OF fits] run)
  then show ?thesis
    using commit_runs [OF assms(4), of i tx atts c mid st2 "d\<lparr>dv_tick := k\<rparr>"] assms(12,13,18) w(1,2) envl st2(2)
    unfolding P_def [symmetric] wire_def [symmetric] mid_def [symmetric]
    by (intro exI [of _ wire] exI [of _ ds'] exI [of _ st2]) (simp add: i_def Let_def conv_of_def mid_def [symmetric])
qed

section \<open>Witness\<close>

text \<open>The inviter's first ratchet message (\<open>sample_run\<close>), from Alice's device to Bob's.\<close>

lemma sample_b_kem:
  "rs_send_kem_ct sample_b = None" "rs_kem_pub sample_b = Some (b64_enc (sample_prims 64) (snd (kem_gen (sample_prims 64) [7])))"
proof -
  let ?P = "sample_prims 64"
  have P: "prims_ok ?P" by (rule sample_prims_ok) simp
  have turn: "rs_send_kem_ct st' = None \<and> rs_kem_pub st' = rs_kem_pub st"
    if "rs_dhs_priv st = hx p" "length p = 32" "rs_rk st = hx r" "length r = 32" "rs_peer_kem_pub st = None"
      "dh_ratchet ?P (sample_rand 2) st d None = Inr st'" for st st' p r d
  proof -
    obtain m c where m: "root_step ?P r (dh ?P p d) None = (m, c)" by force
    obtain n e where n: "kdf_rk ?P m (dh ?P (tr_dh (sample_rand 2)) d) = (n, e)" by force
    show ?thesis using dh_ratchet_classical [OF P that(1-5) m n] that(6) by simp
  qed
  define st where "st = \<lparr>rs_rk = hx (replicate 32 9), rs_cks = None, rs_ckr = None, rs_dhs_priv = hx (replicate 32 3),
     rs_dhs_pub = hx (x_pub ?P (replicate 32 3)), rs_dhr_pub = None, rs_ns = 0, rs_nr = 0, rs_pn = 0, rs_skipped = [],
     rs_kem_priv = Some (b64_enc ?P (fst (kem_gen ?P [7]))), rs_kem_pub = Some (b64_enc ?P (snd (kem_gen ?P [7]))),
     rs_peer_kem_pub = None, rs_send_kem_ct = None\<rparr>"
  have "dh_ratchet ?P (sample_rand 2) st (x_pub ?P (tr_dh (sample_rand 1))) None = Inr sample_b"
    using sample_b_eq by (simp add: ratchet_init_responder_def case_prod_beta Let_def st_def)
  from turn [OF _ _ _ _ _ this, of "replicate 32 3" "replicate 32 9"]
  show "rs_send_kem_ct sample_b = None" "rs_kem_pub sample_b = Some (b64_enc ?P (snd (kem_gen ?P [7])))"
    by (simp_all add: st_def)
qed

definition alice_sends :: device where
  "alice_sends = sample_device\<lparr>dv_ratchets := (\<lambda>p. if p = ratchet_path ''b'' then Some sample_b else None)\<rparr>"

definition bob_reads :: device where
  "bob_reads = bob\<lparr>dv_contacts := Some [bob_contact\<lparr>ct_ratchet_capable := True\<rparr>], dv_tick := 10,
     dv_ratchets := (\<lambda>p. if p = ratchet_path alice_did then Some sample_a else None)\<rparr>"

theorem ratchet_delivery_witness:
  "\<exists>wire ds' mid. build_ratchet_wire sample_env ''b'' (keys_of_seed (sample_prims 64) (replicate 32 0) [])
      (text_body ''hi'' []) alice_did (bytes_to_hex alice_seed) alice_sends = (Inr wire, ds') \<and>
    dv_convs (snd (receive_v2_wire sample_env (topic_of ''q1'') wire bob_reads)) =
      (dv_convs bob_reads)(conv_path alice_did := Some [incoming_message mid ''hi'' 5 [] []])"
proof -
  let ?P = "sample_prims 64"
  have P: "prims_ok ?P" by (rule sample_prims_ok) simp
  let ?used = "{hx (replicate 32 3), hx (replicate 32 1), hx (replicate 32 2)}"
  obtain h mk st where r: "joint_reachable ?P (\<lparr>sd_st = sample_a, sd_in = [(h, mk)]\<rparr>, \<lparr>sd_st = st, sd_in = []\<rparr>, ?used)"
    and h: "h_pn h = 0" "h_n h = 0" "hdr_hex ?P h = hx (replicate 32 2)"
    and snd: "ratchet_step_send ?P sample_b = Inr (mk, h, st)" "h_dh h = b64_enc ?P (replicate 32 2)"
      "h_kem_ct h = rs_send_kem_ct sample_b" "h_kem_pub h = rs_kem_pub sample_b"
    by (rule sample_run) (rule that)
  have a: "rs_skipped sample_a = []" "rs_nr sample_a = 0"
    by (simp_all add: sample_a_def ratchet_init_initiator_def case_prod_beta Let_def)
  have boot: "is_bootstrapped sample_b" "is_bootstrapped st"
    using joint_bootstrapped [OF P r] snd(1)
    by (auto simp: ratchet_step_send_def bindR_Inr Let_def case_prod_beta is_bootstrapped_def)
  have f: "header_fits h \<and> ascii_json (header_json h) \<and> js_ok (header_json h) \<and> length (sample_text (header_json h)) \<le> 2 ^ 20"
  proof -
    have "header_json h = JObj [(''dh'', JStr (of_bytes (replicate 32 2))), (''pn'', JInt 0), (''n'', JInt 0),
        (''kem_pub'', JStr (of_bytes (fit 1184 [7])))]"
      using h snd sample_b_kem by (simp add: header_json_def opt_member_def sample_prims_def)
    moreover have "ascii (of_bytes (replicate 32 2))" "ascii (of_bytes (fit 1184 [7]))"
      by (simp_all add: ascii_def of_bytes_def char_of_byte_def fit_def list_all_iff)
    ultimately show ?thesis
      using h snd(3,4) sample_b_kem by (simp add: header_fits_def sample_int.simps of_bytes_def)
  qed
  have del: "deliverable ?P ?used (turn_at sample_env 10) 5 sample_a h"
    using a h by (simp add: deliverable_def total_skip_def new_epoch_def sat_add32_def MAX_SKIP_def MAX_SKIPPED_KEYS_def
        turn_at_def sample_env_def sample_prims_def fit_id hx_def hex.enc_inject replicate_eq_replicate)
  have c: "find (owns_active ?P ''q1'' ''b'') (contacts_of bob_reads) = Some (bob_contact\<lparr>ct_ratchet_capable := True\<rparr>)"
    by (simp add: bob_reads_def bob_def owns_active_def owns_inbound_queue_with_def owns_inbound_queue_def contacts_of_def)
  have e: "conv_of bob_reads alice_did = []"
    by (simp add: conv_of_def bob_reads_def bob_def sample_device_def)
  have s: "dv_session bob_reads = Some \<lparr>ss_auth_key_hex = [], ss_did_key = ''b'', ss_name = ''Bob'', ss_kem_secret = [], ss_kem_public = []\<rparr>"
    by (simp add: bob_reads_def bob_def)
  have opens: "opens_as sample_env Provider (replicate 32 0) []"
    using bob_provider by (simp add: opens_as_def)
  have sides: "sides_reachable ?P \<lparr>sd_st = st, sd_in = []\<rparr> \<lparr>sd_st = sample_a, sd_in = [(h, mk)]\<rparr> ?used"
    using r by (simp add: sides_reachable_def)
  have files: "dv_ratchets alice_sends (ratchet_path ''b'') = Some sample_b" "dv_ratchets bob_reads (ratchet_path alice_did) = Some sample_a"
      "dv_tick bob_reads = 10"
    by (simp_all add: alice_sends_def bob_reads_def)
  have via: "decrypt_via_for_contact ?P (bob_contact\<lparr>ct_ratchet_capable := True\<rparr>) = Inr Provider"
      "ct_did (bob_contact\<lparr>ct_ratchet_capable := True\<rparr>) = alice_did" "ct_ratchet_capable (bob_contact\<lparr>ct_ratchet_capable := True\<rparr>)"
    by (simp_all add: decrypt_via_for_contact_def decrypt_via_for_session_def)
  obtain wire ds' where "build_ratchet_wire sample_env ''b'' (keys_of_seed ?P (replicate 32 0) [])
      (text_body ''hi'' []) alice_did (bytes_to_hex alice_seed) alice_sends = (Inr wire, ds')"
    "dv_convs (snd (receive_v2_wire sample_env (topic_of ''q1'') wire bob_reads)) =
      (dv_convs bob_reads)(conv_path alice_did := Some [incoming_message
         (ratchet_dedup_id ?P (the (wire_envelope sample_env wire))) ''hi'' 5 [] []])"
    using ratchet_delivery [OF sample_env_ok _ sample_storage_ok sample_storage_ok alice_signs, where did = alice_did and ts = 5
        and ds = alice_sends and peer = "''b''" and st = sample_b and mk = mk and h = h and st' = st and tx = "''hi''" and atts = "[]"
        and a = "\<lparr>sd_st = st, sd_in = []\<rparr>" and b = "\<lparr>sd_st = sample_a, sd_in = [(h, mk)]\<rparr>" and used = "?used" and d = bob_reads
        and q = "''q1''" and c = "bob_contact\<lparr>ct_ratchet_capable := True\<rparr>" and via = Provider and rseed = "replicate 32 0" and g = "[]"]
      sides c e s opens boot snd(1) del sample_carriable [OF refl, of 5 "Some h"] f
      files via
    by (simp add: same_world_def alice_did_of_seed has_id_def Let_def) blast
  then show ?thesis by blast
qed

end
