(* ===== verification/Authenticity.thy ===== *)
theory Authenticity
imports Ratchet_Delivery
begin

text \<open>
  What a hostile wire can do: whatever bytes arrive on whatever topic, a message log changes only
  for a payload whose signature verifies, from the active contact that owns the queue, and a
  contact with a ratchet is served by ratchet messages only; a ratchet wire that is not
  accepted leaves the device as it was.
\<close>

section \<open>Accepted payloads\<close>

definition accepted :: "env \<Rightarrow> device \<Rightarrow> string \<Rightarrow> dm_contact \<Rightarrow> inner_payload \<Rightarrow> bool" where
  "accepted E d topic c i = (\<exists>q my. topic = topic_of q \<and> c \<in> set (contacts_of d) \<and> owns_active (en_prims E) q my c \<and>
     verify_inner E i = Inr True \<and> in_kind i = KIND_MESSAGE \<and> in_sender_did i = ct_did c \<and>
     my = (case dv_session d of Some s \<Rightarrow> ss_did_key s | None \<Rightarrow> []))"

text \<open>The logs of messages and the groups.\<close>

definition messages_kept :: "device \<Rightarrow> device \<Rightarrow> bool" where
  "messages_kept d d' = (dv_convs d' = dv_convs d \<and> dv_group_convs d' = dv_group_convs d \<and>
     dv_groups d' = dv_groups d \<and> dv_declined d' = dv_declined d)"

interpretation messages: quiet_relation messages_kept
  by unfold_locales (auto simp: messages_kept_def)

lemma ticked_refl [simp]: "ticked d d"
  by (rule ticks.R_refl)

lemma ticked_fields:
  assumes "ticked d d'"
  shows "contacts_of d' = contacts_of d" "dv_session d' = dv_session d" "messages_kept d d'" "dv_ratchets d' = dv_ratchets d"
    "conv_of d' did = conv_of d did" "accepted E d' topic c i = accepted E d topic c i"
proof -
  obtain k where k: "d' = d\<lparr>dv_tick := k\<rparr>" using assms unfolding ticked_def by blast
  show "contacts_of d' = contacts_of d" "dv_session d' = dv_session d" "messages_kept d d'" "dv_ratchets d' = dv_ratchets d"
    "conv_of d' did = conv_of d did" "accepted E d' topic c i = accepted E d topic c i"
    by (simp_all add: k messages_kept_def conv_of_def accepted_def)
qed

lemma my_did_runs: "my_did_or_empty d = (Inr (case dv_session d of Some s \<Rightarrow> ss_did_key s | None \<Rightarrow> []), d)"
  by (simp add: my_did_or_empty_def okD_def ensure_profile_def bindD_def retD_def split: option.split)

lemma queue_topic: "queue_id_from_topic topic = Some q \<Longrightarrow> topic = topic_of q"
  unfolding queue_id_from_topic_def strip_prefix_iff by (simp add: topic_of_def)

text \<open>What an accepted payload may do to the one-to-one logs: append one message to the log of the
  contact, or nothing (a redelivery, or a message of a group).\<close>

definition logged :: "device \<Rightarrow> device \<Rightarrow> dm_contact \<Rightarrow> inner_payload \<Rightarrow> bool" where
  "logged d d' c i = (dv_convs d' = dv_convs d \<or> (\<exists>mid. \<not> has_id mid (conv_of d (ct_did c)) \<and> dv_convs d' = (dv_convs d)(conv_path (ct_did c) :=
     Some (conv_of d (ct_did c) @ [incoming_message mid (body_text (in_body i)) (in_ts i) (attachments_from_body (in_body i)) []]))))"

definition convs_kept :: "device \<Rightarrow> device \<Rightarrow> bool" where
  "convs_kept d d' = (dv_convs d' = dv_convs d \<and> dv_ratchets d' = dv_ratchets d)"

interpretation convs: quiet_relation convs_kept
  by unfold_locales (auto simp: convs_kept_def)

lemma store_group_convs: "convs_kept d (snd (store_incoming_group_message E ctx sender tx ts mid atts d))"
  using convs.resp_store_group [of E ctx sender tx ts mid atts] by (simp add: resp_def convs_kept_def)

lemma rotate_convs: "convs_kept d (snd (maybe_rotate_inbound_queue E did d))"
  using convs.resp_rotate [of E did] by (simp add: resp_def convs_kept_def)

lemma store_logged:
  assumes S: "storage_ok E" and c: "ct_did c = did"
  shows "\<exists>b d'. store_incoming_message E did (body_text (in_body i)) (in_ts i) mid (attachments_from_body (in_body i)) d = (Inr b, d') \<and>
    logged d d' c i \<and> dv_ratchets d' = dv_ratchets d"
  using store_incoming_runs [OF S, of did "body_text (in_body i)" "in_ts i" mid "attachments_from_body (in_body i)" d]
  by (auto simp: logged_def c split: if_splits)

lemma logged_convs: "logged d d1 c i \<Longrightarrow> convs_kept d1 d2 \<Longrightarrow> logged d d2 c i"
  by (simp add: logged_def convs_kept_def)

section \<open>Single-shot wires\<close>

lemma single_shot_accepted:
  assumes S: "storage_ok E" and q: "queue_id = queue_id_from_topic topic"
    and i: "verify_inner E i = Inr True" "in_kind i = KIND_MESSAGE"
  shows "messages_kept d (snd (receive_single_shot_message E queue_id envl i d)) \<or>
    (\<exists>c. accepted E d topic c i \<and> \<not> ct_ratchet_capable c \<and> logged d (snd (receive_single_shot_message E queue_id envl i d)) c i)"
proof (cases "queue_id")
  case None
  then show ?thesis by (simp add: receive_single_shot_message_def run Let_def messages.R_refl)
next
  case (Some queue)
  let ?my = "case dv_session d of Some s \<Rightarrow> ss_did_key s | None \<Rightarrow> []"
  let ?o = "find (\<lambda>c. ct_did c = in_sender_did i \<and> owns_active (en_prims E) queue ?my c) (contacts_of d)"
  let ?b = "in_body i"
  note rs = receive_single_shot_message_def Let_def run my_did_runs run_contacts [OF S] Some
  show ?thesis
  proof (cases "case ?o of None \<Rightarrow> True | Some c \<Rightarrow> ct_ratchet_capable c")
    case True
    then show ?thesis by (auto simp: rs messages.R_refl split: option.splits)
  next
    case False
    then obtain c where o: "?o = Some c" "\<not> ct_ratchet_capable c" by (auto split: option.splits)
    then have c: "c \<in> set (contacts_of d)" "ct_did c = in_sender_did i" "owns_active (en_prims E) queue ?my c"
      by (auto simp: find_Some_iff)
    have "topic = topic_of queue" using q Some queue_topic by metis
    then have acc: "accepted E d topic c i" using c i unfolding accepted_def by auto
    have "logged d (snd (receive_single_shot_message E queue_id envl i d)) c i"
    proof (cases "j_get ''group'' ?b")
      case None
      obtain b d1 where d1: "store_incoming_message E (in_sender_did i) (body_text ?b) (in_ts i)
          (single_shot_dedup_id (en_prims E) envl) (attachments_from_body ?b) d = (Inr b, d1)" "logged d d1 c i"
        using store_logged [OF S c(2), of i "single_shot_dedup_id (en_prims E) envl" d] by auto
      show ?thesis
        using o None d1 logged_convs [OF d1(2) rotate_convs] by (simp add: rs) (simp add: logged_def)
    next
      case (Some ctx)
      obtain r d1 where d1: "store_incoming_group_message E ctx (in_sender_did i) (body_text ?b) (in_ts i)
          (single_shot_dedup_id (en_prims E) envl) (attachments_from_body ?b) d = (r, d1)" by force
      then have "dv_convs d1 = dv_convs d" using store_group_convs [of d E ctx] by (metis convs_kept_def snd_conv)
      then show ?thesis using o Some d1
        by (cases r) (simp_all add: rs logged_def)
    qed
    then show ?thesis using o acc by blast
  qed
qed

text \<open>Handshakes and welcomes touch no log.\<close>

lemma handshake_messages: "resp messages_kept (receive_handshake E i q)" "resp messages_kept (receive_welcome E i)"
proof -
  have w: "resp messages_kept (write_contacts E l)" "resp messages_kept (write_ratchet E did st)"
      "resp messages_kept (remove_ratchet E did)" for l did st
    unfolding write_contacts_def write_ratchet_def remove_ratchet_def
    by (intro messages.resp_quiet messages.resp_save; simp add: messages_kept_def)+
  have b: "resp messages_kept (bootstrap_responder_ratchet E c pl rb did)" for c pl rb did
    unfolding bootstrap_responder_ratchet_def Let_def by (intro messages.resp_quiet w)
  show "resp messages_kept (receive_handshake E i q)"
    unfolding receive_handshake_def Let_def by (intro messages.resp_quiet w b)
  show "resp messages_kept (receive_welcome E i)"
    unfolding receive_welcome_def by (intro messages.resp_quiet w)
qed

section \<open>Ratchet wires\<close>

text \<open>What an accepted ratchet payload does: the ratchet file of the contact takes the state the
  receiving step left, or stays (when the payload is refused after its checks).\<close>

definition advanced :: "env \<Rightarrow> device \<Rightarrow> device \<Rightarrow> dm_contact \<Rightarrow> inner_payload \<Rightarrow> bool" where
  "advanced E d d' c i = (dv_ratchets d' = dv_ratchets d \<or> (\<exists>st st' R now mk h. in_rh i = Some h \<and>
     dv_ratchets d (ratchet_path (ct_did c)) = Some st \<and> recv_header (en_prims E) R now st h = Inr (mk, st') \<and>
     dv_ratchets d' = (dv_ratchets d)(ratchet_path (ct_did c) := Some st')))"

lemma commit_logged:
  assumes S: "storage_ok E"
  shows "logged d (snd (commit_ratchet_message E c i mid st d)) c i \<and>
    dv_ratchets (snd (commit_ratchet_message E c i mid st d)) \<in>
      {dv_ratchets d, (dv_ratchets d)(ratchet_path (ct_did c) := Some st)}"
proof -
  let ?b = "in_body i"
  have w: "write_ratchet E (ct_did c) st d1 = (Inr (), d1\<lparr>dv_ratchets := (dv_ratchets d1)(ratchet_path (ct_did c) := Some st)\<rparr>)" for d1
    by (simp add: write_ratchet_def run_store [OF S])
  have fin: "logged d (snd (if a then maybe_rotate_inbound_queue E (ct_did c) d2 else retD () d2)) c i \<and>
      dv_ratchets (snd (if a then maybe_rotate_inbound_queue E (ct_did c) d2 else retD () d2)) =
        (dv_ratchets d)(ratchet_path (ct_did c) := Some st)"
    if "logged d d1 c i" "dv_ratchets d1 = dv_ratchets d"
      "d2 = d1\<lparr>dv_ratchets := (dv_ratchets d1)(ratchet_path (ct_did c) := Some st)\<rparr>" for a d1 d2
    using that rotate_convs [of d2 E "ct_did c"] by (simp add: logged_def convs_kept_def run)
  show ?thesis
  proof (cases "j_get ''group'' ?b")
    case None
    obtain b d1 where d1: "store_incoming_message E (ct_did c) (body_text ?b) (in_ts i) mid (attachments_from_body ?b) d = (Inr b, d1)"
        "logged d d1 c i" "dv_ratchets d1 = dv_ratchets d"
      using store_logged [OF S refl, of c i mid d] by blast
    show ?thesis
      using None d1(1) fin [OF d1(2,3) refl, of b]
      by (simp add: commit_ratchet_message_def Let_def run w if_distribR) (simp add: logged_def)
  next
    case (Some ctx)
    obtain r d1 where d1: "store_incoming_group_message E ctx (ct_did c) (body_text ?b) (in_ts i) mid
        (attachments_from_body ?b) d = (r, d1)" by force
    then have k: "logged d d1 c i" "dv_ratchets d1 = dv_ratchets d"
      using store_group_convs [of d E ctx] unfolding logged_def by (metis convs_kept_def snd_conv)+
    show ?thesis
    proof (cases r)
      case (Inl e)
      then show ?thesis using Some d1 k by (simp add: commit_ratchet_message_def Let_def run)
    next
      case (Inr a)
      then show ?thesis using Some d1 fin [OF k refl, of a]
        by (simp add: commit_ratchet_message_def Let_def run w if_distribR)
    qed
  qed
qed

lemma lift_post: "(\<And>x. r = Inr x \<Longrightarrow> Q (snd (f x d))) \<Longrightarrow> Q d \<Longrightarrow> Q (snd (bindD (liftD r) f d))"
  by (cases r) (simp_all add: run)

lemma run_post: "m d = (Inr x, d1) \<Longrightarrow> Q (snd (f x d1)) \<Longrightarrow> Q (snd (bindD m f d))"
  by (simp add: run)

lemma if_post: "(\<not> b \<Longrightarrow> Q (snd (n d))) \<Longrightarrow> (b \<Longrightarrow> Q (snd (m d))) \<Longrightarrow> Q (snd ((if b then m else n) d))"
  by simp

lemma prod_post: "(\<And>a b. x = (a, b) \<Longrightarrow> Q (snd (f a b d))) \<Longrightarrow> Q (snd ((case x of (a, b) \<Rightarrow> f a b) d))"
  by (cases x) simp

lemma bootstrapped_post:
  assumes "storage_ok E" "\<And>st. dv_ratchets d (ratchet_path did) = Some st \<Longrightarrow> Q (snd (f st d))" "Q d"
  shows "Q (snd (bindD (bootstrapped_ratchet E did m) f d))"
  using assms(2,3) by (auto simp: bootstrapped_ratchet_def read_ratchet_runs [OF assms(1)] run bindD_def split: option.split)

lemma nowD_runs: "nowD E d = (Inr (en_now E (dv_tick d)), d)"
  by (simp add: nowD_def run)

lemma redelivery_post:
  assumes "storage_ok E" "Q d" "\<And>x. r = Inr x \<Longrightarrow> Q (snd (k x d))"
  shows "Q (snd (redelivery_or E c mid r k d))"
  using assms by (cases r) (auto simp: redelivery_or_def conv_has_def run run_contacts [OF assms(1)] split: fault.split)

lemma ratchet_accepted:
  assumes S: "storage_ok E" and q: "queue_id = queue_id_from_topic topic"
    and ok: "ok = (\<lambda>d'. ticked d d' \<or> (\<exists>c i. accepted E d topic c i \<and> ct_ratchet_capable c \<and> logged d d' c i \<and> advanced E d d' c i))"
  shows "ok (snd (receive_ratchet_message E queue_id envl pn n kc kp d))"
proof -
  have t: "ok d1" if "ticked d d1" for d1 using that by (simp add: ok)
  have commit: "ok (snd (commit_ratchet_message E c i mid st' d1))"
    if "ticked d d1" "queue_id = Some queue" "c \<in> set (contacts_of d)" "ct_ratchet_capable c"
      "owns_active (en_prims E) queue (case dv_session d of Some s \<Rightarrow> ss_did_key s | None \<Rightarrow> []) c"
      "dv_ratchets d (ratchet_path (ct_did c)) = Some st" "b64_32 (en_prims E) ''eph'' (env_eph envl) = Inr dh"
      "ratchet_step_recv (en_prims E) R now st (hx dh) dh pn n kc kp = Inr (mk, st')"
      "check_ratchet_inner E c \<lparr>h_dh = env_eph envl, h_pn = pn, h_n = n, h_kem_ct = kc, h_kem_pub = kp\<rparr> i = Inr ()"
    for d1 queue c st dh R now mk st' i mid
  proof -
    let ?h = "\<lparr>h_dh = env_eph envl, h_pn = pn, h_n = n, h_kem_ct = kc, h_kem_pub = kp\<rparr>"
    have i: "verify_inner E i = Inr True" "in_rh i = Some ?h" "in_kind i = KIND_MESSAGE" "in_sender_did i = ct_did c"
      using that(9) by (auto simp: check_ratchet_inner_def bindR_Inr elim: guardR.elims split: if_splits)
    have "topic = topic_of queue" using q that(2) queue_topic by metis
    then have acc: "accepted E d topic c i" using that(3,5) i unfolding accepted_def by auto
    have "b64_dec (en_prims E) (env_eph envl) = Some dh"
      using that(7) by (auto simp: b64_32_def bindR_Inr elim!: of_option.elims)
    then have "recv_header (en_prims E) R now st ?h = Inr (mk, st')"
      using that(8) by (simp add: recv_header_def)
    moreover have f: "dv_ratchets d1 = dv_ratchets d" "dv_convs d1 = dv_convs d" "conv_of d1 = conv_of d"
      using ticked_fields [OF that(1)] by (auto simp: messages_kept_def)
    ultimately have "advanced E d (snd (commit_ratchet_message E c i mid st' d1)) c i"
      using commit_logged [OF S, of d1 c i mid st'] that(6) i(2) unfolding advanced_def by auto
    moreover have "logged d (snd (commit_ratchet_message E c i mid st' d1)) c i"
      using commit_logged [OF S, of d1 c i mid st'] f by (simp add: logged_def)
    ultimately show ?thesis using acc that(4) unfolding ok by blast
  qed
  have ok_d: "ok d" by (simp add: t)
  have tt: "ticked d d1" if "ticked (d\<lparr>dv_tick := k\<rparr>) d1" for d1 k
    using that by (simp add: ticked_def)
  note rules = lift_post [where Q = ok] run_post [where Q = ok] if_post [where Q = ok] prod_post [where Q = ok]
    bootstrapped_post [where Q = ok, OF S _ ok_d] redelivery_post [where Q = ok, OF S] ticks.bind_post [where Q = ok]
  show ?thesis
    unfolding receive_ratchet_message_def Let_def
    apply (rule rules(1) [OF _ ok_d], rule rules(2) [OF my_did_runs], rule rules(2) [OF run_contacts(1) [OF S]])
    apply (rule rules(1) [OF _ ok_d], rule rules(3), rule rules(5), rule rules(1) [OF _ ok_d])
     apply (rule rules(2) [OF draw_turn_runs], rule rules(2) [OF nowD_runs], rule rules(6))
      apply (simp add: t ticked_def)
     apply (rule rules(4), rule rules(1))
      apply (rule rules(7) [OF ticks.resp_secrets(2)])
       apply (rule rules(6), erule t [OF tt], rule rules(1) [OF rules(1)])
          apply (rule commit [OF tt])
                  apply (assumption | simp add: t tt ticked_def run | force simp: find_Some_iff elim!: of_option.elims)+
    done
qed

section \<open>Any wire\<close>

text \<open>Whether a wire carries the page of a ratchet message.\<close>

definition has_page :: "env \<Rightarrow> string \<Rightarrow> bool" where
  "has_page E wire = (case en_parse E wire of Some v \<Rightarrow> j_get ''rh'' v \<noteq> None | None \<Rightarrow> False)"

lemma single_shot_path:
  assumes S: "storage_ok E"
    and ok: "ok = (\<lambda>d'. messages_kept d d' \<or> (\<exists>c i. accepted E d topic c i \<and> \<not> ct_ratchet_capable c \<and> logged d d' c i))"
    and q: "queue_id = queue_id_from_topic topic"
  shows "ok (snd (bindD (decrypt_via_for_queue E queue_id) (\<lambda>via. bindD (decrypt_envelope_to_inner E envl via) (\<lambda>inner.
         bindD (liftD (verify_inner E inner)) (\<lambda>b.
         if \<not> b then failD ''inner signature mismatch''
         else if in_kind inner = KIND_MESSAGE then receive_single_shot_message E queue_id envl inner
         else if in_kind inner = KIND_HANDSHAKE then
           bindD (liftD (of_option ''bad topic'' queue_id)) (\<lambda>queue. receive_handshake E inner queue)
         else if in_kind inner = KIND_WELCOME then receive_welcome E inner
         else failD ''unknown inner kind''))) d))"
proof -
  have t: "ok d1" if "ticked d d1" for d1 using ticked_fields(3) [OF that] by (simp add: ok)
  have k: "ok (snd (m d1))" if "ticked d d1" "resp messages_kept m" for m :: "unit io" and d1
    using that messages.R_trans ticked_fields(3) [OF that(1)] unfolding ok resp_def by blast
  have s: "ok (snd (receive_single_shot_message E queue_id envl i d1))"
    if "ticked d d1" "verify_inner E i = Inr True" "in_kind i = KIND_MESSAGE" for d1 i
  proof -
    have "dv_convs d1 = dv_convs d" "conv_of d1 = conv_of d" using ticked_fields [OF that(1)] by (auto simp: messages_kept_def)
    then have "logged d1 d2 c i \<longleftrightarrow> logged d d2 c i" "messages_kept d1 d2 \<Longrightarrow> messages_kept d d2" for d2 c
      using messages.R_trans [OF ticked_fields(3) [OF that(1)]] by (simp_all add: logged_def)
    then show ?thesis
      using single_shot_accepted [OF S q that(2,3), of d1 envl] ticked_fields(6) [OF that(1)] unfolding ok by blast
  qed
  note tr = ticks.R_trans
  show ?thesis
  proof (rule ticks.bind_post [OF ticks.resp_inner(4), where Q = ok, OF _ t], rule ticks.bind_post [OF ticks.resp_inner(1), where Q = ok, OF _ t [OF tr]])
    fix via d1 i d2
    assume a: "ticked d d1" "ticked d1 d2"
    then have d2: "ticked d d2" by (rule tr)
    show "ok (snd (bindD (liftD (verify_inner E i)) (\<lambda>b.
         if \<not> b then failD ''inner signature mismatch''
         else if in_kind i = KIND_MESSAGE then receive_single_shot_message E queue_id envl i
         else if in_kind i = KIND_HANDSHAKE then
           bindD (liftD (of_option ''bad topic'' queue_id)) (\<lambda>queue. receive_handshake E i queue)
         else if in_kind i = KIND_WELCOME then receive_welcome E i
         else failD ''unknown inner kind'') d2))"
    proof (rule lift_post [where Q = ok, OF _ t [OF d2]])
      fix b assume b: "verify_inner E i = Inr b"
      show "ok (snd ((if \<not> b then failD ''inner signature mismatch''
         else if in_kind i = KIND_MESSAGE then receive_single_shot_message E queue_id envl i
         else if in_kind i = KIND_HANDSHAKE then
           bindD (liftD (of_option ''bad topic'' queue_id)) (\<lambda>queue. receive_handshake E i queue)
         else if in_kind i = KIND_WELCOME then receive_welcome E i
         else failD ''unknown inner kind'') d2))"
      proof (cases "b \<and> in_kind i = KIND_MESSAGE")
        case True
        then show ?thesis using s [OF d2] b by simp
      next
        case False
        have "resp messages_kept (if \<not> b then failD ''inner signature mismatch''
         else if in_kind i = KIND_MESSAGE then retD ()
         else if in_kind i = KIND_HANDSHAKE then
           bindD (liftD (of_option ''bad topic'' queue_id)) (\<lambda>queue. receive_handshake E i queue)
         else if in_kind i = KIND_WELCOME then receive_welcome E i
         else failD ''unknown inner kind'')"
          by (intro messages.resp_quiet handshake_messages)
        from k [OF d2 this] False show ?thesis by (cases b) simp_all
      qed
    qed
  qed
qed

lemma receive_page:
  assumes S: "storage_ok E" and h: "has_page E wire"
    and ok: "ok = (\<lambda>d'. ticked d d' \<or> (\<exists>c i. accepted E d topic c i \<and> ct_ratchet_capable c \<and> logged d d' c i \<and> advanced E d d' c i))"
  shows "ok (snd (receive_v2_wire E topic wire d))"
proof -
  have ok_d: "ok d" by (simp add: ok)
  obtain v rh where v: "en_parse E wire = Some v" "j_get ''rh'' v = Some rh"
    using h by (auto simp: has_page_def split: option.splits)
  note lift = lift_post [where Q = ok, OF _ ok_d]
  have "ok (snd (bindD (liftD (of_option ''no envelope'' (j_get ''envelope'' v))) (\<lambda>env_val.
     bindD (liftD (of_option ''envelope shape'' (envelope_of env_val))) (\<lambda>envl.
     bindD (liftD (u32_field rh ''pn'')) (\<lambda>pn. bindD (liftD (u32_field rh ''n'')) (\<lambda>n.
         receive_ratchet_message E (queue_id_from_topic topic) envl pn n (j_get_str ''kc'' rh) (j_get_str ''kp'' rh))))) d))"
    by (intro lift) (rule ratchet_accepted [OF S refl ok])
  then show ?thesis using v ok_d by (simp add: receive_v2_wire_def run Let_def)
qed

lemma receive_no_page:
  assumes S: "storage_ok E" and h: "\<not> has_page E wire"
    and ok: "ok = (\<lambda>d'. messages_kept d d' \<or> (\<exists>c i. accepted E d topic c i \<and> \<not> ct_ratchet_capable c \<and> logged d d' c i))"
  shows "ok (snd (receive_v2_wire E topic wire d))"
proof (cases "en_parse E wire")
  case None
  then show ?thesis by (simp add: receive_v2_wire_def run ok messages.R_refl)
next
  case (Some v)
  have ok_d: "ok d" by (simp add: ok messages.R_refl)
  have rh: "j_get ''rh'' v = None" using h Some by (simp add: has_page_def)
  note lift = lift_post [where Q = ok, OF _ ok_d]
  show ?thesis
  proof (cases "j_get_str ''type'' v = Some ''dm.v2''")
    case False
    then show ?thesis using Some ok_d by (simp add: receive_v2_wire_def run)
  next
    case True
    show ?thesis unfolding receive_v2_wire_def Some of_option.simps
      using True rh by (simp add: run Let_def) (intro lift single_shot_path [OF S ok refl])
  qed
qed

section \<open>Unique identifiers\<close>

definition ids_unique :: "device \<Rightarrow> bool" where
  "ids_unique d = (\<forall>did. distinct (map ms_id (conv_of d did)))"

inductive receipt :: "device \<Rightarrow> device \<Rightarrow> bool" where
  "storage_ok E \<Longrightarrow> receipt d (snd (receive_v2_wire E topic wire d))"

inductive_cases receiptE: "receipt d d'"

lemma has_id_iff: "has_id i conv \<longleftrightarrow> i \<in> set (map ms_id conv)"
  by (induction conv) (auto simp: has_id_def)

lemma logged_conv:
  assumes "logged d d' c i"
  shows "conv_of d' did = conv_of d did \<or> (\<exists>m. conv_of d' did = conv_of d did @ [m] \<and> \<not> has_id (ms_id m) (conv_of d did))"
  using assms by (fastforce simp: logged_def conv_of_def incoming_message_def)

lemma distinct_ids_append: "distinct (map ms_id conv) \<Longrightarrow> \<not> has_id (ms_id m) conv \<Longrightarrow> distinct (map ms_id (conv @ [m]))"
  by (simp add: has_id_iff)

lemma logged_unique:
  assumes "ids_unique d" "logged d d' c i"
  shows "ids_unique d'"
  unfolding ids_unique_def
proof
  fix did
  have u: "distinct (map ms_id (conv_of d did))" using assms(1) by (simp add: ids_unique_def)
  from logged_conv [OF assms(2)] show "distinct (map ms_id (conv_of d' did))"
  proof
    assume "conv_of d' did = conv_of d did" with u show ?thesis by simp
  next
    assume "\<exists>m. conv_of d' did = conv_of d did @ [m] \<and> \<not> has_id (ms_id m) (conv_of d did)"
    then obtain m where "conv_of d' did = conv_of d did @ [m]" "\<not> has_id (ms_id m) (conv_of d did)" by blast
    then show ?thesis using distinct_ids_append [OF u] by simp
  qed
qed

lemma messages_unique: "ids_unique d \<Longrightarrow> messages_kept d d' \<Longrightarrow> ids_unique d'"
  by (simp add: ids_unique_def messages_kept_def conv_of_def)

interpretation receipts: invariant_system ids_unique receipt
proof
  fix s t assume u: "ids_unique s" "receipt s t"
  then obtain E topic wire where t: "storage_ok E" "t = snd (receive_v2_wire E topic wire s)" by (auto elim: receiptE)
  show "ids_unique t" using t(2) u(1)
    receive_page [OF t(1) _ refl, of wire s topic] receive_no_page [OF t(1) _ refl, of wire s topic]
    logged_unique messages_unique ticked_fields(3) by blast
qed

definition receive_all :: "env \<Rightarrow> (string \<times> string) list \<Rightarrow> device \<Rightarrow> device" where
  "receive_all E ws d = foldl (\<lambda>d (topic, wire). snd (receive_v2_wire E topic wire d)) d ws"

lemma receive_all_run: "storage_ok E \<Longrightarrow> receipt\<^sup>*\<^sup>* d (receive_all E ws d)"
  by (induction ws rule: rev_induct)
    (auto simp: receive_all_def split: prod.split intro: rtranclp.rtrancl_into_rtrancl receipt.intros)

section \<open>Properties\<close>



text \<open>C5. No message is stored twice: however many wires arrive, in any order and however often
  redelivered, the identifiers of the messages of every conversation stay distinct.\<close>

theorem no_duplicates:
  assumes "storage_ok E" "ids_unique d"
  shows "ids_unique (receive_all E ws d)"
  by (rule receipts.run_inv [OF receive_all_run [OF assms(1)] assms(2)])

section \<open>Witnesses\<close>

definition odd_wire :: string where
  "odd_wire = sample_text (JObj [(''type'', JStr ''dm.v2''), (''rh'', JNull)])"

lemma odd_wire_parse: "en_parse sample_env odd_wire = Some (JObj [(''type'', JStr ''dm.v2''), (''rh'', JNull)])"
proof -
  have "js_ok (JObj [(''type'', JStr ''dm.v2''), (''rh'', JNull)])" by simp
  then show ?thesis using sample_json_codec unfolding json_codec_def odd_wire_def by (simp del: sample_text.simps)
qed

lemma odd_wire_page: "has_page sample_env odd_wire"
  unfolding has_page_def odd_wire_parse by simp

lemma bob_no_ratchet: "accepted E bob topic c i \<Longrightarrow> \<not> ct_ratchet_capable c"
  by (auto simp: accepted_def bob_def contacts_of_def)



theorem no_duplicates_witness:
  "ids_unique (receive_all sample_env [(topic_of ''q1'', odd_wire), (topic_of ''q1'', odd_wire)] bob)"
proof -
  have "ids_unique bob" by (simp add: ids_unique_def conv_of_def bob_def sample_device_def)
  then show ?thesis by (rule no_duplicates [OF sample_storage_ok])
qed

end
