(* ===== verification/Anonymity.thy ===== *)
theory Anonymity
imports Authenticity
begin

text \<open>
  What an anonymous contact can learn of the user: two runs of an operation, on devices that
  differ in the session and with identity providers that differ in everything they answer, do
  the same. Since that holds for every carrier and storage service, whatever they answer, the
  two runs hand them the same data.
\<close>

section \<open>Another identity\<close>

text \<open>Everything but the answers of the identity provider agrees.\<close>

definition other_identity :: "env \<Rightarrow> env \<Rightarrow> bool" where
  "other_identity E E' = (E' = E\<lparr>en_whoami := en_whoami E', en_pubkeys := en_pubkeys E', en_sign := en_sign E',
     en_dh := en_dh E', en_decaps := en_decaps E'\<rparr>)"

lemma other_identity_fields:
  assumes "other_identity E E'"
  shows "en_prims E' = en_prims E" "en_net E' = en_net E" "en_now E' = en_now E" "en_rand E' = en_rand E" "en_uuid E' = en_uuid E"
    "en_read_ok E' = en_read_ok E" "en_write_ok E' = en_write_ok E" "en_connect E' = en_connect E" "en_join E' = en_join E"
    "en_join_peers E' = en_join_peers E" "en_list_peers E' = en_list_peers E" "en_ticket E' = en_ticket E"
    "en_text E' = en_text E" "en_parse E' = en_parse E" "en_jstr E' = en_jstr E" "en_b64url_enc E' = en_b64url_enc E"
    "en_b64url_dec E' = en_b64url_dec E"
  by (subst assms [unfolded other_identity_def], simp)+

lemma same_asks:
  assumes "other_identity E E'"
  shows "drawD E' = drawD E" "nowD E' = nowD E" "random_hex E' = random_hex E" "loadD E' = loadD E" "saveD E' = saveD E"
    "connect E' = connect E" "has_topic_peer E' = has_topic_peer E" "graft E' = graft E" "my_ticket E' = my_ticket E"
    "publishD E' = publishD E"
  by (intro ext, simp add: drawD_def nowD_def random_hex_def loadD_def saveD_def connect_def has_topic_peer_def
      list_topic_peers_def graft_def my_ticket_def publishD_def other_identity_fields [OF assms])+

lemma same_join:
  assumes "other_identity E E'"
  shows "join_topic_with E' = join_topic_with E"
proof -
  have d: "dial E' ts = dial E ts" for ts
    by (induction ts) (simp_all add: same_asks [OF assms])
  have "wait_loop E' topic boot n = wait_loop E topic boot n" for topic boot n
    by (induction n) (simp_all add: d same_asks [OF assms] cong: if_cong)
  then show ?thesis
    by (intro ext) (simp add: join_topic_with_def wait_for_topic_peers_def Let_def same_asks [OF assms]
        other_identity_fields [OF assms] cong: if_cong)
qed

lemma same_files:
  assumes "other_identity E E'"
  shows "list_contacts E' = list_contacts E" "write_contacts E' = write_contacts E" "find_contact E' = find_contact E"
    "upsert_contact_record E' = upsert_contact_record E" "read_ratchet E' = read_ratchet E" "write_ratchet E' = write_ratchet E"
    "bootstrapped_ratchet E' = bootstrapped_ratchet E" "mint_anon_identity E' = mint_anon_identity E"
  by (intro ext, simp add: list_contacts_def write_contacts_def find_contact_def upsert_contact_record_def read_ratchet_def
      write_ratchet_def bootstrapped_ratchet_def mint_anon_identity_def same_asks [OF assms]
      other_identity_fields [OF assms])+

text \<open>A key at hand is used instead of the provider.\<close>

lemma same_wires:
  assumes "other_identity E E'" "auth \<noteq> []"
  shows "single_shot_wire E' knd keys body did auth = single_shot_wire E knd keys body did auth"
    "build_ratchet_wire E' peer keys body did auth = build_ratchet_wire E peer keys body did auth"
  using assms(2)
  by (simp_all add: single_shot_wire_def build_ratchet_wire_def build_inner_def sign_bytes_def encrypt_inner_for_peer_def
      same_asks [OF assms(1)] same_files [OF assms(1)] other_identity_fields [OF assms(1)])

section \<open>Another session\<close>

definition with_session :: "session option \<Rightarrow> 'a res \<times> device \<Rightarrow> 'a res \<times> device" where
  "with_session s rd = (fst rd, (snd rd)\<lparr>dv_session := s\<rparr>)"

definition blind :: "'a io \<Rightarrow> bool" where
  "blind m = (\<forall>d s. m (d\<lparr>dv_session := s\<rparr>) = with_session s (m d))"

lemma blind_ret: "blind (retD x)" "blind (failD msg)" "blind (liftD r)"
  by (simp_all add: blind_def with_session_def run)

lemma blind_bind: "blind m \<Longrightarrow> (\<And>x. blind (f x)) \<Longrightarrow> blind (bindD m f)"
  by (auto simp: blind_def with_session_def bindD_def split: prod.splits sum.splits)

lemma blind_ok: "blind m \<Longrightarrow> blind (okD m)" "blind m \<Longrightarrow> blind (tryD m)"
  by (auto simp: blind_def with_session_def okD_def tryD_def split: prod.splits sum.splits fault.splits)

lemma blind_ignore: "blind m \<Longrightarrow> blind (ignoreD m)"
  unfolding ignoreD_def by (intro blind_bind blind_ok blind_ret)

lemma blind_for: "(\<And>x. blind (f x)) \<Longrightarrow> blind (forD f xs)"
  by (induction xs) (auto intro: blind_ret blind_bind)

lemma blind_ask: "blind (callD f)" "blind (drawD E n)" "blind (nowD E)" "blind (random_hex E n)"
proof -
  show c: "blind (callD f)" for f by (simp add: blind_def with_session_def callD_def)
  show "blind (drawD E n)" "blind (random_hex E n)"
    unfolding drawD_def random_hex_def by (intro c blind_bind blind_ret)+
  show "blind (nowD E)" by (simp add: blind_def with_session_def nowD_def run)
qed

lemma blind_store:
  "(\<And>d s. f (d\<lparr>dv_session := s\<rparr>) = f d) \<Longrightarrow> blind (loadD E path f dflt)"
  "(\<And>d s. g (d\<lparr>dv_session := s\<rparr>) = (g d)\<lparr>dv_session := s\<rparr>) \<Longrightarrow> blind (saveD E path g)"
  by (simp_all add: blind_def with_session_def loadD_def saveD_def)

lemma blind_cases:
  "(b \<Longrightarrow> blind m) \<Longrightarrow> (\<not> b \<Longrightarrow> blind n) \<Longrightarrow> blind (if b then m else n)"
  "(x = None \<Longrightarrow> blind m) \<Longrightarrow> (\<And>y. x = Some y \<Longrightarrow> blind (g y)) \<Longrightarrow> blind (case x of None \<Rightarrow> m | Some y \<Rightarrow> g y)"
  "(\<And>a b. p = (a, b) \<Longrightarrow> blind (h a b)) \<Longrightarrow> blind (case p of (a, b) \<Rightarrow> h a b)"
  by (cases x; cases p; simp)+

lemmas blind_basic = blind_ret blind_bind blind_ok blind_ignore blind_for blind_ask blind_cases

lemma blind_join: "blind (join_topic_with E topic boot)"
proof -
  have d: "blind (dial E ts)" for ts
    by (induction ts) (auto simp: connect_def intro!: blind_basic)
  have "blind (wait_loop E topic b n)" for b n
    by (induction n) (auto simp: graft_def has_topic_peer_def list_topic_peers_def intro!: blind_basic d)
  then show ?thesis
    unfolding join_topic_with_def wait_for_topic_peers_def connect_def Let_def by (intro blind_basic)
qed

lemma blind_publish: "blind (publishD E topic boot sender wire)"
  by (auto simp: blind_def with_session_def publishD_def split: sum.splits prod.splits)

lemma blind_files: "blind (list_contacts E)" "blind (write_contacts E l)" "blind (find_contact E did)"
    "blind (upsert_contact_record E c)" "blind (read_ratchet E did)" "blind (write_ratchet E did st)" "blind (bootstrapped_ratchet E did msg)"
  unfolding upsert_contact_record_def find_contact_def bootstrapped_ratchet_def list_contacts_def write_contacts_def
    read_ratchet_def write_ratchet_def Let_def
  by (intro blind_basic blind_store; simp)+

lemma blind_wires: "blind (single_shot_wire E knd keys body did auth)" "blind (build_ratchet_wire E peer keys body did auth)"
  unfolding single_shot_wire_def build_ratchet_wire_def build_inner_def sign_bytes_def encrypt_inner_for_peer_def Let_def
  by (intro blind_basic blind_files)+

lemmas blind_rules = blind_basic blind_join blind_publish blind_files blind_wires

section \<open>Sending\<close>

definition anonymous_contact :: "dm_contact \<Rightarrow> bool" where
  "anonymous_contact c = (ct_mode c = Anonymous \<and> (\<exists>a. ct_anon_identity c = Some a \<and> an_seed_hex a \<noteq> []))"

lemma bindD_cong: "(\<And>x d'. m d = (Inr x, d') \<Longrightarrow> f x d' = g x d') \<Longrightarrow> bindD m f d = bindD m g d"
  by (auto simp: bindD_def split: prod.split sum.split)

lemma run_lift_bind [simp]: "bindD (liftD (Inr x)) f = f x" "bindD (liftD (Inl e)) f = liftD (Inl e)"
  by (auto simp: bindD_def liftD_def)

text \<open>What \<open>send_body_to_contact\<close> does for an anonymous contact, without the session.\<close>

definition anonymous_send :: "env \<Rightarrow> string \<Rightarrow> json \<Rightarrow> unit io" where
  "anonymous_send E peer body = bindD (find_contact E peer) (\<lambda>fc.
     bindD (liftD (of_option ''not a metadata-safe (v2) contact''
       (case fc of Some c \<Rightarrow> if is_v2_active c then Some c else None | None \<Rightarrow> None))) (\<lambda>c.
     bindD (liftD (of_option ''no inbound queue for this contact yet'' (ct_their_inbound_queue c))) (\<lambda>queue.
     bindD (liftD (of_option ''no peer keys for this contact'' (ct_peer_pubkeys c))) (\<lambda>keys.
     let a = the (ct_anon_identity c) in
     if an_seed_hex a = [] then retD () else
     bindD (if ct_ratchet_capable c then build_ratchet_wire E peer keys body (an_did a) (an_seed_hex a)
            else single_shot_wire E KIND_MESSAGE keys body (an_did a) (an_seed_hex a)) (\<lambda>wire.
     bindD (ignoreD (join_topic_with E (topic_of queue) (boot_of (ct_peer_ticket c)))) (\<lambda>_.
     ignoreD (publishD E (topic_of queue) (boot_of (ct_peer_ticket c)) (or_anonymous (ct_my_send_pseudonym c)) wire)))))))"

lemma anonymous_send_same: "other_identity E E' \<Longrightarrow> anonymous_send E' peer body = anonymous_send E peer body"
  by (simp add: anonymous_send_def same_files same_wires same_join same_asks Let_def cong: if_cong)

lemma anonymous_send_blind: "blind (anonymous_send E peer body)"
  unfolding anonymous_send_def Let_def by (intro blind_rules)

lemma find_contact_found: "find_contact E peer d = (Inr fc, d') \<Longrightarrow> d' = d \<and> (fc = None \<or> fc = find_did peer (contacts_of d))"
  by (auto simp: find_contact_def list_contacts_def loadD_def contacts_of_def find_did_def run split: if_splits)

lemma send_is_anonymous:
  assumes "dv_session d = Some s" "\<And>c. find_did peer (contacts_of d) = Some c \<Longrightarrow> anonymous_contact c"
  shows "send_body_to_contact E peer body d = anonymous_send E peer body d"
proof -
  have "send_body_to_contact E peer body d = bindD (find_contact E peer) (\<lambda>fc.
     bindD (liftD (of_option ''not a metadata-safe (v2) contact''
       (case fc of Some c \<Rightarrow> if is_v2_active c then Some c else None | None \<Rightarrow> None))) (\<lambda>c.
     bindD (liftD (of_option ''no inbound queue for this contact yet'' (send_queue (en_prims E) (ss_did_key s) c))) (\<lambda>queue.
     bindD (liftD (of_option ''no peer keys for this contact'' (ct_peer_pubkeys c))) (\<lambda>keys.
     bindD (liftD (signing_identity (ct_mode c) (ct_anon_identity c) (ss_did_key s) (ss_auth_key_hex s))) (\<lambda>(my_did, my_seed_hex).
     bindD (if ct_ratchet_capable c then build_ratchet_wire E peer keys body my_did my_seed_hex
            else single_shot_wire E KIND_MESSAGE keys body my_did my_seed_hex) (\<lambda>wire.
     bindD (ignoreD (join_topic_with E (topic_of queue) (boot_of (ct_peer_ticket c)))) (\<lambda>_.
     ignoreD (publishD E (topic_of queue) (boot_of (ct_peer_ticket c)) (or_anonymous (ct_my_send_pseudonym c)) wire)))))))) d"
    using assms(1) by (simp add: send_body_to_contact_def ensure_profile_def run Let_def)
  also have "\<dots> = anonymous_send E peer body d" unfolding anonymous_send_def
  proof (rule bindD_cong, goal_cases)
    case (1 fc d')
    then have f: "fc = None \<or> fc = find_did peer (contacts_of d)" using find_contact_found by blast
    show ?case
    proof (cases fc)
      case (Some c)
      then have "anonymous_contact c" using f assms(2) by simp
      then obtain a where a: "ct_mode c = Anonymous" "ct_anon_identity c = Some a" "an_seed_hex a \<noteq> []"
        unfolding anonymous_contact_def by blast
      then have "send_queue P did c = ct_their_inbound_queue c" "signing_identity Anonymous (Some a) did auth =
          Inr (an_did a, an_seed_hex a)" for P did auth
        by (simp_all add: send_queue_def signing_identity_def)
      then show ?thesis using Some a by (cases "is_v2_active c") (simp_all add: Let_def cong: if_cong)
    qed simp
  qed
  finally show ?thesis .
qed

section \<open>Invites\<close>

text \<open>What \<open>generate_invite\<close> does for an anonymous invite once the session and its keys were found.\<close>

definition anonymous_invite :: "env \<Rightarrow> string \<Rightarrow> string io" where
  "anonymous_invite E label = (let P = en_prims E in
     bindD (mint_anon_identity E) (\<lambda>a.
     bindD (liftD (anon_pubkeys P a)) (\<lambda>share_pub.
     bindD (random_hex E 32) (\<lambda>queue. bindD (random_hex E 16) (\<lambda>recv_pseudonym.
     bindD (random_hex E 16) (\<lambda>send_pseudonym. bindD (random_hex E 16) (\<lambda>nonce.
     bindD (drawD E 32) (\<lambda>seed. let (prekey_priv, prekey_pub) = ratchet_keypair P seed in
     bindD (nowD E) (\<lambda>now.
     bindD (upsert_contact_record E (pending_contact label queue now recv_pseudonym send_pseudonym Anonymous (Some a))) (\<lambda>_.
     bindD (ignoreD (write_ratchet E (pending_did queue) (prekey_state prekey_priv prekey_pub))) (\<lambda>_.
     bindD (ignoreD (join_topic_with E (topic_of queue) [])) (\<lambda>_.
     bindD (nowD E) (\<lambda>now2. bindD (my_ticket E) (\<lambda>ticket.
     retD (''hey-invite:'' @ encode_invite_link E \<lparr>il_v = INVITE_LINK_VERSION, il_queue = queue, il_did = an_did a,
        il_name = [], il_keys = share_pub, il_nonce = nonce, il_expires_at = now2 + INVITE_TTL_MS,
        il_ratchet = Some (b64_enc P prekey_pub), il_node_ticket = ticket\<rparr>)))))))))))))))"

lemma anonymous_invite_same: "other_identity E E' \<Longrightarrow> anonymous_invite E' label = anonymous_invite E label"
  by (simp add: anonymous_invite_def same_files same_join same_asks other_identity_fields encode_invite_link_def)

lemma blind_ticket: "blind (my_ticket E)"
  unfolding my_ticket_def by (intro blind_rules)

lemma blind_mint: "blind (mint_anon_identity E)"
  unfolding mint_anon_identity_def Let_def by (intro blind_rules)

lemma anonymous_invite_blind: "blind (anonymous_invite E label)"
  unfolding anonymous_invite_def Let_def by (intro blind_rules blind_ticket blind_mint)

lemma invite_is_anonymous:
  assumes "dv_session d = Some s" "my_pubkeys E d = (Inr (Some k), d1)"
  shows "generate_invite E label Anonymous d = anonymous_invite E label d1"
  using assms
  by (simp add: generate_invite_def anonymous_invite_def Let_def ensure_profile_def run mint_for_mode_def bindD_assoc
      advertised_pubkeys_def shared_display_name_def)

lemma my_pubkeys_device: "my_pubkeys E d = (Inr k, d1) \<Longrightarrow> d1 = d\<lparr>dv_tick := dv_tick d + 1\<rparr>"
  by (auto simp: my_pubkeys_def okD_def callD_def bindD_def retD_def split: sum.splits fault.splits)

section \<open>Property\<close>

text \<open>C8. An anonymous contact learns nothing of the user's identity: sending to contacts that are
  anonymous, and minting an anonymous invite, do the same and return the same whoever is
  signed in (the identifier, the name and the keys of the session) and whatever the identity
  provider answers, for every carrier and every storage service: the device left behind is the same but
  for that session, so no wire, topic, pseudonym, invite or file depends on it.\<close>

theorem anonymous_noninterference:
  assumes "other_identity E E'" "dv_session d = Some s"
    and "\<And>c. find_did peer (contacts_of d) = Some c \<Longrightarrow> anonymous_contact c"
    and "my_pubkeys E d = (Inr (Some k), d1)" "my_pubkeys E' (d\<lparr>dv_session := Some s'\<rparr>) = (Inr (Some k'), d1')"
  shows "send_body_to_contact E' peer body (d\<lparr>dv_session := Some s'\<rparr>) = with_session (Some s') (send_body_to_contact E peer body d) \<and>
    generate_invite E' label Anonymous (d\<lparr>dv_session := Some s'\<rparr>) = with_session (Some s') (generate_invite E label Anonymous d)"
proof
  have c: "find_did peer (contacts_of (d\<lparr>dv_session := Some s'\<rparr>)) = Some c \<Longrightarrow> anonymous_contact c" for c
    using assms(3) by (simp add: contacts_of_def)
  show "send_body_to_contact E' peer body (d\<lparr>dv_session := Some s'\<rparr>) = with_session (Some s') (send_body_to_contact E peer body d)"
    using send_is_anonymous [OF _ c, where s = s' and E = E'] send_is_anonymous [OF assms(2,3)] anonymous_send_blind
    by (simp add: anonymous_send_same [OF assms(1)] blind_def)
  have d: "d1' = d1\<lparr>dv_session := Some s'\<rparr>"
    using my_pubkeys_device [OF assms(4)] my_pubkeys_device [OF assms(5)] by simp
  show "generate_invite E' label Anonymous (d\<lparr>dv_session := Some s'\<rparr>) = with_session (Some s') (generate_invite E label Anonymous d)"
    using invite_is_anonymous [OF assms(2,4), of label] invite_is_anonymous [OF _ assms(5), of s' label] anonymous_invite_blind
    by (simp add: anonymous_invite_same [OF assms(1)] blind_def d)
qed

section \<open>Witness\<close>

definition keys_answer :: "string \<Rightarrow> json" where
  "keys_answer x = JObj [(''x25519_pub_b64'', JStr x), (''ml_kem_pub_b64'', JStr ''k'')]"

definition ann_env :: env where "ann_env = sample_env\<lparr>en_pubkeys := (\<lambda>_. Inr (keys_answer ''x''))\<rparr>"

definition ben_env :: env where
  "ben_env = ann_env\<lparr>en_pubkeys := (\<lambda>_. Inr (keys_answer ''y'')), en_sign := (\<lambda>_ _. Inl (Error ''locked''))\<rparr>"

definition session_of :: "string \<Rightarrow> session" where
  "session_of did = \<lparr>ss_auth_key_hex = [], ss_did_key = did, ss_name = did, ss_kem_secret = [], ss_kem_public = []\<rparr>"

definition hidden_contact :: dm_contact where
  "hidden_contact = bob_contact\<lparr>ct_mode := Anonymous, ct_anon_identity := Some \<lparr>an_seed_hex = bytes_to_hex (replicate 32 4),
     an_kem_secret = [], an_kem_public = [], an_did = ''did:key:zX''\<rparr>\<rparr>"

definition hidden_device :: device where
  "hidden_device = sample_device\<lparr>dv_session := Some (session_of ''ann''), dv_contacts := Some [hidden_contact]\<rparr>"

theorem anonymous_noninterference_witness:
  "send_body_to_contact ben_env alice_did (JObj []) (hidden_device\<lparr>dv_session := Some (session_of ''ben'')\<rparr>) =
     with_session (Some (session_of ''ben'')) (send_body_to_contact ann_env alice_did (JObj []) hidden_device) \<and>
   generate_invite ben_env ''pal'' Anonymous (hidden_device\<lparr>dv_session := Some (session_of ''ben'')\<rparr>) =
     with_session (Some (session_of ''ben'')) (generate_invite ann_env ''pal'' Anonymous hidden_device)"
proof -
  have e: "other_identity ann_env ben_env"
    by (simp add: other_identity_def ben_env_def ann_env_def)
  have s: "dv_session hidden_device = Some (session_of ''ann'')" by (simp add: hidden_device_def)
  have "length (bytes_to_hex (replicate 32 4)) \<noteq> 0" by simp
  then have "bytes_to_hex (replicate 32 4) \<noteq> []" by (metis list.size(3))
  then have c: "find_did alice_did (contacts_of hidden_device) = Some c \<Longrightarrow> anonymous_contact c" for c
    by (auto simp: hidden_device_def find_did_def hidden_contact_def anonymous_contact_def)
  have k: "\<exists>d1. my_pubkeys ann_env hidden_device = (Inr (Some \<lparr>pk_x25519 = ''x'', pk_ml_kem = ''k''\<rparr>), d1)"
      "\<exists>d1. my_pubkeys ben_env (hidden_device\<lparr>dv_session := Some (session_of ''ben'')\<rparr>) =
         (Inr (Some \<lparr>pk_x25519 = ''y'', pk_ml_kem = ''k''\<rparr>), d1)"
    by (simp_all add: my_pubkeys_def okD_def callD_def run ann_env_def ben_env_def keys_answer_def data_of_def j_get_str_def)
  show ?thesis
    using anonymous_noninterference [OF e s c] k by blast
qed

end
