(* ===== verification/Group_Rules.thy ===== *)
theory Group_Rules
imports Authenticity
begin

text \<open>
  What devices believe of a group: a declined group never comes back, only the owner edits a
  group on its own device, and what a received roster does to the group.
\<close>

section \<open>Groups of a device\<close>

definition groups_of :: "device \<Rightarrow> group list" where
  "groups_of d = (case dv_groups d of Some l \<Rightarrow> l | None \<Rightarrow> [])"

definition declined_of :: "device \<Rightarrow> string list" where
  "declined_of d = (case dv_declined d of Some l \<Rightarrow> l | None \<Rightarrow> [])"

lemma run_groups [run]:
  assumes "storage_ok E"
  shows "read_groups E d = (Inr (groups_of d), d)" "write_groups E l d = (Inr (), d\<lparr>dv_groups := Some l\<rparr>)"
    "read_declined_groups E d = (Inr (declined_of d), d)"
  by (simp_all add: read_groups_def write_groups_def read_declined_groups_def groups_of_def declined_of_def run_store [OF assms])

lemma groups_of_simps [simp]:
  "groups_of (d\<lparr>dv_groups := Some l\<rparr>) = l" "declined_of (d\<lparr>dv_groups := Some l\<rparr>) = declined_of d"
  by (simp_all add: groups_of_def declined_of_def)

lemma find_group_upd:
  "(\<And>g. gr_id (f g) = gr_id g) \<Longrightarrow> find_group k (upd_group gid f l) = (if k = gid then map_option f (find_group gid l) else find_group k l)"
  by (induction l) (auto simp: find_group_def upd_group_def)

lemma find_group_append: "find_group k (l @ [g]) = (case find_group k l of Some x \<Rightarrow> Some x | None \<Rightarrow> if gr_id g = k then Some g else None)"
  by (induction l) (auto simp: find_group_def)

lemma merge_ctx_id [simp]: "gr_id (merge_ctx name members created_by bio avatar g) = gr_id g"
  by (simp add: merge_ctx_def)

section \<open>Declined groups\<close>

definition is_declined :: "string \<Rightarrow> device \<Rightarrow> bool" where
  "is_declined gid d = (gid \<in> set (declined_of d) \<and> find_group gid (groups_of d) = None)"

definition stays_declined :: "string \<Rightarrow> device \<Rightarrow> device \<Rightarrow> bool" where
  "stays_declined gid d d' = (is_declined gid d \<longrightarrow> is_declined gid d')"

interpretation declined: quiet_relation "stays_declined gid" for gid
  by unfold_locales (auto simp: stays_declined_def is_declined_def groups_of_def declined_of_def)

lemma upsert_declined:
  assumes S: "storage_ok E"
  shows "resp (stays_declined gid) (upsert_group_from_ctx E ctx)"
  unfolding resp_def
proof
  fix d
  show "stays_declined gid d (snd (upsert_group_from_ctx E ctx d))"
  proof (cases "j_get_str ''id'' ctx = Some gid")
    case True
    then show ?thesis
      by (auto simp: upsert_group_from_ctx_def run run_groups [OF S] stays_declined_def is_declined_def)
  next
    case False
    define merge where "merge = (\<lambda>i l now. if find_group i l \<noteq> None
       then upd_group i (merge_ctx (str_or ''Group'' (j_get_str ''name'' ctx)) (members_of_ctx ctx) (str_or [] (j_get_str ''createdBy'' ctx))
         (str_or [] (j_get_str ''bio'' ctx)) (j_get_str ''avatarCid'' ctx)) l
       else l @ [\<lparr>gr_id = i, gr_name = str_or ''Group'' (j_get_str ''name'' ctx), gr_members = members_of_ctx ctx, gr_last_ts = now,
         gr_last_preview = [], gr_unread = 0, gr_created_by = str_or [] (j_get_str ''createdBy'' ctx),
         gr_bio = str_or [] (j_get_str ''bio'' ctx), gr_avatar_cid = j_get_str ''avatarCid'' ctx, gr_pending = True\<rparr>])"
    define rest where "rest = (\<lambda>i. bindD (read_groups E) (\<lambda>l. bindD (nowD E) (\<lambda>now.
       bindD (ignoreD (write_groups E (merge i l now))) (\<lambda>_. retD (Some i)))))"
    have m: "find_group gid (merge i l now) = find_group gid l" if "i \<noteq> gid" for i l now
      using that by (simp add: merge_def find_group_upd find_group_append split: option.split)
    have "snd (rest i d) = d\<lparr>dv_groups := Some (merge i (groups_of d) (en_now E (dv_tick d)))\<rparr>" for i d
      by (simp add: rest_def run run_groups [OF S] nowD_def ignoreD_def okD_def)
    then have w: "resp (stays_declined gid) (rest i)" if "i \<noteq> gid" for i
      using m that by (simp add: resp_def stays_declined_def is_declined_def)
    have e: "upsert_group_from_ctx E ctx = (case j_get_str ''id'' ctx of None \<Rightarrow> retD None | Some i \<Rightarrow>
       if i = [] then retD None
       else bindD (read_declined_groups E) (\<lambda>declined. if i \<in> set declined then retD None
         else bindD (forD (bootstrap_roster_contact E) (members_of_ctx ctx)) (\<lambda>_. rest i)))"
      by (simp add: upsert_group_from_ctx_def rest_def merge_def Let_def cong: option.case_cong if_cong)
    have "resp (stays_declined gid) (upsert_group_from_ctx E ctx)"
      unfolding e read_declined_groups_def using False
      by (intro declined.resp_all declined.resp_bootstrap(2) w)
        (auto simp: stays_declined_def is_declined_def groups_of_def declined_of_def)
    then show ?thesis by (simp add: resp_def)
  qed
qed

lemma store_group_declined:
  assumes S: "storage_ok E"
  shows "resp (stays_declined gid) (store_incoming_group_message E ctx sender tx ts mid atts)"
proof -
  have t: "resp (stays_declined gid) (touch_group E i p t n)" for i p t n
    by (auto simp: resp_def touch_group_def run run_groups [OF S] ignoreD_def okD_def stays_declined_def is_declined_def find_group_upd)
  have g: "resp (stays_declined gid) (read_groups E)" "resp (stays_declined gid) (read_group_conversation E i)"
      "resp (stays_declined gid) (write_group_conversation E i ms)" for i ms
    unfolding read_groups_def read_group_conversation_def write_group_conversation_def
    by (intro declined.resp_quiet declined.resp_save; simp add: stays_declined_def is_declined_def groups_of_def declined_of_def)+
  show ?thesis
    unfolding store_incoming_group_message_def Let_def by (intro upsert_declined [OF S] t g declined.resp_quiet)
qed

lemma receive_declined: "storage_ok E \<Longrightarrow> resp (stays_declined gid) (receive_v2_wire E topic wire)"
  by (intro declined.resp_receive store_group_declined)
    (auto simp: stays_declined_def is_declined_def groups_of_def declined_of_def)

interpretation declined_receipts: invariant_system "is_declined gid" receipt for gid
proof
  fix s t assume "is_declined gid s" "receipt s t"
  then show "is_declined gid t"
    using receive_declined [of _ gid] by (auto simp: resp_def stays_declined_def elim!: receiptE)
qed

section \<open>A roster received\<close>

text \<open>Operations that cannot fail while the storage service works.\<close>

definition succeeds :: "'a io \<Rightarrow> bool" where
  "succeeds m = (\<forall>d. \<exists>x d'. m d = (Inr x, d'))"

lemma succeeds_basic: "succeeds (retD x)" "succeeds (getD f)" "succeeds (drawD E n)" "succeeds (nowD E)" "succeeds (random_hex E n)"
  by (simp_all add: succeeds_def run drawD_def callD_def nowD_def random_hex_def)

lemma succeeds_bind: "succeeds m \<Longrightarrow> (\<And>x. succeeds (f x)) \<Longrightarrow> succeeds (bindD m f)"
  unfolding succeeds_def by (metis run_bind(1))

lemma succeeds_ignore: "succeeds m \<Longrightarrow> succeeds (ignoreD m)"
  by (auto simp: succeeds_def ignoreD_def okD_def bindD_def retD_def split: prod.splits sum.splits) (metis Pair_inject sum.distinct(1))

lemma succeeds_cases:
  "(b \<Longrightarrow> succeeds m) \<Longrightarrow> (\<not> b \<Longrightarrow> succeeds n) \<Longrightarrow> succeeds (if b then m else n)"
  "(x = None \<Longrightarrow> succeeds m) \<Longrightarrow> (\<And>y. x = Some y \<Longrightarrow> succeeds (g y)) \<Longrightarrow> succeeds (case x of None \<Rightarrow> m | Some y \<Rightarrow> g y)"
  by (cases x; simp)+

lemma succeeds_for: "(\<And>x. succeeds (f x)) \<Longrightarrow> succeeds (forD f xs)"
  by (induction xs) (auto intro: succeeds_basic succeeds_bind)

lemma succeeds_files: "storage_ok E \<Longrightarrow> succeeds (list_contacts E)" "storage_ok E \<Longrightarrow> succeeds (write_contacts E l)" "succeeds my_did_or_empty"
  by (auto simp: succeeds_def run_contacts my_did_or_empty_def okD_def ensure_profile_def bindD_def retD_def split: option.split)

lemma bootstrap_succeeds: "storage_ok E \<Longrightarrow> succeeds (bootstrap_roster_contact E m)"
  unfolding bootstrap_roster_contact_def bootstrap_contact_from_keys_def or_draw_def Let_def
  by (intro succeeds_basic succeeds_bind succeeds_ignore succeeds_cases succeeds_files)

lemma members_of_ctx [simp]: "members_of_ctx (group_ctx g) = gr_members g"
proof -
  have "those (map member_of (map member_json (gr_members g))) = Some (gr_members g)"
    by (rule those_map_Some) simp
  then show ?thesis by (simp add: members_of_ctx_def group_ctx_def del: map_map)
qed

lemma group_ctx_fields [simp]:
  "j_get_str ''id'' (group_ctx g) = Some (gr_id g)" "j_get_str ''name'' (group_ctx g) = Some (gr_name g)"
  "j_get_str ''createdBy'' (group_ctx g) = Some (gr_created_by g)" "j_get_str ''bio'' (group_ctx g) = Some (gr_bio g)"
  "j_get_str ''avatarCid'' (group_ctx g) = gr_avatar_cid g"
  by (cases "gr_avatar_cid g"; simp add: group_ctx_def j_get_str_def)+

text \<open>The group after a roster was received for it.\<close>

definition edited_by :: "group \<Rightarrow> group \<Rightarrow> group" where
  "edited_by new g = merge_ctx (gr_name new) (gr_members new) (gr_created_by new) (gr_bio new) (gr_avatar_cid new) g"

lemma upsert_existing:
  assumes S: "storage_ok E" and g: "find_group (gr_id new) (groups_of d) = Some g" "gr_id new \<noteq> []" "gr_id new \<notin> set (declined_of d)"
  shows "\<exists>d'. upsert_group_from_ctx E (group_ctx new) d = (Inr (Some (gr_id new)), d') \<and>
    groups_of d' = upd_group (gr_id new) (edited_by new) (groups_of d)"
proof -
  let ?m = "forD (bootstrap_roster_contact E) (gr_members new)"
  have "succeeds ?m" by (intro succeeds_for bootstrap_succeeds S)
  then obtain u d1 where d1: "?m d = (Inr u, d1)" unfolding succeeds_def by blast
  have "resp messages_kept ?m"
    by (intro messages.resp_for messages.resp_bootstrap(2)) (simp add: messages_kept_def)
  then have "messages_kept d d1" using d1 unfolding resp_def by (metis snd_conv)
  then have e: "groups_of d1 = groups_of d" by (simp add: messages_kept_def groups_of_def)
  show ?thesis
    using g d1 by (simp add: upsert_group_from_ctx_def run run_groups [OF S] Let_def e nowD_def ignoreD_def okD_def str_or_def
        edited_by_def [abs_def])
qed

section \<open>Properties\<close>

text \<open>C31. A declined group stays away: once the user has declined a group, no wire received, from anyone
  and in any order, makes a group with that identifier appear again, or removes the
  identifier from the declined ones.\<close>

theorem declined_group_stays_away:
  assumes "storage_ok E" "gid \<in> set (declined_of d)" "find_group gid (groups_of d) = None"
  shows "gid \<in> set (declined_of (receive_all E ws d)) \<and> find_group gid (groups_of (receive_all E ws d)) = None"
  using declined_receipts.run_inv [OF receive_all_run [OF assms(1), of d ws], of gid] assms(2,3) by (simp add: is_declined_def)


section \<open>Witnesses\<close>

definition sample_group :: "string \<Rightarrow> group_member list \<Rightarrow> group" where
  "sample_group owner ms = \<lparr>gr_id = ''g'', gr_name = ''G'', gr_members = ms, gr_last_ts = 1, gr_last_preview = [], gr_unread = 0,
     gr_created_by = owner, gr_bio = [], gr_avatar_cid = None, gr_pending = False\<rparr>"

definition member_named :: "string \<Rightarrow> group_member" where
  "member_named did = \<lparr>gm_did = did, gm_name = did, gm_peer_pubkeys = None, gm_peer_ticket = None\<rparr>"

theorem declined_group_stays_away_witness:
  "find_group ''g'' (groups_of (receive_all sample_env [(topic_of ''q1'', odd_wire)] (bob\<lparr>dv_declined := Some [''g'']\<rparr>))) = None"
  using declined_group_stays_away [OF sample_storage_ok, of "''g''" "bob\<lparr>dv_declined := Some [''g'']\<rparr>" "[(topic_of ''q1'', odd_wire)]"]
  by (simp add: declined_of_def groups_of_def bob_def sample_device_def find_group_def)

definition bob_in_group :: device where
  "bob_in_group = bob\<lparr>dv_groups := Some [sample_group ''al'' [member_named ''al'', member_named ''b'']]\<rparr>"


end
