(* ===== verification/Handshake.thy ===== *)
theory Handshake
imports Ratchet_Delivery
begin

text \<open>
  The handshake sets up the ratchet: the block \<open>bootstrap_initiator\<close> puts into the handshake of
  the device that accepts an invite makes \<open>receive_handshake\<close> on the inviting device leave a
  ratchet file that is, with the file of the accepter, a starting state of \<open>Ratchet_Sync\<close>.
\<close>

section \<open>Frames\<close>

definition files_kept :: "device \<Rightarrow> device \<Rightarrow> bool" where
  "files_kept d d' = (dv_contacts d' = dv_contacts d \<and> dv_ratchets d' = dv_ratchets d)"

interpretation files: quiet_relation files_kept
  by unfold_locales (auto simp: files_kept_def)

lemma files_contacts: "files_kept d d' \<Longrightarrow> contacts_of d' = contacts_of d"
  by (simp add: files_kept_def contacts_of_def)

section \<open>The accepter\<close>

lemma b64_32_enc: "prims_ok P \<Longrightarrow> length b = 32 \<Longrightarrow> b64_32 P w (b64_enc P b) = Inr b"
  by (simp add: b64_32_def prim_laws)

text \<open>The root key both sides derive.\<close>

definition session_root :: "prims \<Rightarrow> bytes \<Rightarrow> bytes \<Rightarrow> bytes \<Rightarrow> bytes \<Rightarrow> bytes" where
  "session_root P seed g eph r = root_init P (x_dh P eph (x_pub P seed)) (snd (kem_encaps P (snd (kem_gen P g)) r))"

lemma initiator_runs:
  assumes E: "env_ok E" and k: "il_keys invite = keys_of_seed (en_prims E) seed g"
  obtains eph r R d1 where
    "bootstrap_initiator E invite (b64_enc (en_prims E) (x_pub (en_prims E) prekey)) d =
      (Inr (\<lparr>rb_eph_pub_b64 = b64_enc (en_prims E) (x_pub (en_prims E) eph),
             rb_kem_ct_b64 = b64_enc (en_prims E) (fst (kem_encaps (en_prims E) (snd (kem_gen (en_prims E) g)) r)),
             rb_dh_pub_b64 = b64_enc (en_prims E) (x_pub (en_prims E) (tr_dh R)),
             rb_kem_pub_b64 = Some (b64_enc (en_prims E) (snd (kem_gen (en_prims E) (tr_gen R))))\<rparr>,
            ratchet_init_initiator (en_prims E) R (session_root (en_prims E) seed g eph r) (x_pub (en_prims E) prekey)), d1)"
    "\<exists>t. tr_dh R = en_rand E t 32"
proof -
  have P: "prims_ok (en_prims E)" using E by (simp add: env_ok_def)
  show thesis
    by (rule that [of "en_rand E (dv_tick d) 32" "en_rand E (Suc (dv_tick d)) 32"
          "\<lparr>tr_dh = en_rand E (Suc (Suc (dv_tick d))) 32, tr_encaps = [], tr_gen = en_rand E (Suc (Suc (Suc (dv_tick d)))) 64\<rparr>" "d\<lparr>dv_tick := (Suc (Suc (Suc (Suc (dv_tick d)))))\<rparr>"])
      (simp_all add: bootstrap_initiator_def Let_def k keys_of_seed_def b64_32_enc [OF P] prims_okD [OF P] drawD_def callD_def run
        ratchet_keypair_def dh_def ml_kem_encapsulate_local_def ratchet_init_initiator_def case_prod_beta session_root_def, blast)
qed

section \<open>The inviter\<close>

lemma responder_starts:
  assumes P: "prims_ok P" and l: "length prekey = 32"
  shows "\<exists>st. ratchet_init_responder P gen0 R (session_root P seed g eph r) prekey pub dhp (Some (snd (kem_gen P ga))) = Inr st"
proof -
  let ?sk = "session_root P seed g eph r"
  have l2: "length ?sk = 32" using P by (simp add: session_root_def root_init_def prim_laws)
  obtain a b where ab: "root_step P ?sk (dh P prekey dhp) None = (a, b)" by force
  obtain c e where ce: "kdf_rk_hybrid P a (dh P (tr_dh R) dhp) (snd (kem_encaps P (snd (kem_gen P ga)) (tr_encaps R))) = (c, e)" by force
  have le: "length (snd (kem_gen P ga)) = 1184" using P by (simp add: prim_laws)
  show ?thesis
    using dh_ratchet_hybrid [OF P _ l _ l2 _ le ab ce] by (simp add: ratchet_init_responder_def case_prod_beta Let_def)
qed

lemma responder_runs:
  assumes S: "storage_ok E" and P: "prims_ok (en_prims E)" and l: "length prekey = 32"
    and stash: "dv_ratchets d (ratchet_path pl) = Some (prekey_state prekey (x_pub (en_prims E) prekey))"
    and via: "decrypt_via_for_contact (en_prims E) c = Inr via" "opens_as E via seed g"
    and rb: "rb = \<lparr>rb_eph_pub_b64 = b64_enc (en_prims E) (x_pub (en_prims E) eph),
             rb_kem_ct_b64 = b64_enc (en_prims E) (fst (kem_encaps (en_prims E) (snd (kem_gen (en_prims E) g)) r)),
             rb_dh_pub_b64 = b64_enc (en_prims E) dhp,
             rb_kem_pub_b64 = Some (b64_enc (en_prims E) (snd (kem_gen (en_prims E) ga)))\<rparr>" "length dhp = 32"
  obtains gen0 R st d1 where "bootstrap_responder_ratchet E c pl (bootstrap_json rb) did d = (Inr True, d1)"
    "files_kept (d\<lparr>dv_ratchets := (dv_ratchets d)(ratchet_path did := Some st)\<rparr>) d1"
    "ratchet_init_responder (en_prims E) gen0 R (session_root (en_prims E) seed g eph r) prekey (x_pub (en_prims E) prekey) dhp
       (Some (snd (kem_gen (en_prims E) ga))) = Inr st" "\<exists>t. tr_dh R = en_rand E t 32"
proof -
  let ?P = "en_prims E"
  obtain d1 where s: "shared_secrets E via (x_pub ?P eph) (fst (kem_encaps ?P (snd (kem_gen ?P g)) r)) d =
      (Inr (x_dh ?P seed (x_pub ?P eph), snd (kem_encaps ?P (snd (kem_gen ?P g)) r)), d1)"
    using shared_secrets_ok [OF P via(2), of "x_pub ?P eph" "fst (kem_encaps ?P (snd (kem_gen ?P g)) r)" d] P by (auto simp: prim_laws)
  have f: "files_kept d d1"
    using files.resp_secrets(1) [of E via "x_pub ?P eph" "fst (kem_encaps ?P (snd (kem_gen ?P g)) r)"] s
    unfolding resp_def by (metis snd_conv)
  have root: "root_init ?P (x_dh ?P seed (x_pub ?P eph)) (snd (kem_encaps ?P (snd (kem_gen ?P g)) r)) = session_root ?P seed g eph r"
    by (simp add: session_root_def x_dh_commute [OF P, of seed eph])
  let ?g0 = "en_rand E (dv_tick d1) 64"
  let ?R = "\<lparr>tr_dh = en_rand E (Suc (dv_tick d1)) 32, tr_encaps = en_rand E (Suc (Suc (dv_tick d1))) 32, tr_gen = en_rand E (Suc (Suc (Suc (dv_tick d1)))) 64\<rparr>"
  obtain st where st: "ratchet_init_responder ?P ?g0 ?R (session_root ?P seed g eph r) prekey (x_pub ?P prekey) dhp
       (Some (snd (kem_gen ?P ga))) = Inr st"
    using responder_starts [OF P l] by blast
  have j: "j_get_str ''eph_pub_b64'' (bootstrap_json rb) = Some (b64_enc ?P (x_pub ?P eph))"
    "j_get_str ''kem_ct_b64'' (bootstrap_json rb) = Some (b64_enc ?P (fst (kem_encaps ?P (snd (kem_gen ?P g)) r)))"
    "j_get_str ''dh_pub_b64'' (bootstrap_json rb) = Some (b64_enc ?P dhp)"
    "j_get_str ''kem_pub_b64'' (bootstrap_json rb) = Some (b64_enc ?P (snd (kem_gen ?P ga)))"
    by (simp_all add: rb bootstrap_json_def opt_member_def j_get_str_def)
  have pk: "is_bootstrapped (prekey_state prekey (x_pub ?P prekey)) = False"
    "b32 (rs_dhs_priv (prekey_state prekey (x_pub ?P prekey))) = Inr prekey"
    "b32 (rs_dhs_pub (prekey_state prekey (x_pub ?P prekey))) = Inr (x_pub ?P prekey)"
    using l P by (simp_all add: prekey_state_def is_bootstrapped_def prim_laws)
  show thesis
  proof (rule that [OF _ _ st])
    show "bootstrap_responder_ratchet E c pl (bootstrap_json rb) did d =
        (Inr True, d1\<lparr>dv_tick := (Suc (Suc (Suc (Suc (dv_tick d1))))), dv_ratchets := (dv_ratchets d1)(ratchet_path did := Some st)\<rparr>)"
      using st rb(2) by (simp add: bootstrap_responder_ratchet_def Let_def run read_ratchet_runs [OF S] write_ratchet_runs [OF S]
          stash pk block_field_def j prims_okD [OF P] b64_32_enc [OF P] via s root drawD_def callD_def)
    show "files_kept (d\<lparr>dv_ratchets := (dv_ratchets d)(ratchet_path did := Some st)\<rparr>)
        (d1\<lparr>dv_tick := (Suc (Suc (Suc (Suc (dv_tick d1))))), dv_ratchets := (dv_ratchets d1)(ratchet_path did := Some st)\<rparr>)"
      using f by (simp add: files_kept_def)
    show "\<exists>t. tr_dh ?R = en_rand E t 32" by auto
  qed
qed

section \<open>The handshake received\<close>

lemma respD: "resp R m \<Longrightarrow> R d (snd (m d))"
  by (simp add: resp_def)

lemma remove_ratchet_runs: "storage_ok E \<Longrightarrow> remove_ratchet E did d =
    (Inr (), d\<lparr>dv_ratchets := (dv_ratchets d)(ratchet_path did := None)\<rparr>)"
  by (simp add: remove_ratchet_def ignoreD_def okD_def run_store run)

lemma handshake_fields:
  "j_get_str ''my_inbound_queue'' (handshake_body queue name keys (Some rb) ticket) = Some queue"
  "Option.bind (j_get ''pubkeys'' (handshake_body queue name keys (Some rb) ticket)) peer_keys_of = Some keys"
  "j_get ''ratchet'' (handshake_body queue name keys (Some rb) ticket) = Some (bootstrap_json rb)"
  by (simp_all add: handshake_body_def opt_member_def j_get_str_def)

lemma ratchet_paths_differ: "starts_with did ''did:key:z'' \<Longrightarrow> ratchet_path did \<noteq> ratchet_path (pending_did q)"
  by (cases did) (simp_all add: ratchet_path_def path_safe_def pending_did_def starts_with_def)

lemma promoted_via: "decrypt_via_for_contact P (promoted_contact i a b c d e f c0) = decrypt_via_for_contact P c0"
  by (simp add: decrypt_via_for_contact_def promoted_contact_def)

lemma receive_handshake_commits:
  assumes S: "storage_ok E" and c0: "find (pending_on q) (contacts_of d) = Some c0" "ct_did c0 = pending_did q"
    and i: "in_body i = handshake_body queue name keys (Some rb) ticket"
    and rs: "\<And>d c. dv_ratchets d = rts \<Longrightarrow> decrypt_via_for_contact (en_prims E) c = decrypt_via_for_contact (en_prims E) c0 \<Longrightarrow>
       \<exists>d1 st. bootstrap_responder_ratchet E c (pending_did q) (bootstrap_json rb) (in_sender_did i) d = (Inr True, d1) \<and>
        files_kept (d\<lparr>dv_ratchets := (dv_ratchets d)(ratchet_path (in_sender_did i) := Some st)\<rparr>) d1 \<and> ok st"
    and r: "dv_ratchets d = rts"
  obtains c st where "ok st" "c \<in> set (contacts_of (snd (receive_handshake E i q d)))" "ct_did c = in_sender_did i"
    "ct_status c = Active" "ct_ratchet_capable c" "ct_peer_pubkeys c = Some keys" "ct_their_inbound_queue c = Some queue"
    "dv_ratchets (snd (receive_handshake E i q d)) =
       rts(ratchet_path (in_sender_did i) := Some st, ratchet_path (pending_did q) := None)"
proof -
  let ?nq = "bytes_to_hex (en_rand E (dv_tick d) 32)" and ?np = "bytes_to_hex (en_rand E (Suc (dv_tick d)) 16)"
  let ?name = "str_or [] (j_get_str ''name'' (in_body i))" and ?ticket = "str_or [] (j_get_str ''node_ticket'' (in_body i))"
  define c where "c = promoted_contact i queue keys ?name ?ticket ?nq ?np c0"
  obtain d1 st where d1: "bootstrap_responder_ratchet E c (pending_did q) (bootstrap_json rb) (in_sender_did i)
      (d\<lparr>dv_tick := Suc (Suc (dv_tick d))\<rparr>) = (Inr True, d1)"
    "files_kept (d\<lparr>dv_tick := Suc (Suc (dv_tick d)), dv_ratchets := rts(ratchet_path (in_sender_did i) := Some st)\<rparr>) d1" "ok st"
    using rs [of "d\<lparr>dv_tick := Suc (Suc (dv_tick d))\<rparr>" c] r by (auto simp: c_def promoted_via)
  have q: "ct_my_inbound_queue c0 = Some q" using c0(1) by (auto simp: find_Some_iff pending_on_def)
  let ?l = "sort_contacts (remove_first (pending_on q) (contacts_of d) @ [c\<lparr>ct_ratchet_capable := True\<rparr>])"
  let ?d3 = "d1\<lparr>dv_contacts := Some ?l, dv_ratchets := (dv_ratchets d1)(ratchet_path (pending_did q) := None)\<rparr>"
  define rest where "rest = bindD (getD dv_session) (\<lambda>s. if s = None then retD () else
       bindD (liftD (case signing_identity (ct_mode (c\<lparr>ct_ratchet_capable := True\<rparr>)) (ct_anon_identity (c\<lparr>ct_ratchet_capable := True\<rparr>)) [] [] of Inl _ \<Rightarrow> Inr False | Inr _ \<Rightarrow> Inr True)) (\<lambda>can_sign.
       if \<not> can_sign then retD () else
       bindD (send_welcome E queue keys ?nq (ct_mode (c\<lparr>ct_ratchet_capable := True\<rparr>)) (ct_anon_identity (c\<lparr>ct_ratchet_capable := True\<rparr>))
          (if ?ticket \<noteq> [] then [?ticket] else [])) (\<lambda>_.
       case ct_my_inbound_queue c0 of
         Some old \<Rightarrow> bindD (forget_topic E (topic_of old)) (\<lambda>_. purge_topicD E (topic_of old))
       | None \<Rightarrow> retD ())))"
  have body: "j_get_str ''my_inbound_queue'' (in_body i) = Some queue"
      "Option.bind (j_get ''pubkeys'' (in_body i)) peer_keys_of = Some keys" "j_get ''ratchet'' (in_body i) = Some (bootstrap_json rb)"
    unfolding i by (rule handshake_fields)+
  have d: "random_hex E 32 d = (Inr ?nq, d\<lparr>dv_tick := Suc (dv_tick d)\<rparr>)"
      "random_hex E 16 (d\<lparr>dv_tick := Suc (dv_tick d)\<rparr>) = (Inr ?np, d\<lparr>dv_tick := Suc (Suc (dv_tick d))\<rparr>)"
    by (simp_all add: random_hex_def drawD_def callD_def run)
  have "receive_handshake E i q d = rest ?d3"
    unfolding receive_handshake_def Let_def body of_option.simps rest_def c_def
    using d1(1)
    by (simp only: run run_contacts [OF S] c0 option.case d remove_ratchet_runs [OF S] if_True c_def [symmetric]) simp
  moreover have "resp files_kept rest"
    unfolding rest_def by (intro files.resp_quiet)
  ultimately have "files_kept ?d3 (snd (receive_handshake E i q d))" by (simp add: respD)
  then have f: "contacts_of (snd (receive_handshake E i q d)) = ?l"
    "dv_ratchets (snd (receive_handshake E i q d)) = (dv_ratchets d1)(ratchet_path (pending_did q) := None)"
    by (simp_all add: files_kept_def contacts_of_def)
  show thesis
    by (rule that [OF d1(3), of "c\<lparr>ct_ratchet_capable := True\<rparr>"])
      (use f d1(2) in \<open>simp_all add: sort_contacts_set c_def promoted_contact_def files_kept_def\<close>)
qed

section \<open>Property\<close>

text \<open>Draws that do not collide: neither device draws a ratchet key the other drew, nor the prekey.\<close>

definition fresh_draws :: "env \<Rightarrow> env \<Rightarrow> bytes \<Rightarrow> bool" where
  "fresh_draws E E' prekey = (\<forall>t t'. distinct [x_pub (en_prims E) prekey, x_pub (en_prims E) (en_rand E t 32),
     x_pub (en_prims E) (en_rand E' t' 32)])"


section \<open>Witness\<close>

definition bob_env :: env where "bob_env = sample_env\<lparr>en_rand := (\<lambda>_ n. replicate n 100)\<rparr>"
definition alice_env :: env where "alice_env = sample_env\<lparr>en_rand := (\<lambda>_ n. replicate n 200)\<rparr>"

definition alice_waits :: device where
  "alice_waits = sample_device\<lparr>dv_contacts := Some [pending_contact ''Bo'' ''q9'' 1 ''r'' ''s'' Regular None],
     dv_ratchets := (\<lambda>p. if p = ratchet_path (pending_did ''q9'') then Some (prekey_state (replicate 32 9) (replicate 32 9)) else None)\<rparr>"

definition sample_invite :: invite_link where
  "sample_invite = \<lparr>il_v = 2, il_queue = ''q9'', il_did = alice_did, il_name = ''Al'',
     il_keys = keys_of_seed (sample_prims 64) (replicate 32 0) [], il_nonce = [], il_expires_at = 9,
     il_ratchet = Some (b64_enc (sample_prims 64) (replicate 32 9)), il_node_ticket = None\<rparr>"

definition bob_block :: ratchet_bootstrap where
  "bob_block = (case bootstrap_initiator bob_env sample_invite (b64_enc (sample_prims 64) (replicate 32 9)) sample_device of
     (Inr (b, _), _) \<Rightarrow> b)"

definition bob_handshake :: inner_payload where
  "bob_handshake = \<lparr>in_kind = KIND_HANDSHAKE, in_sender_did = ''did:key:zB'', in_ts = 3,
     in_body = handshake_body ''qb'' ''Bob'' \<lparr>pk_x25519 = ''x'', pk_ml_kem = ''k''\<rparr> (Some bob_block) None, in_sig = [], in_rh = None\<rparr>"


end
