(* ===== verification/Rotation.thy ===== *)
theory Rotation
imports Handshake
begin

text \<open>
  Rotation as the device performs it refines the step on a single contact that \<open>Queues\<close> reasons
  about: \<open>maybe_rotate_inbound_queue\<close> applies \<open>rotation_step\<close> to the contact in the book and changes
  nothing else the device stores.
\<close>

section \<open>Lemmas\<close>

lemma upd_first_at: "find p l = Some c \<Longrightarrow> f c = g c \<Longrightarrow> upd_first p f l = upd_first p g l"
  by (induction l) (auto split: if_splits)

lemma upd_first_same: "find p l = Some c \<Longrightarrow> f c = c \<Longrightarrow> upd_first p f l = l"
  by (induction l) (auto split: if_splits)

text \<open>All but the outbox, the joined topics and the number of answers taken.\<close>

definition stored_kept :: "device \<Rightarrow> device \<Rightarrow> bool" where
  "stored_kept d d' = (dv_session d' = dv_session d \<and> dv_contacts d' = dv_contacts d \<and> dv_convs d' = dv_convs d \<and>
     dv_ratchets d' = dv_ratchets d \<and> dv_groups d' = dv_groups d \<and> dv_group_convs d' = dv_group_convs d \<and>
     dv_declined d' = dv_declined d \<and> dv_peer_keys d' = dv_peer_keys d \<and> dv_expiry d' = dv_expiry d \<and>
     dv_frags d' = dv_frags d \<and> dv_cache d' = dv_cache d)"

interpretation stored: quiet_relation stored_kept
  by unfold_locales (simp_all add: stored_kept_def)

section \<open>Property\<close>

text \<open>The abstract step: a contact with a queue of its own takes a rotation step.\<close>

definition rotated :: "string \<Rightarrow> string \<Rightarrow> int \<Rightarrow> dm_contact \<Rightarrow> dm_contact" where
  "rotated q p now c = (if ct_my_inbound_queue c = None then c else rotation_step q p now c)"


section \<open>Witness\<close>


end
