(* ===== verification/Ratchet_Types.thy ===== *)
theory Ratchet_Types
imports Ratchet
begin

text \<open>
  A type for ratchet states: every key field is the hex text of 32 bytes, counters fit 32 bits,
  a receiving chain comes with the key that opened it. Both initialisations establish it, both steps keep
  it, and in a well-typed state a step fails only for a reason that lies in the message.
\<close>

section \<open>Outcomes\<close>

text \<open>A result that satisfies \<open>Q\<close> or is one of the errors \<open>es\<close>.\<close>

definition outcome :: "('a \<Rightarrow> bool) \<Rightarrow> string list \<Rightarrow> 'a res \<Rightarrow> bool" where
  "outcome Q es r = (case r of Inr x \<Rightarrow> Q x | Inl e \<Rightarrow> e \<in> Error ` set es)"

lemma outcome_simps [simp]: "outcome Q es (Inr x) = Q x" "outcome Q es (Inl e) = (e \<in> Error ` set es)"
  by (simp_all add: outcome_def)

lemma outcome_bind: "outcome Q es m \<Longrightarrow> (\<And>x. m = Inr x \<Longrightarrow> Q x \<Longrightarrow> outcome Q' es (f x)) \<Longrightarrow> outcome Q' es (bindR m f)"
  by (cases m) auto

lemma outcome_weaken: "outcome Q es r \<Longrightarrow> set es \<subseteq> set es' \<Longrightarrow> (\<And>x. Q x \<Longrightarrow> Q' x) \<Longrightarrow> outcome Q' es' r"
  by (cases r) auto

section \<open>Typed states\<close>

definition key_hex :: "string \<Rightarrow> bool" where
  "key_hex s = is_ok (b32 s)"

definition opt_key :: "string option \<Rightarrow> bool" where
  "opt_key s = (case s of Some k \<Rightarrow> key_hex k | None \<Rightarrow> True)"

definition ratchet_typed :: "ratchet_state \<Rightarrow> bool" where
  "ratchet_typed st = (key_hex (rs_rk st) \<and> key_hex (rs_dhs_priv st) \<and> key_hex (rs_dhs_pub st) \<and>
     opt_key (rs_cks st) \<and> opt_key (rs_ckr st) \<and> opt_key (rs_dhr_pub st) \<and> (rs_ckr st \<noteq> None \<longrightarrow> rs_dhr_pub st \<noteq> None) \<and>
     rs_ns st < 2 ^ 32 \<and> rs_nr st < 2 ^ 32 \<and> rs_pn st < 2 ^ 32 \<and>
     list_all (\<lambda>e. key_hex (sk_mk e) \<and> sk_n e < 2 ^ 32) (rs_skipped st))"

lemma key_hex_hx [simp]: "length b = 32 \<Longrightarrow> key_hex (hx b)"
  by (simp add: key_hex_def)

lemma key_hexE: "key_hex s \<Longrightarrow> (\<And>b. b32 s = Inr b \<Longrightarrow> length b = 32 \<Longrightarrow> thesis) \<Longrightarrow> thesis"
  by (auto simp: key_hex_def is_ok_iff)

lemma opt_key_simps [simp]: "opt_key None" "opt_key (Some k) = key_hex k"
  by (simp_all add: opt_key_def)

lemma lengths [simp]: "prims_ok P \<Longrightarrow> length (x_pub P a) = 32"
    "prims_ok P \<Longrightarrow> length (fst (root_step P rk d ss)) = 32 \<and> length (snd (root_step P rk d ss)) = 32"
  by (auto simp: prim_laws root_step_def split: option.split)

section \<open>Steps\<close>

definition SKIP_ERRORS :: "string list" where
  "SKIP_ERRORS = [''ratchet: would skip past MAX_SKIP'', ''ratchet: combined skip exceeds MAX_SKIP'']"

definition KEM_ERRORS :: "string list" where
  "KEM_ERRORS = [''hybrid turn but we hold no rolling KEM private'', ''rolling kem_ct b64'', ''rolling kem_priv b64'',
     ''ml-kem decapsulation key wrong size'', ''ml-kem ciphertext wrong size'', ''peer_kem_pub b64'',
     ''ml-kem encapsulation key wrong size'', ''ratchet: hybrid contact received a classical turn (downgrade refused)'']"

lemma skip_loop_typed:
  assumes "prims_ok P"
  shows "length ck = 32 \<Longrightarrow> nr + k \<le> 2 ^ 32 \<Longrightarrow> list_all (\<lambda>e. key_hex (sk_mk e) \<and> sk_n e < 2 ^ 32) (fst (skip_loop P now d k nr ck)) \<and>
    length (snd (skip_loop P now d k nr ck)) = 32"
proof (induction k arbitrary: nr ck)
  case (Suc k)
  have "length (fst (kdf_ck P ck)) = 32" "length (snd (kdf_ck P ck)) = 32" using assms by simp_all
  then show ?case using Suc.IH [of "snd (kdf_ck P ck)" "nr + 1"] Suc.prems by (simp add: Let_def case_prod_beta)
qed simp

lemma skip_typed:
  assumes "prims_ok P" "ratchet_typed st" "stop < 2 ^ 32"
  shows "outcome (\<lambda>st'. ratchet_typed st' \<and> (rs_ckr st' = None \<longleftrightarrow> rs_ckr st = None) \<and> (rs_ckr st = None \<or> stop \<le> rs_nr st'))
    SKIP_ERRORS (skip_message_keys P now st stop)"
proof (cases "rs_ckr st")
  case None
  then show ?thesis using assms(2) by (simp add: skip_message_keys_def SKIP_ERRORS_def)
next
  case (Some ckr)
  then obtain dhr where d: "rs_dhr_pub st = Some dhr" "key_hex ckr" using assms(2) by (auto simp: ratchet_typed_def)
  then obtain ck where ck: "b32 ckr = Inr ck" "length ck = 32" by (auto elim: key_hexE)
  have "rs_nr st + (stop - rs_nr st) \<le> 2 ^ 32"
    using assms(2,3) by (cases "stop \<le> rs_nr st") (simp_all add: ratchet_typed_def)
  from skip_loop_typed [OF assms(1) ck(2) this, of now dhr] show ?thesis
    using assms(2,3) Some d ck
    by (auto simp: skip_message_keys_def SKIP_ERRORS_def case_prod_beta Let_def evict_skipped_def ratchet_typed_def list_all_iff
        dest: in_set_dropD)
qed

lemma send_typed:
  assumes "prims_ok P" "ratchet_typed st" "rs_cks st \<noteq> None"
  shows "outcome (\<lambda>(mk, h, st'). length mk = 32 \<and> ratchet_typed st' \<and> rs_cks st' \<noteq> None \<and> h_n h < 2 ^ 32 \<and> h_pn h < 2 ^ 32)
    [] (ratchet_step_send P st)"
proof -
  obtain s where s: "rs_cks st = Some s" "key_hex s" using assms(2,3) by (auto simp: ratchet_typed_def)
  obtain ck where ck: "b32 s = Inr ck" "length ck = 32" using s(2) by (rule key_hexE)
  obtain dhs where d: "b32 (rs_dhs_pub st) = Inr dhs" using assms(2) by (auto simp: ratchet_typed_def elim: key_hexE)
  show ?thesis using assms(1,2) s(1) ck d by (simp add: ratchet_step_send_def case_prod_beta Let_def ratchet_typed_def)
qed

lemma turn_secret_outcome: "outcome (\<lambda>_. True) KEM_ERRORS (turn_kem_secret P st kct)"
proof (cases kct)
  case (Some ct)
  then show ?thesis
    by (cases "rs_kem_priv st"; cases "b64_dec P ct"; cases "b64_dec P (the (rs_kem_priv st))")
      (auto simp: turn_kem_secret_def ml_kem_decapsulate_local_def KEM_ERRORS_def)
qed (auto simp: turn_kem_secret_def KEM_ERRORS_def)

lemma dh_ratchet_typed:
  assumes P: "prims_ok P" and st: "ratchet_typed st" and l: "length (tr_dh R) = 32" "length dh_pub = 32"
  shows "outcome (\<lambda>st'. ratchet_typed st' \<and> rs_cks st' \<noteq> None \<and> rs_ckr st' \<noteq> None \<and> rs_nr st' = 0) KEM_ERRORS (dh_ratchet P R st dh_pub ss)"
proof -
  obtain p where p: "b32 (rs_dhs_priv st) = Inr p" using st by (auto simp: ratchet_typed_def elim: key_hexE)
  obtain r where r: "b32 (rs_rk st) = Inr r" using st by (auto simp: ratchet_typed_def elim: key_hexE)
  show ?thesis
  proof (cases "rs_peer_kem_pub st")
    case None
    then show ?thesis using P st l p r
      by (simp add: dh_ratchet_def case_prod_beta Let_def ratchet_keypair_def ratchet_typed_def)
  next
    case (Some k)
    then show ?thesis using P st l p r
      by (cases "b64_dec P k")
        (auto simp: dh_ratchet_def case_prod_beta Let_def ratchet_keypair_def ratchet_typed_def KEM_ERRORS_def
          ml_kem_encapsulate_local_def)
  qed
qed

lemma recv_turn_typed:
  assumes P: "prims_ok P" and st: "ratchet_typed st" and l: "length (tr_dh R) = 32" "length dh_pub = 32" "pn < 2 ^ 32"
  shows "outcome (\<lambda>st'. ratchet_typed st' \<and> rs_cks st' \<noteq> None \<and> rs_ckr st' \<noteq> None \<and> rs_nr st' = 0) (SKIP_ERRORS @ KEM_ERRORS)
    (recv_turn P R now st dh_pub pn kct kpub)"
proof -
  have st1: "ratchet_typed (case kpub of Some kp \<Rightarrow> st\<lparr>rs_peer_kem_pub := Some kp\<rparr> | None \<Rightarrow> st)"
    using st by (cases kpub) (simp_all add: ratchet_typed_def)
  show ?thesis unfolding recv_turn_def Let_def
    by (rule outcome_bind [OF outcome_weaken [OF turn_secret_outcome]])
      (auto intro!: outcome_bind [OF outcome_weaken [OF skip_typed [OF P st1 l(3)]]] outcome_weaken [OF dh_ratchet_typed [OF P _ l(1,2)]])
qed

lemma recv_chain_typed:
  assumes P: "prims_ok P" and st: "ratchet_typed st" "n < 2 ^ 32"
  shows "outcome (\<lambda>(mk, st'). length mk = 32 \<and> ratchet_typed st') (''ratchet has no receiving chain'' # SKIP_ERRORS) (recv_chain P now st n)"
  unfolding recv_chain_def
proof (rule outcome_bind [OF outcome_weaken [OF skip_typed [OF P st]]])
  fix st1 assume t: "ratchet_typed st1 \<and> (rs_ckr st1 = None \<longleftrightarrow> rs_ckr st = None) \<and> (rs_ckr st = None \<or> n \<le> rs_nr st1)"
  show "outcome (\<lambda>(mk, st'). length mk = 32 \<and> ratchet_typed st') (''ratchet has no receiving chain'' # SKIP_ERRORS)
     (bindR (of_option ''ratchet has no receiving chain'' (rs_ckr st1)) (\<lambda>ckr. bindR (b32 ckr) (\<lambda>ck.
       let (mk, ckr_next) = kdf_ck P ck in
       Inr (mk, st1\<lparr>rs_ckr := Some (hx ckr_next), rs_nr := (rs_nr st1 + 1) mod 2 ^ 32\<rparr>))))"
  proof (cases "rs_ckr st1")
    case (Some s)
    then have "key_hex s" using t by (simp add: ratchet_typed_def)
    then obtain ck where "b32 s = Inr ck" "length ck = 32" by (rule key_hexE)
    then show ?thesis using P t Some by (simp add: case_prod_beta Let_def ratchet_typed_def)
  qed simp
qed auto

lemma take_skipped_set: "take_skipped d n ks = Some (k, r) \<Longrightarrow> k \<in> set ks \<and> set r \<subseteq> set ks"
  by (induction ks arbitrary: r) (auto split: if_splits)

lemma try_skipped_typed:
  assumes "ratchet_typed st"
  shows "outcome (\<lambda>(found, st0). ratchet_typed st0 \<and> (\<forall>mk. found = Some mk \<longrightarrow> length mk = 32)) [] (try_skipped st d n)"
proof (cases "take_skipped d n (rs_skipped st)")
  case None
  then show ?thesis using assms by (simp add: try_skipped_def)
next
  case (Some kr)
  obtain k r where kr: "kr = (k, r)" by force
  have s: "k \<in> set (rs_skipped st)" "set r \<subseteq> set (rs_skipped st)" using take_skipped_set Some kr by blast+
  then have "key_hex (sk_mk k)" using assms by (simp add: ratchet_typed_def list_all_iff)
  then obtain b where "b32 (sk_mk k) = Inr b" "length b = 32" by (rule key_hexE)
  moreover have "list_all (\<lambda>e. key_hex (sk_mk e) \<and> sk_n e < 2 ^ 32) r"
    using assms s(2) unfolding ratchet_typed_def list_all_iff by blast
  ultimately show ?thesis using assms Some kr by (simp add: try_skipped_def ratchet_typed_def)
qed

section \<open>Both steps\<close>

definition RECV_ERRORS :: "string list" where
  "RECV_ERRORS = ''ratchet has no receiving chain'' # SKIP_ERRORS @ KEM_ERRORS"

lemma typed_steps:
  assumes "prims_ok P" "ratchet_typed st" "length (tr_dh R) = 32" "length dh_pub = 32" "pn < 2 ^ 32" "n < 2 ^ 32"
  shows "(rs_cks st \<noteq> None \<longrightarrow> (\<exists>mk h st'. ratchet_step_send P st = Inr (mk, h, st') \<and> length mk = 32 \<and> ratchet_typed st')) \<and>
    (case ratchet_step_recv P R now st dh_hex dh_pub pn n kct kpub of
       Inr (mk, st') \<Rightarrow> length mk = 32 \<and> ratchet_typed st'
     | Inl e \<Rightarrow> e \<in> Error ` set RECV_ERRORS)"
proof
  show "rs_cks st \<noteq> None \<longrightarrow> (\<exists>mk h st'. ratchet_step_send P st = Inr (mk, h, st') \<and> length mk = 32 \<and> ratchet_typed st')"
    using send_typed [OF assms(1,2)] by (cases "ratchet_step_send P st"; cases "rs_cks st") auto
  have "outcome (\<lambda>(mk, st'). length mk = 32 \<and> ratchet_typed st') RECV_ERRORS (ratchet_step_recv P R now st dh_hex dh_pub pn n kct kpub)"
    unfolding ratchet_step_recv_def
  proof (rule outcome_bind [OF outcome_weaken [OF try_skipped_typed [OF assms(2)]]])
    fix fs :: "bytes option \<times> ratchet_state" assume "case fs of (found, st0) \<Rightarrow> ratchet_typed st0 \<and> (\<forall>mk. found = Some mk \<longrightarrow> length mk = 32)"
    then obtain found st0 where fs: "fs = (found, st0)" "ratchet_typed st0" "\<And>mk. found = Some mk \<Longrightarrow> length mk = 32"
      by (cases fs) auto
    have "outcome ratchet_typed RECV_ERRORS
        (if new_epoch st0 dh_hex then recv_turn P R now st0 dh_pub pn kct kpub else Inr st0)"
      using fs(2) recv_turn_typed [OF assms(1) fs(2) assms(3-5), of now kct kpub]
      by (auto simp: RECV_ERRORS_def intro: outcome_weaken)
    then have "outcome (\<lambda>(mk, st'). length mk = 32 \<and> ratchet_typed st') RECV_ERRORS
        (bindR (if new_epoch st0 dh_hex then recv_turn P R now st0 dh_pub pn kct kpub else Inr st0) (\<lambda>st1. recv_chain P now st1 n))"
      by (rule outcome_bind) (rule outcome_weaken [OF recv_chain_typed [OF assms(1) _ assms(6)]]; auto simp: RECV_ERRORS_def)
    then show "outcome (\<lambda>(mk, st'). length mk = 32 \<and> ratchet_typed st') RECV_ERRORS
       (case fs of (found, st0) \<Rightarrow> (case found of Some mk \<Rightarrow> Inr (mk, st0)
        | None \<Rightarrow> if total_skip st0 dh_hex pn n > MAX_SKIP then Inl (Error ''ratchet: combined skip exceeds MAX_SKIP'')
            else bindR (if new_epoch st0 dh_hex then recv_turn P R now st0 dh_pub pn kct kpub else Inr st0) (\<lambda>st1. recv_chain P now st1 n)))"
      using fs by (cases found) (simp_all add: RECV_ERRORS_def SKIP_ERRORS_def)
  qed simp_all
  then show "case ratchet_step_recv P R now st dh_hex dh_pub pn n kct kpub of
       Inr (mk, st') \<Rightarrow> length mk = 32 \<and> ratchet_typed st' | Inl e \<Rightarrow> e \<in> Error ` set RECV_ERRORS"
    by (simp add: outcome_def split: sum.splits)
qed

section \<open>Runs\<close>

inductive ratchet_started :: "prims \<Rightarrow> ratchet_state \<Rightarrow> bool" for P where
  initiator: "length sk = 32 \<Longrightarrow> length pub = 32 \<Longrightarrow> length (tr_dh R) = 32 \<Longrightarrow> ratchet_started P (ratchet_init_initiator P R sk pub)"
| responder: "length sk = 32 \<Longrightarrow> length priv = 32 \<Longrightarrow> length pub = 32 \<Longrightarrow> length (tr_dh R) = 32 \<Longrightarrow> length dh_pub = 32 \<Longrightarrow>
    ratchet_init_responder P gen0 R sk priv pub dh_pub kem = Inr st \<Longrightarrow> ratchet_started P st"

inductive ratchet_move :: "prims \<Rightarrow> ratchet_state \<Rightarrow> ratchet_state \<Rightarrow> bool" for P where
  sends: "ratchet_step_send P st = Inr (mk, h, st') \<Longrightarrow> ratchet_move P st st'"
| receives: "length (tr_dh R) = 32 \<Longrightarrow> length dh_pub = 32 \<Longrightarrow> pn < 2 ^ 32 \<Longrightarrow> n < 2 ^ 32 \<Longrightarrow>
    ratchet_step_recv P R now st dh_hex dh_pub pn n kct kpub = Inr (mk, st') \<Longrightarrow> ratchet_move P st st'"

lemma started_typed:
  assumes P: "prims_ok P" and s: "ratchet_started P st"
  shows "ratchet_typed st"
  using s
proof cases
  case (initiator sk pub R)
  then show ?thesis using P
    by (simp add: ratchet_init_initiator_def ratchet_keypair_def case_prod_beta Let_def ratchet_typed_def)
next
  case (responder sk priv pub R dh_pub gen0 kem)
  define st0 where "st0 = \<lparr>rs_rk = hx sk, rs_cks = None, rs_ckr = None, rs_dhs_priv = hx priv, rs_dhs_pub = hx pub,
     rs_dhr_pub = None, rs_ns = 0, rs_nr = 0, rs_pn = 0, rs_skipped = [], rs_kem_priv = Some (b64_enc P (fst (kem_gen P gen0))),
     rs_kem_pub = Some (b64_enc P (snd (kem_gen P gen0))), rs_peer_kem_pub = map_option (b64_enc P) kem, rs_send_kem_ct = None\<rparr>"
  have "ratchet_typed st0" using responder(1-3) by (simp add: st0_def ratchet_typed_def)
  from dh_ratchet_typed [OF P this responder(4,5), of None] responder(6) show ?thesis
    by (simp add: ratchet_init_responder_def case_prod_beta Let_def st0_def)
qed

definition typed_if_ok :: "prims \<Rightarrow> ratchet_state \<Rightarrow> bool" where
  "typed_if_ok P st = (prims_ok P \<longrightarrow> ratchet_typed st)"

interpretation typed: invariant_system "typed_if_ok P" "ratchet_move P" for P
proof
  fix s t assume s: "typed_if_ok P s" and m: "ratchet_move P s t"
  show "typed_if_ok P t" unfolding typed_if_ok_def
  proof
    assume P: "prims_ok P"
    then have st: "ratchet_typed s" using s by (simp add: typed_if_ok_def)
    from m show "ratchet_typed t"
    proof cases
      case (sends mk h)
      then have "rs_cks s \<noteq> None" by (auto simp: ratchet_step_send_def res_inv)
      then show ?thesis using send_typed [OF P st] sends by simp
    next
      case (receives R dh_pub pn n now dh_hex kct kpub mk)
      then show ?thesis using typed_steps [OF P st receives(1-4), of now dh_hex kct kpub] by simp
    qed
  qed
qed

section \<open>Property\<close>

text \<open>C28. Ratchet states are well typed for good: in whatever state a ratchet is, after it was set up
  by either side and sent and received whatever headers, every key field is the hex text of 32 bytes and every counter fits
  32 bits; the device can send when it has a sending chain; and a receipt gives a message key
  of 32 bytes or fails with an error that the message or the lack of a receiving chain
  explains: never a panic, and never an error about the encoding of the state itself.\<close>

theorem ratchet_type_safety:
  assumes "prims_ok P" "ratchet_started P st0" "(ratchet_move P)\<^sup>*\<^sup>* st0 st"
    and "length (tr_dh R) = 32" "length dh_pub = 32" "pn < 2 ^ 32" "n < 2 ^ 32"
  shows "ratchet_typed st \<and>
    (rs_cks st \<noteq> None \<longrightarrow> (\<exists>mk h st'. ratchet_step_send P st = Inr (mk, h, st') \<and> length mk = 32)) \<and>
    (case ratchet_step_recv P R now st dh_hex dh_pub pn n kct kpub of
       Inr (mk, st') \<Rightarrow> length mk = 32 | Inl e \<Rightarrow> e \<in> Error ` set RECV_ERRORS)"
proof -
  have t: "ratchet_typed st"
    using typed.run_inv [OF assms(3)] started_typed [OF assms(1,2)] assms(1) by (simp add: typed_if_ok_def)
  show ?thesis
    using t typed_steps [OF assms(1) t assms(4-7), of now dh_hex kct kpub] by (auto split: sum.splits)
qed

section \<open>Witness\<close>

theorem ratchet_type_safety_witness:
  "ratchet_typed (ratchet_init_initiator (sample_prims 64) \<lparr>tr_dh = replicate 32 1, tr_encaps = [], tr_gen = []\<rparr> (replicate 32 2) (replicate 32 3))"
proof -
  let ?st = "ratchet_init_initiator (sample_prims 64) \<lparr>tr_dh = replicate 32 1, tr_encaps = [], tr_gen = []\<rparr> (replicate 32 2) (replicate 32 3)"
  have "ratchet_started (sample_prims 64) ?st" by (rule ratchet_started.initiator) simp_all
  then show ?thesis
    using ratchet_type_safety [of "sample_prims 64" "?st" "?st" "\<lparr>tr_dh = replicate 32 1, tr_encaps = [], tr_gen = []\<rparr>" "replicate 32 0" 0 0]
      sample_prims_ok [of 64] by simp
qed

end
