(* ===== verification/Invite_Life.thy ===== *)
theory Invite_Life
imports Handshake Anonymity
begin

text \<open>
  The life of an invite link: minted, it is read back by whoever pastes it for 24 hours and
  refused afterwards; revoked, it leaves nothing a late handshake could act on.
\<close>

section \<open>Trimming\<close>

definition plain :: "string \<Rightarrow> bool" where
  "plain s = list_all (\<lambda>c. 33 \<le> (of_char c :: nat) \<and> (of_char c :: nat) \<le> 126) s"

lemma strip_one_plain:
  assumes "plain s" "list_all (\<lambda>p. case p of [] \<Rightarrow> False | c # _ \<Rightarrow> \<not> (33 \<le> (of_char c :: nat) \<and> (of_char c :: nat) \<le> 126)) pats"
  shows "strip_one pats s = None"
proof -
  have "take (length p) s \<noteq> p" if p: "p \<in> set pats" for p
  proof (cases p)
    case Nil
    then show ?thesis using assms(2) p by (auto simp: list_all_iff)
  next
    case (Cons c r)
    then have "\<not> (33 \<le> (of_char c :: nat) \<and> (of_char c :: nat) \<le> 126)" using assms(2) p by (auto simp: list_all_iff)
    then show ?thesis using assms(1) Cons by (cases s) (auto simp: plain_def)
  qed
  then have "filter (\<lambda>p. take (length p) s = p) pats = []" by (simp add: filter_empty_conv)
  then show ?thesis by (simp add: strip_one_def)
qed

lemma trim_plain: "plain s \<Longrightarrow> trim s = s"
proof -
  assume s: "plain s"
  have r: "plain (rev s)" using s by (simp add: plain_def list_all_iff)
  have "strip_one white_space s = None" "strip_one (map rev white_space) (rev s) = None"
    using strip_one_plain [OF s] strip_one_plain [OF r] by (simp_all add: white_space_def utf8_def)
  then show ?thesis by (simp add: trim_def trim_by.simps)
qed

section \<open>Reading a link back\<close>

text \<open>The base64 codec of URLs: a round trip, over letters, digits, \<open>-\<close> and \<open>_\<close>.\<close>

definition b64url_ok :: "env \<Rightarrow> bool" where
  "b64url_ok E = (\<forall>b. en_b64url_dec E (en_b64url_enc E b) = Some b \<and> plain (en_b64url_enc E b))"

definition invite_fits :: "invite_link \<Rightarrow> bool" where
  "invite_fits i = (il_v i < 2 ^ 8 \<and> - (2 ^ 63) \<le> il_expires_at i \<and> il_expires_at i < 2 ^ 63)"

lemma opt_of_prekey: "opt_of prekey_of (Some (prekey_json k)) = Some (Some k)"
  by (simp add: prekey_json_def prekey_of_def wire_simps)

lemma invite_of_json [simp]: "invite_fits i \<Longrightarrow> invite_of (invite_json i) = Some i"
  by (cases "il_ratchet i"; cases "il_node_ticket i")
    (simp_all add: invite_of_def invite_json_def invite_fits_def opt_of_prekey wire_simps)

lemma invite_js_ok: "js_ok (invite_json i)"
  by (cases "il_ratchet i"; cases "il_node_ticket i") (simp_all add: invite_json_def opt_member_def peer_keys_json_def prekey_json_def)

lemma plain_append [simp]: "plain (s @ t) \<longleftrightarrow> plain s \<and> plain t"
  by (simp add: plain_def)

lemma decode_link:
  assumes "json_codec (en_text E) (en_parse E)" "b64url_ok E" "invite_fits i"
  shows "decode_invite_link E now (''hey-invite:'' @ encode_invite_link E i) =
    (if il_v i \<noteq> INVITE_LINK_VERSION \<and> il_v i \<noteq> 1 then Inl (Error ''unsupported invite link version'')
     else if \<not> starts_with (il_did i) ''did:key:z'' then Inl (Error ''invite did is not a did:key'')
     else if length (il_queue i) \<noteq> 64 then Inl (Error ''invite queue is not 256-bit hex'')
     else if il_expires_at i > 0 \<and> il_expires_at i < now then Inl (Error ''invite link has expired'')
     else Inr i)"
proof -
  have p: "plain (encode_invite_link E i)" using assms(2) by (simp add: encode_invite_link_def b64url_ok_def)
  moreover have "plain ''hey-invite:''" by (simp add: plain_def)
  ultimately have "plain (''hey-invite:'' @ encode_invite_link E i)" unfolding plain_append by blast
  then have t: "trim (''hey-invite:'' @ encode_invite_link E i) = ''hey-invite:'' @ encode_invite_link E i" by (rule trim_plain)
  have s: "strip_prefix ''hey-invite:'' (''hey-invite:'' @ encode_invite_link E i) = Some (encode_invite_link E i)"
    unfolding strip_prefix_iff by simp
  have d: "en_b64url_dec E (encode_invite_link E i) = Some (as_bytes (en_text E (invite_json i)))"
    using assms(2) by (simp add: encode_invite_link_def b64url_ok_def)
  have j: "en_parse E (en_text E (invite_json i)) = Some (invite_json i)"
    using assms(1) invite_js_ok by (simp add: json_codec_def)
  show ?thesis
    unfolding decode_invite_link_def Let_def t s option.case trim_plain [OF p] d
    using assms(3) j by simp
qed

section \<open>Minting\<close>

text \<open>No queue drawn is one a contact already has, or is named after.\<close>

definition fresh_queues :: "env \<Rightarrow> device \<Rightarrow> bool" where
  "fresh_queues E d = (\<forall>c \<in> set (contacts_of d). \<forall>t. ct_my_inbound_queue c \<noteq> Some (bytes_to_hex (en_rand E t 32)) \<and>
     ct_did c \<noteq> pending_did (bytes_to_hex (en_rand E t 32)) \<and> ct_did c \<noteq> bytes_to_hex (en_rand E t 32))"

definition quiet_carrier :: "env \<Rightarrow> bool" where
  "quiet_carrier E = ((\<forall>k t. \<not> is_panic (en_join E k t)) \<and> (\<forall>k. \<not> is_panic (en_ticket E k)))"

lemma my_ticket_runs: "quiet_carrier E \<Longrightarrow> \<exists>t. my_ticket E d = (Inr t, d\<lparr>dv_tick := Suc (dv_tick d)\<rparr>)"
  by (auto simp: my_ticket_def okD_call quiet_carrier_def run)

lemma tryD_call: "\<not> is_panic (f (dv_tick d)) \<Longrightarrow> tryD (callD f) d = (Inr (f (dv_tick d)), d\<lparr>dv_tick := Suc (dv_tick d)\<rparr>)"
  by (auto simp: tryD_def callD_def split: sum.split fault.split)

lemma join_alone_runs: "quiet_carrier E \<Longrightarrow> ignoreD (join_topic_with E topic []) d = (Inr (), d\<lparr>dv_tick := Suc (dv_tick d)\<rparr>)"
proof -
  assume q: "quiet_carrier E"
  define r where "r = en_join E (dv_tick d) topic"
  have r: "tryD (callD (\<lambda>k. en_join E k topic)) d = (Inr r, d\<lparr>dv_tick := Suc (dv_tick d)\<rparr>)" "\<not> is_panic r"
    using q tryD_call [of "\<lambda>k. en_join E k topic" d] by (simp_all add: quiet_carrier_def r_def)
  then have "join_topic_with E topic [] d = (r, d\<lparr>dv_tick := Suc (dv_tick d)\<rparr>)"
    by (simp add: join_topic_with_def run)
  then show ?thesis using r(2) by (cases r) (auto simp: ignoreD_def okD_def bindD_def retD_def split: fault.split)
qed

lemma mint_runs:
  assumes "env_ok E"
  shows "\<exists>anon k. mint_for_mode E mode d = (Inr anon, d\<lparr>dv_tick := k\<rparr>) \<and>
    (case mode of Regular \<Rightarrow> anon = None | Anonymous \<Rightarrow> \<exists>a seed. anon = Some a \<and> an_did a = did_of_seed (en_prims E) seed \<and>
       length seed = 32 \<and> an_seed_hex a = bytes_to_hex seed)"
proof (cases mode)
  case Regular
  then show ?thesis by (intro exI [of _ None] exI [of _ "dv_tick d"]) (simp add: mint_for_mode_def run)
next
  case Anonymous
  obtain sk pk where g: "kem_gen (en_prims E) (en_rand E (Suc (dv_tick d)) 64) = (sk, pk)" by force
  have "length (en_rand E (dv_tick d) 32) = 32" using assms by (simp add: env_ok_def)
  with Anonymous g show ?thesis
    by (intro exI [of _ "Some \<lparr>an_seed_hex = bytes_to_hex (en_rand E (dv_tick d) 32), an_kem_secret = b64_enc (en_prims E) sk,
           an_kem_public = b64_enc (en_prims E) pk, an_did = did_of_seed (en_prims E) (en_rand E (dv_tick d) 32)\<rparr>"]
        exI [of _ "Suc (Suc (dv_tick d))"])
      (force simp: mint_for_mode_def mint_anon_identity_def drawD_def callD_def run did_of_seed_def)
qed

lemma generate_runs:
  assumes E: "env_ok E" "storage_ok E" "quiet_carrier E" "fresh_queues E d"
    and s: "dv_session d = Some s" "starts_with (ss_did_key s) ''did:key:z''" "my_pubkeys E d = (Inr (Some keys), d1)"
  obtains invite c d' t where "generate_invite E label mode d = (Inr (''hey-invite:'' @ encode_invite_link E invite), d')"
    "il_v invite = INVITE_LINK_VERSION" "starts_with (il_did invite) ''did:key:z''" "length (il_queue invite) = 64"
    "il_expires_at invite = en_now E t + INVITE_TTL_MS" "\<exists>t. il_queue invite = bytes_to_hex (en_rand E t 32)"
    "contacts_of d' = sort_contacts (contacts_of d @ [c])" "ct_my_inbound_queue c = Some (il_queue invite)"
    "ct_status c = PendingInvite" "ct_did c = pending_did (il_queue invite)"
proof -
  have d1: "d1 = d\<lparr>dv_tick := Suc (dv_tick d)\<rparr>" using my_pubkeys_device [OF s(3)] by simp
  obtain anon k where a: "mint_for_mode E mode d1 = (Inr anon, d1\<lparr>dv_tick := k\<rparr>)"
    "case mode of Regular \<Rightarrow> anon = None | Anonymous \<Rightarrow> \<exists>a seed. anon = Some a \<and> an_did a = did_of_seed (en_prims E) seed \<and>
       length seed = 32 \<and> an_seed_hex a = bytes_to_hex seed"
    using mint_runs [OF E(1)] by blast
  have pub: "\<exists>pub. advertised_pubkeys (en_prims E) mode anon keys = Inr pub"
    using a(2) by (cases mode) (auto simp: advertised_pubkeys_def anon_pubkeys_def seed32_def hex.dec_enc case_prod_beta Let_def)
  then obtain pub where pub: "advertised_pubkeys (en_prims E) mode anon keys = Inr pub" ..
  have did: "starts_with (case anon of Some a \<Rightarrow> an_did a | None \<Rightarrow> ss_did_key s) ''did:key:z''"
    using a(2) s(2) did_of_seed_prefix by (cases mode) auto
  let ?q = "bytes_to_hex (en_rand E k 32)"
  have n: "find_did (pending_did ?q) (contacts_of d) = None"
    using E(4) by (auto simp: find_did_def find_None_iff fresh_queues_def)
  let ?hex = "\<lambda>i n. bytes_to_hex (en_rand E (k + i) n)"
  let ?now = "en_now E (k + 5)" and ?seed = "en_rand E (k + 4) 32"
  let ?c = "pending_contact label ?q ?now (?hex 1 16) (?hex 2 16) mode anon"
  define e0 e1 e2 e3 e4 e5 where e: "e0 = d\<lparr>dv_tick := k\<rparr>" "e1 = d\<lparr>dv_tick := k + 1\<rparr>" "e2 = d\<lparr>dv_tick := k + 2\<rparr>"
    "e3 = d\<lparr>dv_tick := k + 3\<rparr>" "e4 = d\<lparr>dv_tick := k + 4\<rparr>" "e5 = d\<lparr>dv_tick := k + 5\<rparr>"
  define e6 where "e6 = e5\<lparr>dv_contacts := Some (sort_contacts (contacts_of d @ [?c]))\<rparr>"
  define e7 where "e7 = e6\<lparr>dv_ratchets := (dv_ratchets d)(ratchet_path (pending_did ?q) := Some (prekey_state ?seed (x_pub (en_prims E) ?seed)))\<rparr>"
  define e8 where "e8 = e7\<lparr>dv_tick := k + 6\<rparr>"
  obtain ticket where t: "my_ticket E e8 = (Inr ticket, e8\<lparr>dv_tick := k + 7\<rparr>)"
    using my_ticket_runs [OF E(3), of e8] by (auto simp: e8_def)
  define invite where "invite = \<lparr>il_v = INVITE_LINK_VERSION, il_queue = ?q,
     il_did = (case anon of Some a \<Rightarrow> an_did a | None \<Rightarrow> ss_did_key s), il_name = shared_display_name mode (ss_name s), il_keys = pub,
     il_nonce = ?hex 3 16, il_expires_at = en_now E (k + 6) + INVITE_TTL_MS, il_ratchet = Some (b64_enc (en_prims E) (x_pub (en_prims E) ?seed)),
     il_node_ticket = ticket\<rparr>"
  have draws: "random_hex E 32 e0 = (Inr ?q, e1)" "random_hex E 16 e1 = (Inr (?hex 1 16), e2)" "random_hex E 16 e2 = (Inr (?hex 2 16), e3)"
      "random_hex E 16 e3 = (Inr (?hex 3 16), e4)" "drawD E 32 e4 = (Inr ?seed, e5)" "nowD E e5 = (Inr ?now, e5)"
      "nowD E e8 = (Inr (en_now E (k + 6)), e8)"
    by (simp_all add: e e8_def random_hex_def drawD_def callD_def nowD_def run numeral_eq_Suc)
  have "contacts_of e5 = contacts_of d" "dv_ratchets e6 = dv_ratchets d" by (simp_all add: e e6_def)
  then have up: "upsert_contact_record E ?c e5 = (Inr ?c, e6)"
      "ignoreD (write_ratchet E (pending_did ?q) (prekey_state ?seed (x_pub (en_prims E) ?seed))) e6 = (Inr (), e7)"
    using n by (simp_all add: upsert_contact_record_def run run_contacts [OF E(2)] pending_contact_def e6_def [unfolded pending_contact_def]
        write_ratchet_runs [OF E(2)] ignoreD_def okD_def e7_def)
  have j: "ignoreD (join_topic_with E (topic_of ?q) []) e7 = (Inr (), e8)"
    using join_alone_runs [OF E(3), of "topic_of ?q" e7] by (simp add: e8_def e7_def e6_def e)
  have a1: "mint_for_mode E mode d1 = (Inr anon, e0)" using a(1) by (simp add: d1 e)
  have g: "generate_invite E label mode d = (Inr (''hey-invite:'' @ encode_invite_link E invite), e8\<lparr>dv_tick := k + 7\<rparr>)"
    unfolding generate_invite_def Let_def ensure_profile_def ratchet_keypair_def
    using s(1) by (simp only: option.case run s(3) of_option.simps a1 pub draws up j t prod.case invite_def)
  show thesis
    by (rule that [OF g, of "k + 6" "?c"]) (use did E(1) in \<open>auto simp: invite_def pending_contact_def e e6_def e7_def e8_def env_ok_def\<close>)
qed

section \<open>Revoking\<close>

lemma filter_remove_first: "filter p (remove_first p l) = tl (filter p l)"
  by (induction l) auto

lemma find_filter: "filter p l = x # r \<Longrightarrow> find p l = Some x"
  by (induction l) (auto split: if_splits)

definition book_kept :: "device \<Rightarrow> device \<Rightarrow> bool" where
  "book_kept d d' = (dv_contacts d' = dv_contacts d)"

interpretation book: quiet_relation book_kept
  by unfold_locales (auto simp: book_kept_def)

lemma handshake_without_invite:
  assumes "storage_ok E" "find (pending_on q) (contacts_of d) = None"
  shows "snd (receive_handshake E i q d) = d"
  using assms(2)
  by (cases "j_get_str ''my_inbound_queue'' (in_body i)"; cases "Option.bind (j_get ''pubkeys'' (in_body i)) peer_keys_of")
    (simp_all add: receive_handshake_def run run_contacts [OF assms(1)] Let_def)

lemma revoke_removes:
  assumes S: "storage_ok E" and l: "filter (pending_as q) (contacts_of d) = [c]"
  shows "find (pending_on q) (contacts_of (snd (revoke_invite E q d))) = None"
proof -
  have f: "find (pending_as q) (contacts_of d) = Some c" by (rule find_filter [OF l])
  define rest where "rest = bindD (case ct_my_inbound_queue c of Some q \<Rightarrow> forget_topic E (topic_of q) | None \<Rightarrow> retD ())
     (\<lambda>_. remove_ratchet E (ct_did c))"
  have "resp book_kept rest"
    unfolding rest_def remove_ratchet_def by (intro book.resp_quiet book.resp_save) (simp add: book_kept_def)
  then have "book_kept e (snd (rest e))" for e by (rule respD)
  then have "contacts_of (snd (rest e)) = contacts_of e" for e by (simp add: book_kept_def contacts_of_def)
  moreover have "revoke_invite E q d = rest (d\<lparr>dv_contacts := Some (remove_first (pending_as q) (contacts_of d))\<rparr>)"
    using f by (simp add: revoke_invite_def rest_def run run_contacts [OF S])
  ultimately have "contacts_of (snd (revoke_invite E q d)) = remove_first (pending_as q) (contacts_of d)" by simp
  moreover have "filter (pending_as q) (remove_first (pending_as q) (contacts_of d)) = []"
    by (simp add: filter_remove_first l)
  ultimately show ?thesis by (auto simp: find_None_iff filter_empty_conv pending_on_def pending_as_def)
qed

section \<open>Property\<close>

text \<open>C30. The life of an invite: a device that is signed in, with a working storage service, always mints a link;
  whoever decodes the link gets the invite until 24 hours after it was minted, and the error
  that it has expired from then on; and once the user has revoked it, a handshake that still arrives on its queue changes
  nothing on the device.\<close>

theorem invite_lifetime:
  assumes "env_ok E" "storage_ok E" "quiet_carrier E" "b64url_ok E" "fresh_queues E d" "\<And>t. 0 \<le> en_now E t \<and> en_now E t < 2 ^ 62"
    and "dv_session d = Some s" "starts_with (ss_did_key s) ''did:key:z''" "my_pubkeys E d = (Inr (Some keys), d1)"
  shows "\<exists>token invite d' t. generate_invite E label mode d = (Inr token, d') \<and>
    (\<forall>now. decode_invite_link E now token =
      (if en_now E t + INVITE_TTL_MS < now then Inl (Error ''invite link has expired'') else Inr invite)) \<and>
    (let r = snd (revoke_invite E (il_queue invite) d') in \<forall>i. snd (receive_handshake E i (il_queue invite) r) = r)"
proof -
  obtain invite c d' t where g: "generate_invite E label mode d = (Inr (''hey-invite:'' @ encode_invite_link E invite), d')"
    "il_v invite = INVITE_LINK_VERSION" "starts_with (il_did invite) ''did:key:z''" "length (il_queue invite) = 64"
    "il_expires_at invite = en_now E t + INVITE_TTL_MS" "\<exists>t. il_queue invite = bytes_to_hex (en_rand E t 32)"
    "contacts_of d' = sort_contacts (contacts_of d @ [c])" "ct_my_inbound_queue c = Some (il_queue invite)"
    "ct_status c = PendingInvite" "ct_did c = pending_did (il_queue invite)"
    by (rule generate_runs [OF assms(1-3,5,7-9)])
  have "invite_fits invite" using g(2,5) assms(6) [of t] by (simp add: invite_fits_def INVITE_LINK_VERSION_def INVITE_TTL_MS_def)
  then have dec: "decode_invite_link E now (''hey-invite:'' @ encode_invite_link E invite) =
      (if en_now E t + INVITE_TTL_MS < now then Inl (Error ''invite link has expired'') else Inr invite)" for now
    using decode_link [of E invite now] assms(1,4) assms(6) [of t] g(2-5) by (auto simp: env_ok_def INVITE_TTL_MS_def)
  have "filter (pending_as (il_queue invite)) (contacts_of d) = []"
    using assms(5) g(6) by (auto simp: filter_empty_conv pending_as_def fresh_queues_def)
  then have "filter (pending_as (il_queue invite)) (contacts_of d') = [c]"
    using g(8,9) by (simp add: g(7) sort_contacts_def filter_sort pending_as_def)
  then have "snd (receive_handshake E i (il_queue invite) (snd (revoke_invite E (il_queue invite) d'))) =
      snd (revoke_invite E (il_queue invite) d')" for i
    by (intro handshake_without_invite revoke_removes assms(2))
  then show ?thesis using g(1) dec by (auto simp: Let_def)
qed

section \<open>Witness\<close>

lemma plain_hex: "plain (bytes_to_hex b)"
proof -
  have "\<forall>n \<in> set [0..<16]. 33 \<le> (of_char (hex_digit n) :: nat) \<and> (of_char (hex_digit n) :: nat) \<le> 126" by code_simp
  moreover have "unat b div 16 < 16" "unat b mod 16 < 16" for b :: byte
    using unat_byte_less [of b] by (simp_all add: less_mult_imp_div_less)
  ultimately show ?thesis by (induction b) (auto simp: plain_def)
qed

definition minting_env :: env where
  "minting_env = sample_env\<lparr>en_pubkeys := (\<lambda>_. Inr (JObj [(''x25519_pub_b64'', JStr ''x''), (''ml_kem_pub_b64'', JStr ''k'')])),
     en_b64url_enc := bytes_to_hex, en_b64url_dec := (\<lambda>s. case hex_to_bytes s of Inr b \<Rightarrow> Some b | Inl _ \<Rightarrow> None)\<rparr>"

definition minting_device :: device where
  "minting_device = sample_device\<lparr>dv_session := Some \<lparr>ss_auth_key_hex = [], ss_did_key = ''did:key:zB'', ss_name = ''Bo'',
     ss_kem_secret = [], ss_kem_public = []\<rparr>\<rparr>"

theorem invite_lifetime_witness:
  "\<exists>token invite d' t. generate_invite minting_env ''pal'' Anonymous minting_device = (Inr token, d') \<and>
    decode_invite_link minting_env 86400005 token = Inr invite \<and>
    decode_invite_link minting_env 86400006 token = Inl (Error ''invite link has expired'')"
proof -
  have e: "env_ok minting_env" "storage_ok minting_env" "quiet_carrier minting_env" "b64url_ok minting_env"
      "fresh_queues minting_env minting_device" "\<And>t. en_now minting_env t = 5"
    using sample_env_ok sample_storage_ok plain_hex
    by (simp_all add: minting_env_def env_ok_def storage_ok_def quiet_carrier_def b64url_ok_def fresh_queues_def contacts_of_def
        minting_device_def sample_device_def sample_env_def ok_resp_def hex.dec_enc)
  obtain d1 where k: "my_pubkeys minting_env minting_device = (Inr (Some \<lparr>pk_x25519 = ''x'', pk_ml_kem = ''k''\<rparr>), d1)"
    by (simp add: my_pubkeys_def okD_def callD_def run minting_env_def data_of_def j_get_str_def)
  have s: "dv_session minting_device = Some \<lparr>ss_auth_key_hex = [], ss_did_key = ''did:key:zB'', ss_name = ''Bo'', ss_kem_secret = [], ss_kem_public = []\<rparr>"
    by (simp add: minting_device_def)
  show ?thesis
    using invite_lifetime [OF e(1-5) _ s _ k, of "''pal''" Anonymous] by (auto simp: e(6) starts_with_def INVITE_TTL_MS_def)
qed

end
