(* ===== verification/Ipld.thy ===== *)
theory Ipld
imports Samples
begin

text \<open>
  The immutable half of a post (\<open>capsules/hey-social/src/ipld.rs\<close>): the body that is encoded as
  CBOR and pinned, the tolerant decoder, and the post a receiver makes of a body. \<open>ciborium\<close> on
  CBOR values is \<open>en_cbor\<close> and \<open>en_uncbor\<close>, the date formatting of the browser \<open>en_iso\<close>.
\<close>

definition IPLD_POST_SCHEMA_VERSION :: nat where "IPLD_POST_SCHEMA_VERSION = 1"

record media_entry =
  me_cid :: string
  me_mime :: string
  me_name :: string
  me_type :: string

record post_body =
  pb_v :: nat
  pb_ts :: int
  pb_media :: "media_entry list"
  pb_caption :: string
  pb_author_did :: string
  pb_created_at :: string
  pb_author_name :: string

record decoded_post =
  dp_v :: nat
  dp_ts :: int
  dp_caption :: string
  dp_author_did :: string
  dp_author_name :: string
  dp_created_at :: string
  dp_media :: "media_tile list"

section \<open>Encoding\<close>

definition iso_from_ts :: "env \<Rightarrow> int \<Rightarrow> string" where
  "iso_from_ts E ts = en_iso E ts"

definition media_entry_of :: "media_tile \<Rightarrow> media_entry" where
  "media_entry_of m = \<lparr>me_cid = mt_cid m, me_mime = mt_mime m, me_name = mt_name m,
     me_type = (if mt_type m = ''video'' then ''video'' else ''photo'')\<rparr>"

definition build_immutable_body :: "env \<Rightarrow> post \<Rightarrow> post_body res" where
  "build_immutable_body E post = (if po_user_did post = [] then Inl (Error ''post.userDid required'')
     else if po_ts post = 0 then Inl (Error ''post.ts required'')
     else Inr \<lparr>pb_v = IPLD_POST_SCHEMA_VERSION, pb_ts = po_ts post, pb_media = map media_entry_of (po_images post),
       pb_caption = po_caption post, pb_author_did = po_user_did post,
       pb_created_at = (if po_created_at post = [] then iso_from_ts E (po_ts post) else po_created_at post),
       pb_author_name = po_user_name post\<rparr>)"

text \<open>The derived \<open>Serialize\<close>: a map with the fields in declaration order.\<close>

definition media_entry_cbor :: "media_entry \<Rightarrow> cbor" where
  "media_entry_cbor m = CMap [(CText ''cid'', CText (me_cid m)), (CText ''mime'', CText (me_mime m)),
     (CText ''name'', CText (me_name m)), (CText ''type'', CText (me_type m))]"

definition post_body_cbor :: "post_body \<Rightarrow> cbor" where
  "post_body_cbor b = CMap [(CText ''v'', CInt (int (pb_v b))), (CText ''ts'', CInt (pb_ts b)),
     (CText ''media'', CArr (map media_entry_cbor (pb_media b))), (CText ''caption'', CText (pb_caption b)),
     (CText ''author_did'', CText (pb_author_did b)), (CText ''created_at'', CText (pb_created_at b)),
     (CText ''author_name'', CText (pb_author_name b))]"

definition encode_post_metadata :: "env \<Rightarrow> post \<Rightarrow> bytes res" where
  "encode_post_metadata E post = bindR (build_immutable_body E post) (\<lambda>body. Inr (en_cbor E (post_body_cbor body)))"

section \<open>Decoding\<close>

fun cbor_str :: "cbor \<Rightarrow> string option" where
  "cbor_str (CText s) = Some s"
| "cbor_str _ = None"

fun cbor_map :: "cbor \<Rightarrow> (cbor \<times> cbor) list option" where
  "cbor_map (CMap ms) = Some ms"
| "cbor_map _ = None"

fun cbor_arr :: "cbor \<Rightarrow> cbor list option" where
  "cbor_arr (CArr vs) = Some vs"
| "cbor_arr _ = None"

text \<open>An integer of the given range, or 0.\<close>

definition cbor_int :: "int \<Rightarrow> int \<Rightarrow> cbor option \<Rightarrow> int" where
  "cbor_int lo hi v = (case v of Some (CInt i) \<Rightarrow> if lo \<le> i \<and> i < hi then i else 0 | _ \<Rightarrow> 0)"

definition cbor_get :: "(cbor \<times> cbor) list \<Rightarrow> string \<Rightarrow> cbor option" where
  "cbor_get ms key = map_of ms (CText key)"

definition or_empty :: "string option \<Rightarrow> string" where
  "or_empty s = (case s of Some t \<Rightarrow> t | None \<Rightarrow> [])"

text \<open>Inside a media entry the search goes on past a member whose value is not a text.\<close>

fun cbor_get_text :: "(cbor \<times> cbor) list \<Rightarrow> string \<Rightarrow> string option" where
  "cbor_get_text [] key = None"
| "cbor_get_text ((k, v) # ms) key = (if k = CText key \<and> cbor_str v \<noteq> None then cbor_str v else cbor_get_text ms key)"

definition decode_media :: "cbor \<Rightarrow> media_tile option" where
  "decode_media item = Option.bind (cbor_map item) (\<lambda>m. map_option (\<lambda>cid.
     \<lparr>mt_url = ''elastos://'' @ cid, mt_cid = cid,
      mt_type = (case cbor_get_text m ''type'' of Some t \<Rightarrow> t | None \<Rightarrow> ''photo''),
      mt_mime = or_empty (cbor_get_text m ''mime''), mt_name = or_empty (cbor_get_text m ''name'')\<rparr>)
     (cbor_get_text m ''cid''))"

definition decode_post_value :: "cbor \<Rightarrow> decoded_post res" where
  "decode_post_value v = bindR (of_option ''post body must be a CBOR map'' (cbor_map v)) (\<lambda>ms. let
     text = (\<lambda>k. Option.bind (cbor_get ms k) cbor_str);
     ver = nat (cbor_int 0 (2 ^ 32) (cbor_get ms ''v''))
     in if ver \<noteq> IPLD_POST_SCHEMA_VERSION then Inl (Error ''unsupported post schema'')
     else bindR (of_option ''missing author_did'' (text ''author_did'')) (\<lambda>author_did.
       Inr \<lparr>dp_v = ver, dp_ts = cbor_int (- (2 ^ 63)) (2 ^ 63) (cbor_get ms ''ts''),
         dp_caption = or_empty (text ''caption''), dp_author_did = author_did,
         dp_author_name = or_empty (text ''author_name''), dp_created_at = or_empty (text ''created_at''),
         dp_media = (case Option.bind (cbor_get ms ''media'') cbor_arr of
           Some arr \<Rightarrow> List.map_filter decode_media arr | None \<Rightarrow> [])\<rparr>))"

definition decode_post_metadata :: "env \<Rightarrow> bytes \<Rightarrow> decoded_post res" where
  "decode_post_metadata E bytes = bindR (of_option ''dag-cbor decode'' (en_uncbor E bytes)) decode_post_value"

section \<open>Receiving\<close>

definition ellipsis :: string where "ellipsis = utf8 [226, 128, 166]"

definition materialize_from_ipld :: "string \<Rightarrow> decoded_post \<Rightarrow> string \<Rightarrow> post" where
  "materialize_from_ipld uid body post_cid = \<lparr>po_id = uid, po_user_id = dp_author_did body,
     po_user_did = dp_author_did body,
     po_user_name = (if dp_author_name body = [] then take_chars 14 (dp_author_did body) @ ellipsis else dp_author_name body),
     po_user_avatar = [], po_caption = dp_caption body, po_images = dp_media body,
     po_created_at = dp_created_at body, po_reactions = [], po_reposts = [], po_comments = [],
     po_ts = dp_ts body, po_post_cid = Some post_cid\<rparr>"

section \<open>Lemmas\<close>

definition cbor_codec :: "env \<Rightarrow> bool" where
  "cbor_codec E = (\<forall>v. en_uncbor E (en_cbor E v) = Some v)"

text \<open>What a tile looks like after a round trip: the address is the content address, and every
  kind but \<open>video\<close> is a photo.\<close>

definition plain_tile :: "media_tile \<Rightarrow> media_tile" where
  "plain_tile m = m\<lparr>mt_url := ''elastos://'' @ mt_cid m, mt_type := (if mt_type m = ''video'' then ''video'' else ''photo'')\<rparr>"

lemma decode_media_entry [simp]: "decode_media (media_entry_cbor (media_entry_of m)) = Some (plain_tile m)"
  by (simp add: decode_media_def media_entry_cbor_def media_entry_of_def plain_tile_def or_empty_def)

lemma map_filter_entries [simp]:
  "List.map_filter decode_media (map (\<lambda>m. media_entry_cbor (media_entry_of m)) ms) = map plain_tile ms"
  by (induction ms) (simp_all add: List.map_filter_simps)

lemma decode_body:
  assumes "pb_v b = 1" "- (2 ^ 63) \<le> pb_ts b" "pb_ts b < 2 ^ 63"
  shows "decode_post_value (post_body_cbor b) = Inr \<lparr>dp_v = 1, dp_ts = pb_ts b, dp_caption = pb_caption b,
    dp_author_did = pb_author_did b, dp_author_name = pb_author_name b, dp_created_at = pb_created_at b,
    dp_media = List.map_filter decode_media (map media_entry_cbor (pb_media b))\<rparr>"
  using assms
  by (simp add: decode_post_value_def post_body_cbor_def cbor_get_def cbor_int_def or_empty_def
      IPLD_POST_SCHEMA_VERSION_def Let_def)

text \<open>The post a receiver makes of the body of another.\<close>

definition as_received :: "env \<Rightarrow> string \<Rightarrow> string \<Rightarrow> post \<Rightarrow> post" where
  "as_received E uid cid p = \<lparr>po_id = uid, po_user_id = po_user_did p, po_user_did = po_user_did p,
     po_user_name = (if po_user_name p = [] then take_chars 14 (po_user_did p) @ ellipsis else po_user_name p),
     po_user_avatar = [], po_caption = po_caption p, po_images = map plain_tile (po_images p),
     po_created_at = (if po_created_at p = [] then iso_from_ts E (po_ts p) else po_created_at p),
     po_reactions = [], po_reposts = [], po_comments = [], po_ts = po_ts p, po_post_cid = Some cid\<rparr>"

lemma decode_encoded:
  assumes "cbor_codec E" "- (2 ^ 63) \<le> po_ts p" "po_ts p < 2 ^ 63" "encode_post_metadata E p = Inr b"
  obtains body where "decode_post_metadata E b = Inr body" "materialize_from_ipld uid body cid = as_received E uid cid p"
proof -
  obtain pb where pb: "build_immutable_body E p = Inr pb" "b = en_cbor E (post_body_cbor pb)"
    using assms(4) by (auto simp: encode_post_metadata_def res_inv)
  then have f: "pb_v pb = 1" "pb_ts pb = po_ts p" "pb_media pb = map media_entry_of (po_images p)" "pb_caption pb = po_caption p"
      "pb_author_did pb = po_user_did p" "pb_author_name pb = po_user_name p"
      "pb_created_at pb = (if po_created_at p = [] then iso_from_ts E (po_ts p) else po_created_at p)"
    by (auto simp: build_immutable_body_def IPLD_POST_SCHEMA_VERSION_def split: if_splits)
  have d: "decode_post_metadata E b = decode_post_value (post_body_cbor pb)"
    using assms(1) pb(2) by (simp add: decode_post_metadata_def cbor_codec_def)
  show ?thesis
    by (rule that, unfold d, rule decode_body)
      (use f assms in \<open>simp_all add: materialize_from_ipld_def as_received_def comp_def\<close>)
qed

end
