(* ===== verification/Social_Profile.thy ===== *)
theory Social_Profile
imports Ipld Peer_Receiver Attachments Plat
begin

text \<open>
  The profile, the follow lists and the caches about peers of the social application
  (\<open>capsules/hey-social/src/api/profile.rs\<close>), with the reading and writing of its files and the
  publishing of signed events that its modules share. The files are the part \<open>dv_social\<close> of
  the device. Sending a gossip message is an answer of the environment.
\<close>

section \<open>Files and events\<close>

definition loadS :: "env \<Rightarrow> string \<Rightarrow> (social_files \<Rightarrow> 'a option) \<Rightarrow> 'a \<Rightarrow> 'a io" where
  "loadS E path f dflt = loadD E path (\<lambda>d. f (dv_social d)) dflt"

definition readS :: "env \<Rightarrow> string \<Rightarrow> (social_files \<Rightarrow> 'a option) \<Rightarrow> 'a option io" where
  "readS E path f = readD E path (\<lambda>d. f (dv_social d))"

definition saveS :: "env \<Rightarrow> string \<Rightarrow> (social_files \<Rightarrow> social_files) \<Rightarrow> unit io" where
  "saveS E path f = saveD E path (\<lambda>d. d\<lparr>dv_social := f (dv_social d)\<rparr>)"

definition no_map :: "string \<Rightarrow> 'a option" where "no_map = (\<lambda>_. None)"

definition add_bytes :: "env \<Rightarrow> bytes \<Rightarrow> json io" where
  "add_bytes E bs = callD (\<lambda>k. en_publish E k bs)"

definition signed_eventD :: "env \<Rightarrow> string \<Rightarrow> json \<Rightarrow> signed_event io" where
  "signed_eventD E event_type payload = bindD (getD (\<lambda>d. map_option ss_did_key (dv_session d))) (\<lambda>me.
     bindD (nowD E) (\<lambda>now. callD (\<lambda>k. create_signed_event (en_jstr E) me (\<lambda>m. en_sign E k (as_bytes m)) now event_type payload)))"

definition gossip_send :: "env \<Rightarrow> string \<Rightarrow> signed_event \<Rightarrow> unit io" where
  "gossip_send E topic evt = bindD (callD (\<lambda>k. en_gossip_send E k topic (to_wire_string E evt) (ev_sender_did evt)
     (ev_ts evt) (ev_signature evt))) (\<lambda>_. retD ())"

definition sign_and_publish :: "env \<Rightarrow> string \<Rightarrow> string \<Rightarrow> json \<Rightarrow> unit io" where
  "sign_and_publish E topic event_type payload = bindD (getD dv_session) (\<lambda>s.
     if s = None then failD ''Not signed in''
     else bindD (signed_eventD E event_type payload) (gossip_send E topic))"

definition posts_topic :: "string \<Rightarrow> string" where "posts_topic did = ''hey-v0/user/'' @ did @ ''/posts''"
definition follow_topic :: "string \<Rightarrow> string" where "follow_topic did = ''hey-v0/follow/'' @ did"

definition is_did :: "string \<Rightarrow> bool" where "is_did s = starts_with s ''did:key:z''"

section \<open>The profile\<close>

definition PROFILE_FILE :: string where "PROFILE_FILE = ''profile.json''"

definition new_with :: "env \<Rightarrow> string \<Rightarrow> string \<Rightarrow> string \<Rightarrow> profile io" where
  "new_with E name did_key auth_key_hash = bindD (uuidD E) (\<lambda>uid. bindD (getD (\<lambda>d. en_today E (dv_tick d))) (\<lambda>today.
     retD \<lparr>pr_id = uid, pr_name = take_chars 30 (trim name), pr_auth_key_hash = auth_key_hash, pr_did_key = did_key,
       pr_role = ''general'', pr_avatar = [], pr_bio = [], pr_followers = [], pr_following = [],
       pr_pending_followers = [], pr_pending_following = [], pr_created_at = today, pr_posts_head = None\<rparr>))"

definition read_profile :: "env \<Rightarrow> profile option io" where
  "read_profile E = readS E PROFILE_FILE sf_profile"

definition write_profile :: "env \<Rightarrow> profile \<Rightarrow> unit io" where
  "write_profile E p = saveS E PROFILE_FILE (\<lambda>f. f\<lparr>sf_profile := Some p\<rparr>)"

text \<open>\<open>ensure_profile\<close>: the stored profile, or a new one seeded from the session.\<close>

definition own_profile :: "env \<Rightarrow> profile io" where
  "own_profile E = bindD (read_profile E) (\<lambda>v. case v of
     Some p \<Rightarrow> retD p
   | None \<Rightarrow> bindD (getD dv_session) (\<lambda>s. case s of None \<Rightarrow> failD ''Not signed in''
       | Some u \<Rightarrow> bindD (new_with E (ss_name u) (ss_did_key u) []) (\<lambda>me.
           bindD (ignoreD (write_profile E me)) (\<lambda>_. retD me))))"

section \<open>Follow lists\<close>

definition FOLLOWS_FILE :: string where "FOLLOWS_FILE = ''follows.json''"

definition no_follows :: follows where
  "no_follows = \<lparr>fo_followers = [], fo_following = [], fo_pending = []\<rparr>"

definition read_follows :: "env \<Rightarrow> follows io" where
  "read_follows E = loadS E FOLLOWS_FILE sf_follows no_follows"

definition write_follows :: "env \<Rightarrow> follows \<Rightarrow> unit io" where
  "write_follows E fo = saveS E FOLLOWS_FILE (\<lambda>f. f\<lparr>sf_follows := Some fo\<rparr>)"

definition sync_profile_follows :: "env \<Rightarrow> unit io" where
  "sync_profile_follows E = bindD (read_follows E) (\<lambda>f. bindD (okD (read_profile E)) (\<lambda>r. case r of
     Some (Some me) \<Rightarrow> if pr_followers me \<noteq> fo_followers f \<or> pr_following me \<noteq> fo_following f
       then ignoreD (write_profile E (me\<lparr>pr_followers := fo_followers f, pr_following := fo_following f\<rparr>)) else retD ()
   | _ \<Rightarrow> retD ()))"

section \<open>Caches about peers\<close>

definition PEER_TICKETS_FILE :: string where "PEER_TICKETS_FILE = ''peer_tickets.json''"
definition PEER_HEADS_FILE :: string where "PEER_HEADS_FILE = ''peer_heads.json''"
definition PEER_NAMES_FILE :: string where "PEER_NAMES_FILE = ''peer_names.json''"
definition PEER_PROFILES_FILE :: string where "PEER_PROFILES_FILE = ''peer_profiles.json''"

definition read_peer_tickets :: "env \<Rightarrow> (string \<Rightarrow> string option) io" where
  "read_peer_tickets E = loadS E PEER_TICKETS_FILE sf_tickets no_map"

definition write_peer_ticket :: "env \<Rightarrow> string \<Rightarrow> string \<Rightarrow> unit io" where
  "write_peer_ticket E did ticket = (if ticket = [] then retD () else bindD (read_peer_tickets E) (\<lambda>m.
     ignoreD (saveS E PEER_TICKETS_FILE (\<lambda>f. f\<lparr>sf_tickets := Some (m(did := Some ticket))\<rparr>))))"

definition peer_ticket_for :: "env \<Rightarrow> string \<Rightarrow> string option io" where
  "peer_ticket_for E did = bindD (read_peer_tickets E) (\<lambda>m. retD (m did))"

definition set_posts_head :: "env \<Rightarrow> string \<Rightarrow> unit io" where
  "set_posts_head E cid = bindD (okD (own_profile E)) (\<lambda>r. case r of
     Some me \<Rightarrow> if pr_posts_head me \<noteq> Some cid then ignoreD (write_profile E (me\<lparr>pr_posts_head := Some cid\<rparr>)) else retD ()
   | None \<Rightarrow> retD ())"

definition my_posts_head :: "env \<Rightarrow> string option io" where
  "my_posts_head E = bindD (okD (read_profile E)) (\<lambda>r. retD (case r of Some (Some p) \<Rightarrow> pr_posts_head p | _ \<Rightarrow> None))"

definition read_peer_heads :: "env \<Rightarrow> (string \<Rightarrow> string option) io" where
  "read_peer_heads E = loadS E PEER_HEADS_FILE sf_heads no_map"

definition set_peer_head :: "env \<Rightarrow> string \<Rightarrow> string \<Rightarrow> bool io" where
  "set_peer_head E did cid = bindD (read_peer_heads E) (\<lambda>m. if m did = Some cid then retD False
     else bindD (ignoreD (saveS E PEER_HEADS_FILE (\<lambda>f. f\<lparr>sf_heads := Some (m(did := Some cid))\<rparr>))) (\<lambda>_. retD True))"

text \<open>The order in which a \<open>HashMap\<close> yields its entries is a choice of the environment.\<close>

definition all_peer_heads :: "env \<Rightarrow> (string \<times> string) list io" where
  "all_peer_heads E = bindD (read_peer_heads E) (\<lambda>m. getD (\<lambda>d. en_entries E (dv_tick d) m))"

definition read_peer_names :: "env \<Rightarrow> (string \<Rightarrow> string option) io" where
  "read_peer_names E = loadS E PEER_NAMES_FILE sf_names no_map"

definition cache_peer_name :: "env \<Rightarrow> string \<Rightarrow> string \<Rightarrow> unit io" where
  "cache_peer_name E did name = (if did = [] \<or> trim name = [] then retD ()
     else bindD (read_peer_names E) (\<lambda>m. if m did = Some name then retD ()
       else ignoreD (saveS E PEER_NAMES_FILE (\<lambda>f. f\<lparr>sf_names := Some (m(did := Some name))\<rparr>))))"

definition peer_name :: "env \<Rightarrow> string \<Rightarrow> string io" where
  "peer_name E did = bindD (read_peer_names E) (\<lambda>m. retD (or_empty (m did)))"

definition list_following :: "env \<Rightarrow> follow_view list io" where
  "list_following E = bindD (read_follows E) (\<lambda>f. bindD (read_peer_names E) (\<lambda>names.
     retD (map (\<lambda>did. \<lparr>fv_did = did, fv_name = or_empty (names did)\<rparr>) (fo_following f))))"

definition list_followers :: "env \<Rightarrow> follow_view list io" where
  "list_followers E = bindD (read_follows E) (\<lambda>f. bindD (read_peer_names E) (\<lambda>names.
     retD (map (\<lambda>did. \<lparr>fv_did = did, fv_name = or_empty (names did)\<rparr>) (fo_followers f))))"

definition follow_counts :: "env \<Rightarrow> (nat \<times> nat) io" where
  "follow_counts E = bindD (read_follows E) (\<lambda>f. retD (length (fo_following f), length (fo_followers f)))"

section \<open>Public profiles\<close>

definition f_nat_dflt :: "nat \<Rightarrow> string \<Rightarrow> (string \<times> json) list \<Rightarrow> nat option" where
  "f_nat_dflt w k ms = (case map_of ms k of None \<Rightarrow> Some 0 | Some v \<Rightarrow> j_nat w v)"

definition public_profile_json :: "public_profile \<Rightarrow> json" where
  "public_profile_json p = JObj [(''did'', JStr (pp_did p)), (''name'', JStr (pp_name p)), (''bio'', JStr (pp_bio p)),
     (''avatar'', JStr (pp_avatar p)), (''followers'', JInt (int (pp_followers p))), (''following'', JInt (int (pp_following p)))]"

text \<open>\<open>usize\<close> has 32 bits in the browser.\<close>

definition public_profile_of :: "json \<Rightarrow> public_profile option" where
  "public_profile_of j = do {
     ms \<leftarrow> as_fields [''did'', ''name'', ''bio'', ''avatar'', ''followers'', ''following''] j;
     d \<leftarrow> f_str_dflt ''did'' ms; n \<leftarrow> f_str_dflt ''name'' ms; b \<leftarrow> f_str_dflt ''bio'' ms; a \<leftarrow> f_str_dflt ''avatar'' ms;
     fs \<leftarrow> f_nat_dflt 32 ''followers'' ms; fg \<leftarrow> f_nat_dflt 32 ''following'' ms;
     Some \<lparr>pp_did = d, pp_name = n, pp_bio = b, pp_avatar = a, pp_followers = fs, pp_following = fg\<rparr> }"

definition publish_own_profile :: "env \<Rightarrow> string option io" where
  "publish_own_profile E = bindD (okD (read_profile E)) (\<lambda>r. case r of
     Some (Some me) \<Rightarrow> bindD (follow_counts E) (\<lambda>(following, followers).
       bindD (okD (add_bytes E (as_bytes (en_text E (public_profile_json \<lparr>pp_did = pr_did_key me, pp_name = pr_name me,
         pp_bio = pr_bio me, pp_avatar = pr_avatar me, pp_followers = followers, pp_following = following\<rparr>))))) (\<lambda>rsp.
       retD (Option.bind rsp extract_cid)))
   | _ \<Rightarrow> retD None)"

definition head_json :: "string \<Rightarrow> json" where
  "head_json cid = JObj [(''head_cid'', JStr cid)]"

definition publish_and_announce_profile :: "env \<Rightarrow> unit io" where
  "publish_and_announce_profile E = bindD (publish_own_profile E) (\<lambda>h. case h of None \<Rightarrow> retD ()
     | Some head \<Rightarrow> bindD (getD dv_session) (\<lambda>s. case s of None \<Rightarrow> retD ()
         | Some u \<Rightarrow> ignoreD (sign_and_publish E (posts_topic (ss_did_key u)) ''profile.head'' (head_json head))))"

definition read_peer_profiles :: "env \<Rightarrow> (string \<Rightarrow> public_profile option) io" where
  "read_peer_profiles E = loadS E PEER_PROFILES_FILE sf_profiles no_map"

definition set_peer_profile :: "env \<Rightarrow> public_profile \<Rightarrow> unit io" where
  "set_peer_profile E pp = (if pp_did pp = [] then retD () else bindD (read_peer_profiles E) (\<lambda>m.
     bindD (ignoreD (saveS E PEER_PROFILES_FILE (\<lambda>f. f\<lparr>sf_profiles := Some (m(pp_did pp := Some pp))\<rparr>))) (\<lambda>_.
     cache_peer_name E (pp_did pp) (pp_name pp))))"

definition get_peer_profile :: "env \<Rightarrow> string \<Rightarrow> public_profile option io" where
  "get_peer_profile E did = bindD (read_peer_profiles E) (\<lambda>m. retD (m did))"

definition fetch_peer_profile :: "env \<Rightarrow> string \<Rightarrow> string \<Rightarrow> unit io" where
  "fetch_peer_profile E did head_cid = bindD (okD (get_bytes E head_cid)) (\<lambda>r.
     case Option.bind (Option.bind r (\<lambda>b. en_parse E (of_bytes b))) public_profile_of of None \<Rightarrow> retD ()
     | Some pp0 \<Rightarrow> let pp = (if pp_did pp0 = [] then pp0\<lparr>pp_did := did\<rparr> else pp0)
         in if pp_did pp = did then set_peer_profile E pp else retD ())"

text \<open>The characters of a string, each with its continuation bytes.\<close>

fun chars :: "string \<Rightarrow> string list" where
  "chars [] = []"
| "chars (c # cs) = (case chars cs of [] \<Rightarrow> [[c]]
     | w # ws \<Rightarrow> if is_cont (hd w) then (c # w) # ws else [c] # w # ws)"

definition short_label :: "string \<Rightarrow> string" where
  "short_label did = (let s = (case strip_prefix ''did:key:z'' did of Some t \<Rightarrow> t | None \<Rightarrow> did); cs = chars s
     in ''hey-'' @ concat (drop (length cs - 6) cs))"

definition first_named :: "string option list \<Rightarrow> string option" where
  "first_named l = (case filter (\<lambda>n. trim n \<noteq> []) (List.map_filter id l) of [] \<Rightarrow> None | n # _ \<Rightarrow> Some n)"

text \<open>\<open>vec![String::new(); n]\<close>: a string has 12 bytes there and a vector at most 2^31 - 1.\<close>

definition empty_strings :: "nat \<Rightarrow> string list res" where
  "empty_strings n = (if n * 12 < 2 ^ 31 then Inr (replicate n []) else Inl (Panic ''capacity overflow''))"

definition peer_profile_view :: "env \<Rightarrow> string \<Rightarrow> post list \<Rightarrow> profile io" where
  "peer_profile_view E did posts = (let from_post = find (\<lambda>p. po_user_did p = did) posts in
     bindD (get_peer_profile E did) (\<lambda>pub. bindD (peer_name E did) (\<lambda>cached.
     let name = (case first_named [map_option pp_name pub, Some cached, map_option po_user_name from_post] of
           Some n \<Rightarrow> n | None \<Rightarrow> short_label did);
         avatar = (case pub of Some p \<Rightarrow> if pp_avatar p \<noteq> [] then pp_avatar p else or_empty (map_option po_user_avatar from_post)
           | None \<Rightarrow> or_empty (map_option po_user_avatar from_post))
     in bindD (liftD (empty_strings (case pub of Some p \<Rightarrow> pp_followers p | None \<Rightarrow> 0))) (\<lambda>followers.
        bindD (liftD (empty_strings (case pub of Some p \<Rightarrow> pp_following p | None \<Rightarrow> 0))) (\<lambda>following.
        retD \<lparr>pr_id = [], pr_name = name, pr_auth_key_hash = [], pr_did_key = did, pr_role = ''general'',
          pr_avatar = avatar, pr_bio = or_empty (map_option pp_bio pub), pr_followers = followers, pr_following = following,
          pr_pending_followers = [], pr_pending_following = [], pr_created_at = [], pr_posts_head = None\<rparr>)))))"

section \<open>Following\<close>

definition ticket_list :: "string option \<Rightarrow> string list" where
  "ticket_list t = (case t of Some s \<Rightarrow> if s = [] then [] else [s] | None \<Rightarrow> [])"

definition record_follower :: "env \<Rightarrow> string \<Rightarrow> string option \<Rightarrow> unit io" where
  "record_follower E follower_did node_ticket = (if \<not> is_did follower_did then retD ()
     else bindD (forD (write_peer_ticket E follower_did) (ticket_list node_ticket)) (\<lambda>_.
     bindD (read_follows E) (\<lambda>f.
     bindD (if follower_did \<in> set (fo_followers f) then retD ()
        else bindD (ignoreD (write_follows E (f\<lparr>fo_followers := fo_followers f @ [follower_did]\<rparr>))) (\<lambda>_. sync_profile_follows E)) (\<lambda>_.
     bindD (ignoreD (join_topic_with E (follow_topic follower_did) (ticket_list node_ticket))) (\<lambda>_.
     bindD (my_posts_head E) (\<lambda>head.
     bindD (case head of Some h \<Rightarrow> ignoreD (sign_and_publish E (follow_topic follower_did) ''posts.head'' (head_json h))
        | None \<Rightarrow> retD ()) (\<lambda>_.
     bindD (publish_own_profile E) (\<lambda>phead. case phead of
        Some h \<Rightarrow> ignoreD (sign_and_publish E (follow_topic follower_did) ''profile.head'' (head_json h))
      | None \<Rightarrow> retD ()))))))))"

definition remove_follower :: "env \<Rightarrow> string \<Rightarrow> unit io" where
  "remove_follower E follower_did = bindD (read_follows E) (\<lambda>f. let
     g = f\<lparr>fo_followers := filter (\<lambda>d. d \<noteq> follower_did) (fo_followers f),
           fo_pending := filter (\<lambda>d. d \<noteq> follower_did) (fo_pending f)\<rparr>
     in if length (fo_followers g) + length (fo_pending g) \<noteq> length (fo_followers f) + length (fo_pending f)
        then bindD (ignoreD (write_follows E g)) (\<lambda>_. sync_profile_follows E) else retD ())"

definition opt_json :: "string option \<Rightarrow> json" where
  "opt_json s = (case s of Some t \<Rightarrow> JStr t | None \<Rightarrow> JNull)"

definition follow_request :: "string \<Rightarrow> string \<Rightarrow> string \<Rightarrow> peer_keys option \<Rightarrow> int \<Rightarrow> json" where
  "follow_request target name ticket keys now = JObj [(''target_did'', JStr target), (''from_name'', JStr name),
     (''from_ticket'', JStr ticket), (''from_x25519'', opt_json (map_option pk_x25519 keys)),
     (''from_ml_kem'', opt_json (map_option pk_ml_kem keys)), (''ts'', JInt now)]"

definition follow_user_with :: "env \<Rightarrow> string \<Rightarrow> string option \<Rightarrow> unit io" where
  "follow_user_with E peer_did node_ticket = bindD (own_profile E) (\<lambda>me.
     if \<not> is_did peer_did then failD ''Invalid did''
     else if peer_did = pr_did_key me then failD ''Cannot follow yourself''
     else let boot = ticket_list node_ticket in
     bindD (case node_ticket of Some t \<Rightarrow> write_peer_ticket E peer_did t | None \<Rightarrow> retD ()) (\<lambda>_.
     bindD (ignoreD (join_topic_with E (posts_topic peer_did) boot)) (\<lambda>_.
     bindD (ignoreD (join_topic_with E (follow_topic peer_did) boot)) (\<lambda>_.
     bindD (read_follows E) (\<lambda>f.
     bindD (write_follows E (if peer_did \<in> set (fo_following f) then f
        else f\<lparr>fo_following := fo_following f @ [peer_did]\<rparr>)) (\<lambda>_.
     bindD (sync_profile_follows E) (\<lambda>_.
     bindD (my_ticket E) (\<lambda>ticket. bindD (my_pubkeys E) (\<lambda>keys. bindD (nowD E) (\<lambda>now.
     ignoreD (sign_and_publish E (follow_topic peer_did) ''follow.request''
       (follow_request peer_did (pr_name me) (or_empty ticket) keys now))))))))))))"

definition follow_user :: "env \<Rightarrow> string \<Rightarrow> unit io" where
  "follow_user E peer_did = follow_user_with E peer_did None"

definition unfollow_user :: "env \<Rightarrow> string \<Rightarrow> unit io" where
  "unfollow_user E peer_did = bindD (ignoreD (leave_topic E (posts_topic peer_did))) (\<lambda>_.
     bindD (read_follows E) (\<lambda>f.
     bindD (write_follows E (f\<lparr>fo_following := filter (\<lambda>d. d \<noteq> peer_did) (fo_following f)\<rparr>)) (\<lambda>_.
     bindD (sync_profile_follows E) (\<lambda>_. bindD (nowD E) (\<lambda>now.
     ignoreD (sign_and_publish E (follow_topic peer_did) ''follow.unfollow''
       (JObj [(''target_did'', JStr peer_did), (''ts'', JInt now)])))))))"

definition is_following :: "env \<Rightarrow> string \<Rightarrow> bool io" where
  "is_following E peer_did = bindD (read_follows E) (\<lambda>f. retD (peer_did \<in> set (fo_following f)))"

section \<open>Friend links\<close>

definition FRIEND_LINK_VERSION :: nat where "FRIEND_LINK_VERSION = 2"

definition friend_link_json :: "friend_link \<Rightarrow> json" where
  "friend_link_json l = JObj ([(''v'', JInt (int (fl_v l))), (''did'', JStr (fl_did l)), (''name'', JStr (fl_name l))]
     @ opt_member ''node_ticket'' (map_option JStr (fl_node_ticket l))
     @ opt_member ''x25519_pub'' (map_option JStr (fl_x25519 l)) @ opt_member ''ml_kem_pub'' (map_option JStr (fl_ml_kem l)))"

definition friend_link_of :: "json \<Rightarrow> friend_link option" where
  "friend_link_of j = do {
     ms \<leftarrow> as_fields [''v'', ''did'', ''name'', ''node_ticket'', ''x25519_pub'', ''ml_kem_pub''] j;
     v \<leftarrow> Option.bind (map_of ms ''v'') (j_nat 8); d \<leftarrow> f_str ''did'' ms; n \<leftarrow> f_str_dflt ''name'' ms;
     t \<leftarrow> f_opt j_str ''node_ticket'' ms; x \<leftarrow> f_opt j_str ''x25519_pub'' ms; k \<leftarrow> f_opt j_str ''ml_kem_pub'' ms;
     Some \<lparr>fl_v = v, fl_did = d, fl_name = n, fl_node_ticket = t, fl_x25519 = x, fl_ml_kem = k\<rparr> }"

definition my_friend_link :: "env \<Rightarrow> string io" where
  "my_friend_link E = bindD (own_profile E) (\<lambda>me. bindD (my_pubkeys E) (\<lambda>keys. bindD (my_ticket E) (\<lambda>ticket.
     retD (''hey-friend:'' @ en_b64url_enc E (as_bytes (en_text E (friend_link_json \<lparr>fl_v = FRIEND_LINK_VERSION,
       fl_did = pr_did_key me, fl_name = pr_name me, fl_node_ticket = ticket, fl_x25519 = map_option pk_x25519 keys,
       fl_ml_kem = map_option pk_ml_kem keys\<rparr>)))))))"

definition decode_friend_link :: "env \<Rightarrow> string \<Rightarrow> friend_link res" where
  "decode_friend_link E token = (let t = trim token in
     if is_did t then Inr \<lparr>fl_v = FRIEND_LINK_VERSION, fl_did = t, fl_name = [], fl_node_ticket = None,
       fl_x25519 = None, fl_ml_kem = None\<rparr>
     else bindR (of_option ''not a hey-friend link or did:key'' (strip_prefix ''hey-friend:'' t)) (\<lambda>b64.
       bindR (of_option ''friend link base64'' (en_b64url_dec E (trim b64))) (\<lambda>bytes.
       bindR (of_option ''friend link json'' (Option.bind (en_parse E (of_bytes bytes)) friend_link_of)) (\<lambda>link.
       if is_did (fl_did link) then Inr link else Inl (Error ''friend link did is not a did:key'')))))"

definition follow_link :: "env \<Rightarrow> string \<Rightarrow> string io" where
  "follow_link E token = bindD (liftD (decode_friend_link E token)) (\<lambda>link.
     bindD (follow_user_with E (fl_did link) (fl_node_ticket link)) (\<lambda>_.
     bindD (cache_peer_name E (fl_did link) (fl_name link)) (\<lambda>_.
     bindD (case (fl_x25519 link, fl_ml_kem link) of
        (Some x, Some k) \<Rightarrow> ignoreD (bootstrap_contact_from_keys E (fl_did link) (fl_name link)
          \<lparr>pk_x25519 = x, pk_ml_kem = k\<rparr> (fl_node_ticket link) True)
      | _ \<Rightarrow> retD ()) (\<lambda>_. retD (fl_did link)))))"

section \<open>Editing the profile\<close>

record profile_update =
  pu_name :: "string option"
  pu_bio :: "string option"
  pu_avatar :: "string option"

definition apply_update :: "profile_update \<Rightarrow> profile \<Rightarrow> profile" where
  "apply_update patch me = (let
     m1 = (case pu_name patch of Some n \<Rightarrow> me\<lparr>pr_name := take_chars 30 (trim n)\<rparr> | None \<Rightarrow> me);
     m2 = (case pu_bio patch of Some b \<Rightarrow> m1\<lparr>pr_bio := take_chars 280 b\<rparr> | None \<Rightarrow> m1)
     in case pu_avatar patch of Some a \<Rightarrow> m2\<lparr>pr_avatar := a\<rparr> | None \<Rightarrow> m2)"

definition update_profile :: "env \<Rightarrow> profile_update \<Rightarrow> profile io" where
  "update_profile E patch = bindD (own_profile E) (\<lambda>me0. let me = apply_update patch me0 in
     bindD (write_profile E me) (\<lambda>_. bindD (publish_and_announce_profile E) (\<lambda>_. retD me)))"

text \<open>\<open>media::compress_image\<close>; the decoding and drawing of the browser gives a data URL.\<close>

definition MIN_BYTES_TO_COMPRESS :: nat where "MIN_BYTES_TO_COMPRESS = 64 * 1024"

definition webp_of :: "prims \<Rightarrow> nat \<Rightarrow> string \<Rightarrow> bytes option" where
  "webp_of P n data_url = (if \<not> starts_with data_url ''data:image/webp'' then None
     else case dropWhile (\<lambda>c. c \<noteq> CHR '','') data_url of [] \<Rightarrow> None
       | _ # b64 \<Rightarrow> Option.bind (b64_dec P b64) (\<lambda>out. if out = [] \<or> length out \<ge> n then None else Some out))"

definition compress_image :: "env \<Rightarrow> bytes \<Rightarrow> string \<Rightarrow> (bytes \<times> string) option io" where
  "compress_image E bs mime = (if \<not> starts_with mime ''image/'' \<or> mime = ''image/gif'' then retD None
     else if length bs < MIN_BYTES_TO_COMPRESS then retD None
     else bindD (callD (\<lambda>k. Inr (en_canvas E k bs mime))) (\<lambda>url.
       retD (map_option (\<lambda>out. (out, ''image/webp'')) (Option.bind url (webp_of (en_prims E) (length bs))))))"

definition gateway_url :: "env \<Rightarrow> string \<Rightarrow> string option \<Rightarrow> string" where
  "gateway_url E cid path = en_api_base E @ ''/ipfs/'' @ en_encode_uri E cid @
     (case path of Some p \<Rightarrow> ''/'' @ dropWhile (\<lambda>c. c = CHR ''/'') p | None \<Rightarrow> [])"

definition upload_avatar :: "env \<Rightarrow> bytes \<Rightarrow> string \<Rightarrow> profile io" where
  "upload_avatar E bs mime = bindD (compress_image E bs mime) (\<lambda>c.
     bindD (add_bytes E (case c of Some (b, _) \<Rightarrow> b | None \<Rightarrow> bs)) (\<lambda>rsp.
     bindD (liftD (of_option ''content.publish returned no cid'' (extract_cid rsp))) (\<lambda>cid.
     update_profile E \<lparr>pu_name = None, pu_bio = None, pu_avatar = Some (gateway_url E cid None)\<rparr>)))"

end
