(* ===== verification/Social_Posts.thy ===== *)
theory Social_Posts
imports Social_Profile
begin

text \<open>
  Posts, the feed and their overlays (\<open>capsules/hey-social/src/api/posts.rs\<close>): creating and
  deleting a post, the pinned index of the own posts and the backfill from the index of
  another user, reactions, reposts and comments, and the upload of media.
\<close>

section \<open>Storage\<close>

definition FEED_INDEX :: string where "FEED_INDEX = ''posts/feed.json''"

definition post_path :: "string \<Rightarrow> string" where
  "post_path pid = ''posts/by-id/'' @ pid @ ''.json''"

definition read_post :: "env \<Rightarrow> string \<Rightarrow> post option io" where
  "read_post E pid = readS E (post_path pid) (\<lambda>f. sf_posts f (post_path pid))"

definition write_post :: "env \<Rightarrow> post \<Rightarrow> unit io" where
  "write_post E post = saveS E (post_path (po_id post))
     (\<lambda>f. f\<lparr>sf_posts := (sf_posts f)(post_path (po_id post) := Some post)\<rparr>)"

definition remove_post :: "env \<Rightarrow> string \<Rightarrow> unit io" where
  "remove_post E pid = saveS E (post_path pid) (\<lambda>f. f\<lparr>sf_posts := (sf_posts f)(post_path pid := None)\<rparr>)"

definition read_feed_index :: "env \<Rightarrow> feed_entry list io" where
  "read_feed_index E = bindD (readS E FEED_INDEX sf_feed) (\<lambda>v. retD (case v of Some l \<Rightarrow> l | None \<Rightarrow> []))"

definition write_feed_index :: "env \<Rightarrow> feed_entry list \<Rightarrow> unit io" where
  "write_feed_index E idx = saveS E FEED_INDEX (\<lambda>f. f\<lparr>sf_feed := Some idx\<rparr>)"

section \<open>The index of the own posts\<close>

definition feed_entry_json :: "feed_entry \<Rightarrow> json" where
  "feed_entry_json e = JObj ([(''id'', JStr (fe_id e)), (''ts'', JInt (fe_ts e)), (''author'', JStr (fe_author e))]
     @ opt_member ''post_cid'' (map_option JStr (fe_post_cid e)))"

definition feed_entry_of :: "json \<Rightarrow> feed_entry option" where
  "feed_entry_of j = do {
     ms \<leftarrow> as_fields [''id'', ''ts'', ''author'', ''post_cid''] j;
     i \<leftarrow> f_str ''id'' ms; t \<leftarrow> Option.bind (map_of ms ''ts'') j_i64; a \<leftarrow> f_str ''author'' ms; c \<leftarrow> f_opt j_str ''post_cid'' ms;
     Some \<lparr>fe_id = i, fe_ts = t, fe_author = a, fe_post_cid = c\<rparr> }"

definition index_json :: "feed_entry list \<Rightarrow> json" where
  "index_json l = JArr (map feed_entry_json l)"

definition index_of :: "json \<Rightarrow> feed_entry list option" where
  "index_of j = Option.bind (j_arr j) (\<lambda>vs. those (map feed_entry_of vs))"

definition own_entries :: "string \<Rightarrow> feed_entry list \<Rightarrow> feed_entry list" where
  "own_entries me feed = filter (\<lambda>e. fe_author e = me \<and> fe_post_cid e \<noteq> None) feed"

definition publish_own_index :: "env \<Rightarrow> string option io" where
  "publish_own_index E = bindD (getD dv_session) (\<lambda>s. case s of None \<Rightarrow> retD None
     | Some u \<Rightarrow> if ss_did_key u = [] then retD None else
       bindD (okD (read_feed_index E)) (\<lambda>r. case r of None \<Rightarrow> retD None
       | Some feed \<Rightarrow> bindD (okD (add_bytes E (as_bytes (en_text E (index_json (own_entries (ss_did_key u) feed)))))) (\<lambda>rsp.
           case Option.bind rsp extract_cid of None \<Rightarrow> retD None
           | Some cid \<Rightarrow> bindD (set_posts_head E cid) (\<lambda>_. retD (Some cid)))))"

definition publish_and_announce_head :: "env \<Rightarrow> unit io" where
  "publish_and_announce_head E = bindD (publish_own_index E) (\<lambda>h. case h of None \<Rightarrow> retD ()
     | Some head \<Rightarrow> bindD (getD dv_session) (\<lambda>s. case s of None \<Rightarrow> retD ()
         | Some u \<Rightarrow> ignoreD (sign_and_publish E (posts_topic (ss_did_key u)) ''posts.head'' (head_json head))))"

section \<open>Posts of others\<close>

definition materialize_post_from_cid :: "env \<Rightarrow> string \<Rightarrow> post option io" where
  "materialize_post_from_cid E post_cid = (if post_cid = [] then retD None
     else bindD (okD (get_bytes E post_cid)) (\<lambda>r. case r of None \<Rightarrow> retD None
       | Some bs \<Rightarrow> bindD (okD (liftD (decode_post_metadata E bs))) (\<lambda>b. case b of None \<Rightarrow> retD None
           | Some body \<Rightarrow> bindD (uuidD E) (\<lambda>uid. retD (Some (materialize_from_ipld uid body post_cid))))))"

definition feed_entry_for :: "post \<Rightarrow> string \<Rightarrow> feed_entry" where
  "feed_entry_for post cid = \<lparr>fe_id = po_id post, fe_ts = po_ts post, fe_author = po_user_did post, fe_post_cid = Some cid\<rparr>"

text \<open>The loop of the backfill: the set of known CIDs is computed before it and not updated.\<close>

fun backfill_loop :: "env \<Rightarrow> string \<Rightarrow> string set \<Rightarrow> feed_entry list \<Rightarrow> feed_entry list \<Rightarrow> bool \<Rightarrow> (feed_entry list \<times> bool) io" where
  "backfill_loop E author have_cids [] feed added = retD (feed, added)"
| "backfill_loop E author have_cids (e # es) feed added = (case fe_post_cid e of
     None \<Rightarrow> backfill_loop E author have_cids es feed added
   | Some cid \<Rightarrow> if cid \<in> have_cids then backfill_loop E author have_cids es feed added
     else bindD (materialize_post_from_cid E cid) (\<lambda>r. case r of
         None \<Rightarrow> backfill_loop E author have_cids es feed added
       | Some p \<Rightarrow> if po_user_did p \<noteq> author then backfill_loop E author have_cids es feed added
         else bindD (cache_peer_name E (po_user_did p) (po_user_name p)) (\<lambda>_.
           let q = p\<lparr>po_post_cid := Some cid\<rparr> in
           bindD (ignoreD (write_post E q)) (\<lambda>_. backfill_loop E author have_cids es (feed @ [feed_entry_for q cid]) True))))"

definition cids_of :: "feed_entry list \<Rightarrow> string list" where
  "cids_of feed = List.map_filter fe_post_cid feed"

definition backfill_from_index :: "env \<Rightarrow> string \<Rightarrow> string \<Rightarrow> unit io" where
  "backfill_from_index E author_did head_cid = (if head_cid = [] then retD ()
     else bindD (okD (get_bytes E head_cid)) (\<lambda>r. case Option.bind (Option.bind r (\<lambda>b. en_parse E (of_bytes b))) index_of of
       None \<Rightarrow> retD ()
     | Some index \<Rightarrow> bindD (okD (read_feed_index E)) (\<lambda>f. case f of None \<Rightarrow> retD ()
       | Some feed \<Rightarrow> bindD (backfill_loop E author_did (set (cids_of feed)) index feed False) (\<lambda>(feed', added).
           if added then ignoreD (write_feed_index E (sort_key (\<lambda>e. - fe_ts e) feed')) else retD ()))))"

section \<open>Reading the feed\<close>

text \<open>\<open>join_all\<close> of reads, which do not influence each other, and the loop that propagates the
  first error.\<close>

fun read_posts :: "env \<Rightarrow> string list \<Rightarrow> post list io" where
  "read_posts E [] = retD []"
| "read_posts E (i # is) = bindD (read_post E i) (\<lambda>r. bindD (read_posts E is) (\<lambda>ps.
     retD (case r of Some p \<Rightarrow> p # ps | None \<Rightarrow> ps)))"

definition get_posts :: "env \<Rightarrow> nat \<Rightarrow> post list io" where
  "get_posts E limit = bindD (read_feed_index E) (\<lambda>idx. read_posts E (map fe_id (take limit idx)))"

definition get_post :: "env \<Rightarrow> string \<Rightarrow> post option io" where
  "get_post E pid = read_post E pid"

definition get_user_posts :: "env \<Rightarrow> string \<Rightarrow> post list io" where
  "get_user_posts E did_or_id = bindD (okD (own_profile E)) (\<lambda>me.
     let target_did = (if is_did did_or_id then did_or_id
       else case me of Some m \<Rightarrow> if pr_id m = did_or_id then pr_did_key m else did_or_id | None \<Rightarrow> did_or_id)
     in bindD (get_posts E 500) (\<lambda>ps. retD (filter (\<lambda>p. po_user_did p = target_did) ps)))"

section \<open>Media\<close>

definition POST_MEDIA_MAX_BYTES :: nat where "POST_MEDIA_MAX_BYTES = 2 * 1024 * 1024"

record processed =
  pc_bytes :: bytes
  pc_mime :: string
  pc_transcoded :: bool

definition media_kind :: "string \<Rightarrow> string option" where
  "media_kind mime = (let m = to_ascii_lowercase mime in
     if starts_with m ''image/'' then Some ''image'' else if starts_with m ''video/'' then Some ''video''
     else if starts_with m ''audio/'' then Some ''audio'' else None)"

definition transcode_op :: "string \<Rightarrow> string" where
  "transcode_op k = (if k = ''image'' then ''transcode_image'' else if k = ''video'' then ''transcode_video'' else ''transcode_voice'')"

definition transcode_body :: "prims \<Rightarrow> string \<Rightarrow> bytes \<Rightarrow> json" where
  "transcode_body P k bs = JObj ((''data'', JStr (b64_enc P bs)) #
     (if k = ''image'' then [(''target_format'', JStr ''avif''), (''max_dim'', JInt 2048), (''quality'', JInt 80), (''strip_metadata'', JBool True)]
      else if k = ''video'' then [(''target_codec'', JStr ''h264''), (''max_dim'', JInt 1080), (''crf'', JInt 23), (''fps'', JInt 30), (''preset'', JStr ''fast'')]
      else [(''target_codec'', JStr ''opus''), (''bitrate_k'', JInt 64), (''normalize_lufs'', JInt (-16))]))"

definition process_for_upload :: "env \<Rightarrow> bytes \<Rightarrow> string \<Rightarrow> processed io" where
  "process_for_upload E bs mime = (let same = \<lparr>pc_bytes = bs, pc_mime = mime, pc_transcoded = False\<rparr> in
     case media_kind mime of None \<Rightarrow> retD same
   | Some k \<Rightarrow> bindD (okD (callD (\<lambda>t. en_transcode E t (transcode_op k) (transcode_body (en_prims E) k bs)))) (\<lambda>r.
       case r of None \<Rightarrow> retD same
       | Some rsp \<Rightarrow> if Option.bind (j_get ''ok'' rsp) j_bool = Some False then retD same
           else (case (j_get_str ''data'' rsp, j_get_str ''format'' rsp) of
             (Some data, Some fmt) \<Rightarrow> bindD (liftD (of_option ''transcoder base64'' (b64_dec (en_prims E) data))) (\<lambda>d.
                retD \<lparr>pc_bytes = d, pc_mime = k @ ''/'' @ fmt, pc_transcoded = True\<rparr>)
           | _ \<Rightarrow> retD same)))"

definition ipfs_upload_media :: "env \<Rightarrow> bytes \<Rightarrow> string \<Rightarrow> string \<Rightarrow> media_tile io" where
  "ipfs_upload_media E bs filename mime = bindD (okD (process_for_upload E bs mime)) (\<lambda>r.
     let p = (case r of Some p \<Rightarrow> p | None \<Rightarrow> \<lparr>pc_bytes = bs, pc_mime = mime, pc_transcoded = False\<rparr>) in
     bindD (compress_image E (pc_bytes p) (pc_mime p)) (\<lambda>c.
     let (upload_bytes, upload_mime) = (case c of Some bm \<Rightarrow> bm | None \<Rightarrow> (pc_bytes p, pc_mime p)) in
     if length upload_bytes > POST_MEDIA_MAX_BYTES then failD ''File too large''
     else bindD (add_bytes E upload_bytes) (\<lambda>rsp.
       bindD (liftD (of_option ''content.publish returned no CID'' (extract_cid rsp))) (\<lambda>cid.
       retD \<lparr>mt_url = ''elastos://'' @ cid, mt_cid = cid,
         mt_type = (if starts_with upload_mime ''video/'' then ''video'' else ''photo''),
         mt_mime = upload_mime, mt_name = filename\<rparr>))))"

section \<open>Creating and deleting\<close>

definition fresh_post :: "string \<Rightarrow> profile \<Rightarrow> string \<Rightarrow> media_tile list \<Rightarrow> int \<Rightarrow> string \<Rightarrow> post" where
  "fresh_post pid me caption images ts today = \<lparr>po_id = pid, po_user_id = pr_id me, po_user_did = pr_did_key me,
     po_user_name = pr_name me, po_user_avatar = pr_avatar me, po_caption = take_chars 2200 caption, po_images = images,
     po_created_at = today, po_reactions = [], po_reposts = [], po_comments = [], po_ts = ts, po_post_cid = None\<rparr>"

text \<open>Pinning the body and announcing it; the post comes back with its CID, if it got one.\<close>

definition pin_and_announce :: "env \<Rightarrow> profile \<Rightarrow> post \<Rightarrow> post io" where
  "pin_and_announce E me post = (case encode_post_metadata E post of
     Inl (Error _) \<Rightarrow> retD post
   | Inl (Panic p) \<Rightarrow> liftD (Inl (Panic p))
   | Inr bs \<Rightarrow> bindD (okD (add_bytes E bs)) (\<lambda>rsp. case Option.bind rsp extract_cid of
       None \<Rightarrow> retD post
     | Some cid \<Rightarrow> bindD (ignoreD (sign_and_publish E (posts_topic (pr_did_key me)) ''post.create.v2''
           (JObj [(''post_cid'', JStr cid)]))) (\<lambda>_. retD (post\<lparr>po_post_cid := Some cid\<rparr>))))"

definition create_post :: "env \<Rightarrow> string \<Rightarrow> media_tile list \<Rightarrow> post io" where
  "create_post E caption images = bindD (own_profile E) (\<lambda>me. bindD (uuidD E) (\<lambda>pid. bindD (nowD E) (\<lambda>ts.
     bindD (getD (\<lambda>d. en_today E (dv_tick d))) (\<lambda>today.
     bindD (pin_and_announce E me (fresh_post pid me caption images ts today)) (\<lambda>post.
     bindD (write_post E post) (\<lambda>_. bindD (read_feed_index E) (\<lambda>idx.
     bindD (write_feed_index E (\<lparr>fe_id = pid, fe_ts = ts, fe_author = pr_did_key me, fe_post_cid = po_post_cid post\<rparr> # idx)) (\<lambda>_.
     bindD (publish_and_announce_head E) (\<lambda>_. retD post)))))))))"

definition delete_post :: "env \<Rightarrow> string \<Rightarrow> unit io" where
  "delete_post E post_id = bindD (own_profile E) (\<lambda>me. bindD (read_post E post_id) (\<lambda>r. case r of
     None \<Rightarrow> failD ''Post not found''
   | Some post \<Rightarrow> if po_user_did post \<noteq> pr_did_key me then failD ''Not your post''
     else bindD (ignoreD (remove_post E post_id)) (\<lambda>_. bindD (read_feed_index E) (\<lambda>idx.
       bindD (write_feed_index E (filter (\<lambda>e. fe_id e \<noteq> post_id) idx)) (\<lambda>_. bindD (nowD E) (\<lambda>now.
       bindD (ignoreD (sign_and_publish E (posts_topic (pr_did_key me)) ''post.delete''
         (JObj [(''post_id'', JStr post_id), (''ts'', JInt now)]))) (\<lambda>_.
       publish_and_announce_head E)))))))"

section \<open>Overlays\<close>

definition put_member :: "string \<Rightarrow> json \<Rightarrow> (string \<times> json) list \<Rightarrow> (string \<times> json) list" where
  "put_member k v ms = (if map_of ms k = None then ms @ [(k, v)] else map (\<lambda>(j, w). if j = k then (j, v) else (j, w)) ms)"

definition drop_member :: "string \<Rightarrow> (string \<times> json) list \<Rightarrow> (string \<times> json) list" where
  "drop_member k ms = filter (\<lambda>m. fst m \<noteq> k) ms"

definition toggle_did :: "string \<Rightarrow> json list \<Rightarrow> json list" where
  "toggle_did did l = (if JStr did \<in> set l then remove1 (JStr did) l else l @ [JStr did])"

text \<open>The reaction of a DID with an emoji, switched on or off; \<open>None\<close> where the entry is not a list.\<close>

definition toggle_reaction :: "string \<Rightarrow> string \<Rightarrow> (string \<times> json) list \<Rightarrow> (string \<times> json) list option" where
  "toggle_reaction emoji did reactions = (case (case map_of reactions emoji of Some v \<Rightarrow> j_arr v | None \<Rightarrow> Some []) of
     None \<Rightarrow> None
   | Some l \<Rightarrow> let l' = toggle_did did l in
       Some (if l' = [] then drop_member emoji reactions else put_member emoji (JArr l') reactions))"

definition react_to_post :: "env \<Rightarrow> string \<Rightarrow> string \<Rightarrow> post io" where
  "react_to_post E post_id emoji = bindD (own_profile E) (\<lambda>me. bindD (read_post E post_id) (\<lambda>r.
     bindD (liftD (of_option ''Post not found'' r)) (\<lambda>post.
     bindD (liftD (of_option ''bad reactions shape'' (toggle_reaction emoji (pr_did_key me) (po_reactions post)))) (\<lambda>rs.
     let post' = post\<lparr>po_reactions := rs\<rparr> in
     bindD (write_post E post') (\<lambda>_. bindD (nowD E) (\<lambda>now.
     bindD (ignoreD (sign_and_publish E (posts_topic (po_user_did post)) ''post.react''
       (JObj [(''post_id'', JStr post_id), (''emoji'', JStr emoji), (''reactor_did'', JStr (pr_did_key me)), (''ts'', JInt now)]))) (\<lambda>_.
     retD post')))))))"

definition repost :: "env \<Rightarrow> string \<Rightarrow> post io" where
  "repost E post_id = bindD (own_profile E) (\<lambda>me. bindD (read_post E post_id) (\<lambda>r.
     bindD (liftD (of_option ''Post not found'' r)) (\<lambda>post.
     let post' = post\<lparr>po_reposts := (if pr_did_key me \<in> set (po_reposts post) then po_reposts post
           else po_reposts post @ [pr_did_key me])\<rparr> in
     bindD (write_post E post') (\<lambda>_. bindD (nowD E) (\<lambda>now.
     bindD (ignoreD (sign_and_publish E (posts_topic (po_user_did post)) ''post.repost''
       (JObj [(''post_id'', JStr post_id), (''reposter_did'', JStr (pr_did_key me)), (''ts'', JInt now)]))) (\<lambda>_.
     retD post'))))))"

definition comment_json :: "comment \<Rightarrow> json" where
  "comment_json c = JObj [(''id'', JStr (cm_id c)), (''user_id'', JStr (cm_user_id c)), (''userDid'', JStr (cm_user_did c)),
     (''userName'', JStr (cm_user_name c)), (''text'', JStr (cm_text c)), (''parentId'', opt_json (cm_parent_id c)),
     (''createdAt'', JStr (cm_created_at c)), (''reactions'', JObj (cm_reactions c)), (''ts'', JInt (cm_ts c))]"

fun j_obj :: "json \<Rightarrow> (string \<times> json) list option" where
  "j_obj (JObj ms) = Some ms"
| "j_obj _ = None"

definition comment_of :: "json \<Rightarrow> comment option" where
  "comment_of j = do {
     ms \<leftarrow> as_fields [''id'', ''user_id'', ''userDid'', ''userName'', ''text'', ''parentId'', ''createdAt'', ''reactions'', ''ts''] j;
     i \<leftarrow> f_str ''id'' ms; ui \<leftarrow> f_str_dflt ''user_id'' ms; ud \<leftarrow> f_str_dflt ''userDid'' ms; un \<leftarrow> f_str_dflt ''userName'' ms;
     tx \<leftarrow> f_str_dflt ''text'' ms; pa \<leftarrow> f_opt j_str ''parentId'' ms; ca \<leftarrow> f_str_dflt ''createdAt'' ms;
     rs \<leftarrow> (case map_of ms ''reactions'' of None \<Rightarrow> Some [] | Some v \<Rightarrow> j_obj v);
     ts \<leftarrow> (case map_of ms ''ts'' of None \<Rightarrow> Some 0 | Some v \<Rightarrow> j_i64 v);
     Some \<lparr>cm_id = i, cm_user_id = ui, cm_user_did = ud, cm_user_name = un, cm_text = tx, cm_parent_id = pa,
       cm_created_at = ca, cm_reactions = rs, cm_ts = ts\<rparr> }"

definition add_comment :: "env \<Rightarrow> string \<Rightarrow> string \<Rightarrow> string option \<Rightarrow> post io" where
  "add_comment E post_id txt parent_id = bindD (own_profile E) (\<lambda>me. bindD (read_post E post_id) (\<lambda>r.
     bindD (liftD (of_option ''Post not found'' r)) (\<lambda>post. bindD (uuidD E) (\<lambda>cid.
     bindD (getD (\<lambda>d. en_today E (dv_tick d))) (\<lambda>today. bindD (nowD E) (\<lambda>now.
     let c = \<lparr>cm_id = cid, cm_user_id = pr_id me, cm_user_did = pr_did_key me, cm_user_name = pr_name me,
           cm_text = take_chars 500 txt, cm_parent_id = parent_id, cm_created_at = today, cm_reactions = [], cm_ts = now\<rparr>;
         post' = post\<lparr>po_comments := po_comments post @ [c]\<rparr> in
     bindD (write_post E post') (\<lambda>_.
     bindD (ignoreD (sign_and_publish E (posts_topic (po_user_did post)) ''post.comment''
       (JObj [(''post_id'', JStr post_id), (''comment'', comment_json c)]))) (\<lambda>_.
     retD post'))))))))"

definition delete_comment :: "env \<Rightarrow> string \<Rightarrow> string \<Rightarrow> post io" where
  "delete_comment E post_id comment_id = bindD (own_profile E) (\<lambda>me. bindD (read_post E post_id) (\<lambda>r.
     bindD (liftD (of_option ''Post not found'' r)) (\<lambda>post.
     if \<not> list_ex (\<lambda>c. cm_id c = comment_id \<and> cm_user_did c = pr_did_key me) (po_comments post) then failD ''Not your comment''
     else let post' = post\<lparr>po_comments := filter (\<lambda>c. cm_id c \<noteq> comment_id \<and> cm_parent_id c \<noteq> Some comment_id) (po_comments post)\<rparr> in
     bindD (write_post E post') (\<lambda>_.
     bindD (ignoreD (sign_and_publish E (posts_topic (po_user_did post)) ''post.comment.delete''
       (JObj [(''post_id'', JStr post_id), (''comment_id'', JStr comment_id)]))) (\<lambda>_.
     retD post')))))"

end
