(* ===== verification/Social_Groups.thy ===== *)
theory Social_Groups
imports Social_Posts Wire "HOL-Library.List_Lexorder" "HOL-Library.Char_ord"
begin

text \<open>
  The group chat of the social application (\<open>capsules/hey-social/src/api/groups.rs\<close>): every
  message is sealed once per member and carries the roster, and a receiver adopts the union of
  the rosters it sees.
\<close>

section \<open>Storage\<close>

definition GROUPS_INDEX :: string where "GROUPS_INDEX = ''groups/index.json''"

definition group_msgs_path :: "string \<Rightarrow> string" where
  "group_msgs_path group_id = ''groups/by-id/'' @ path_safe group_id @ ''.json''"

definition list_social_groups :: "env \<Rightarrow> social_group list io" where
  "list_social_groups E = loadS E GROUPS_INDEX sf_groups []"

definition write_social_groups :: "env \<Rightarrow> social_group list \<Rightarrow> unit io" where
  "write_social_groups E l = saveS E GROUPS_INDEX (\<lambda>f. f\<lparr>sf_groups := Some l\<rparr>)"

definition read_group :: "env \<Rightarrow> string \<Rightarrow> social_group option io" where
  "read_group E group_id = bindD (list_social_groups E) (\<lambda>l. retD (find (\<lambda>g. sg_id g = group_id) l))"

definition read_messages :: "env \<Rightarrow> string \<Rightarrow> social_message list io" where
  "read_messages E group_id = loadS E (group_msgs_path group_id) (\<lambda>f. sf_group_msgs f (group_msgs_path group_id)) []"

definition write_messages :: "env \<Rightarrow> string \<Rightarrow> social_message list \<Rightarrow> unit io" where
  "write_messages E group_id msgs = saveS E (group_msgs_path group_id)
     (\<lambda>f. f\<lparr>sf_group_msgs := (sf_group_msgs f)(group_msgs_path group_id := Some msgs)\<rparr>)"

definition mark_social_read :: "env \<Rightarrow> string \<Rightarrow> unit io" where
  "mark_social_read E group_id = bindD (list_social_groups E) (\<lambda>l.
     if find (\<lambda>g. sg_id g = group_id) l = None then retD ()
     else ignoreD (write_social_groups E (upd_first (\<lambda>g. sg_id g = group_id) (\<lambda>g. g\<lparr>sg_unread := 0\<rparr>) l)))"

section \<open>Merging\<close>

fun add_members :: "string list \<Rightarrow> string list \<Rightarrow> string list" where
  "add_members ms [] = ms"
| "add_members ms (x # xs) = add_members (if x \<in> set ms then ms else ms @ [x]) xs"

definition merge_group :: "social_group \<Rightarrow> social_group \<Rightarrow> social_group" where
  "merge_group updated g = (let
     g1 = g\<lparr>sg_name := sg_name updated, sg_members := add_members (sg_members g) (sg_members updated)\<rparr>;
     g2 = (if sg_last_ts updated > sg_last_ts g1
           then g1\<lparr>sg_last_ts := sg_last_ts updated, sg_last_preview := sg_last_preview updated\<rparr> else g1)
     in g2\<lparr>sg_unread := sat_add32 (sg_unread g2) (sg_unread updated)\<rparr>)"

definition sort_groups :: "social_group list \<Rightarrow> social_group list" where
  "sort_groups l = sort_key (\<lambda>g. - sg_last_ts g) l"

definition merged_groups :: "social_group \<Rightarrow> social_group list \<Rightarrow> social_group list" where
  "merged_groups updated l = (if find (\<lambda>g. sg_id g = sg_id updated) l = None then l @ [updated]
     else upd_first (\<lambda>g. sg_id g = sg_id updated) (merge_group updated) l)"

definition upsert_group :: "env \<Rightarrow> social_group \<Rightarrow> unit io" where
  "upsert_group E updated = bindD (list_social_groups E) (\<lambda>l.
     ignoreD (write_social_groups E (sort_groups (merged_groups updated l))))"

section \<open>Sealing\<close>

definition open_group_envelope :: "env \<Rightarrow> hpq_envelope \<Rightarrow> string io" where
  "open_group_envelope E envl = bindD (liftD (envelope_recipient_inputs (en_prims E) envl)) (\<lambda>(eph, kem_ct).
     bindD (callD (\<lambda>t. en_dh E t eph)) (\<lambda>x. bindD (callD (\<lambda>t. en_decaps E t kem_ct)) (\<lambda>k.
     bindD (liftD (shared_from (en_prims E) x)) (\<lambda>xs. bindD (liftD (shared_from (en_prims E) k)) (\<lambda>ks.
     liftD (open_with_secrets (en_prims E) envl xs ks))))))"

definition attachments_json :: "attachment list \<Rightarrow> json" where
  "attachments_json atts = (if atts = [] then JNull else JArr (map attachment_json atts))"

definition group_payload :: "social_group \<Rightarrow> string \<Rightarrow> peer_keys option \<Rightarrow> json \<Rightarrow> (string \<times> json) list \<Rightarrow> int \<Rightarrow> (string \<times> json) list \<Rightarrow> json" where
  "group_payload grp name my_pub atts content now extra = JObj ([(''group_id'', JStr (sg_id grp)),
     (''group_name'', JStr (sg_name grp)), (''members'', JArr (map JStr (sg_members grp))),
     (''sender_name'', JStr name), (''sender_pubkeys'', (case my_pub of Some k \<Rightarrow> peer_keys_json k | None \<Rightarrow> JNull))]
     @ content @ [(''attachments'', atts), (''ts'', JInt now)] @ extra)"

text \<open>What goes to one member, or \<open>None\<close> where the code goes on to the next: an envelope when
  the keys of the member are known, plain text otherwise.\<close>

definition member_payload :: "env \<Rightarrow> social_group \<Rightarrow> string \<Rightarrow> peer_keys option \<Rightarrow> json \<Rightarrow> string \<Rightarrow> peer_keys option \<Rightarrow> json option io" where
  "member_payload E grp name my_pub atts txt peer_keys = (case peer_keys of
     None \<Rightarrow> bindD (nowD E) (\<lambda>now. retD (Some (group_payload grp name my_pub atts [(''text'', JStr txt)] now [(''bootstrap'', JBool True)])))
   | Some pk \<Rightarrow> (case b64_dec (en_prims E) (pk_x25519 pk) of None \<Rightarrow> retD None
     | Some x \<Rightarrow> if length x \<noteq> 32 then retD None else
       (case b64_dec (en_prims E) (pk_ml_kem pk) of None \<Rightarrow> retD None
       | Some kem \<Rightarrow> bindD (drawD E 32) (\<lambda>eph. bindD (drawD E 32) (\<lambda>r. bindD (drawD E 12) (\<lambda>nonce.
           bindD (okD (liftD (encrypt_to_hybrid (en_prims E) txt x kem eph r nonce))) (\<lambda>e. case e of
             None \<Rightarrow> retD None
           | Some envl \<Rightarrow> bindD (nowD E) (\<lambda>now. retD (Some (group_payload grp name my_pub atts [(''envelope'', envelope_json envl)] now []))))))))))"

definition dm_topic :: "string \<Rightarrow> string" where "dm_topic did = ''hey-v0/dm/'' @ did"

definition send_to_member :: "env \<Rightarrow> social_group \<Rightarrow> profile \<Rightarrow> peer_keys option \<Rightarrow> json \<Rightarrow> string \<Rightarrow> string \<Rightarrow> string \<Rightarrow> unit io" where
  "send_to_member E grp me my_pub atts txt event_type member_did = (if member_did = pr_did_key me then retD ()
     else bindD (get_peer_keys E member_did) (\<lambda>keys.
       bindD (member_payload E grp (pr_name me) my_pub atts txt keys) (\<lambda>p. case p of None \<Rightarrow> retD ()
       | Some payload \<Rightarrow> bindD (okD (signed_eventD E event_type payload)) (\<lambda>ev. case ev of None \<Rightarrow> retD ()
           | Some evt \<Rightarrow> bindD (ignoreD (join_topic E (dm_topic member_did))) (\<lambda>_.
               ignoreD (gossip_send E (dm_topic member_did) evt))))))"

definition send_group_event_with_attachments :: "env \<Rightarrow> social_group \<Rightarrow> string \<Rightarrow> string \<Rightarrow> attachment list \<Rightarrow> unit io" where
  "send_group_event_with_attachments E grp txt event_type atts = bindD (own_profile E) (\<lambda>me.
     bindD (getD dv_session) (\<lambda>s. if s = None then failD ''not signed in''
     else bindD (my_pubkeys E) (\<lambda>my_pub.
       forD (send_to_member E grp me my_pub (attachments_json atts) txt event_type) (sg_members grp))))"

definition send_group_event :: "env \<Rightarrow> social_group \<Rightarrow> string \<Rightarrow> string \<Rightarrow> unit io" where
  "send_group_event E grp txt event_type = send_group_event_with_attachments E grp txt event_type []"

section \<open>Creating and sending\<close>

definition create_social_group :: "env \<Rightarrow> string \<Rightarrow> string list \<Rightarrow> social_group io" where
  "create_social_group E name members = bindD (own_profile E) (\<lambda>me.
     let all_members = remdups_adj (sort (filter (\<lambda>m. is_did m \<and> m \<noteq> pr_did_key me) members)) in
     if all_members = [] then failD ''Add at least one member.''
     else bindD (uuidD E) (\<lambda>gid. bindD (nowD E) (\<lambda>now.
       let grp = \<lparr>sg_id = gid, sg_name = take_chars 60 (trim name), sg_members = all_members, sg_creator_did = pr_did_key me,
             sg_created_at = now, sg_last_ts = now, sg_last_preview = ''Group created'', sg_unread = 0\<rparr> in
       bindD (list_social_groups E) (\<lambda>l. bindD (ignoreD (write_social_groups E (grp # l))) (\<lambda>_.
       bindD (ignoreD (send_group_event E grp ''Group created'' ''group.create.v1'')) (\<lambda>_. retD grp))))))"

definition clip :: string where "clip = utf8 [240, 159, 147, 142, 32]"

definition send_social_message_inner :: "env \<Rightarrow> string \<Rightarrow> string \<Rightarrow> attachment list \<Rightarrow> social_message io" where
  "send_social_message_inner E group_id txt atts = (if trim txt = [] \<and> atts = [] then failD ''empty message''
     else bindD (own_profile E) (\<lambda>me. bindD (read_group E group_id) (\<lambda>g.
     bindD (liftD (of_option ''group not found'' g)) (\<lambda>grp.
     let body = take_chars 4096 (trim txt) in
     bindD (uuidD E) (\<lambda>mid. bindD (nowD E) (\<lambda>now.
     let msg = \<lparr>sm_id = mid, sm_group_id = group_id, sm_sender_did = pr_did_key me, sm_sender_name = pr_name me,
           sm_text = body, sm_ts = now, sm_mine = True, sm_encrypted = True, sm_attachments = atts\<rparr> in
     bindD (read_messages E group_id) (\<lambda>msgs. bindD (write_messages E group_id (msgs @ [msg])) (\<lambda>_.
     let preview = (if body = [] \<and> atts \<noteq> [] then clip @ at_name (hd atts) else take_chars 140 body) in
     bindD (list_social_groups E) (\<lambda>l.
     bindD (if find (\<lambda>g. sg_id g = group_id) l = None then retD ()
        else ignoreD (write_social_groups E (upd_first (\<lambda>g. sg_id g = group_id)
          (\<lambda>g. g\<lparr>sg_last_ts := now, sg_last_preview := preview\<rparr>) l))) (\<lambda>_.
     bindD (send_group_event_with_attachments E grp body ''group.message.v1'' atts) (\<lambda>_. retD msg)))))))))))"

definition send_social_message :: "env \<Rightarrow> string \<Rightarrow> string \<Rightarrow> social_message io" where
  "send_social_message E group_id txt = send_social_message_inner E group_id txt []"

definition send_social_message_with_attachments :: "env \<Rightarrow> string \<Rightarrow> string \<Rightarrow> attachment list \<Rightarrow> social_message io" where
  "send_social_message_with_attachments E group_id txt atts = send_social_message_inner E group_id txt atts"

section \<open>Receiving\<close>

text \<open>The roster a receiver reads from a payload: its members, the sender and itself.\<close>

definition implied_members :: "json \<Rightarrow> string \<Rightarrow> string \<Rightarrow> string list" where
  "implied_members payload sender me = (let
     m0 = (case Option.bind (j_get ''members'' payload) j_arr of Some a \<Rightarrow> List.map_filter j_str a | None \<Rightarrow> []);
     m1 = (if sender \<in> set m0 then m0 else m0 @ [sender]);
     m2 = (if me \<in> set m1 then m1 else m1 @ [me])
     in remdups_adj (sort m2))"

definition received_group :: "json \<Rightarrow> string \<Rightarrow> string \<Rightarrow> string \<Rightarrow> string \<Rightarrow> int \<Rightarrow> social_group" where
  "received_group payload event_type group_id sender me ts = \<lparr>sg_id = group_id,
     sg_name = (case j_get_str ''group_name'' payload of Some n \<Rightarrow> n | None \<Rightarrow> ''Group''),
     sg_members = implied_members payload sender me, sg_creator_did = sender, sg_created_at = ts, sg_last_ts = ts,
     sg_last_preview = take_chars 140 (if event_type = ''group.create.v1''
       then or_empty (j_get_str ''sender_name'' payload) @ '' created the group'' else or_empty (j_get_str ''text'' payload)),
     sg_unread = (if event_type = ''group.message.v1'' then 1 else 0)\<rparr>"

definition group_text :: "env \<Rightarrow> json \<Rightarrow> (string \<times> bool) io" where
  "group_text E payload = (case j_get ''envelope'' payload of
     Some v \<Rightarrow> bindD (liftD (of_option ''envelope shape'' (envelope_of v))) (\<lambda>envl.
       bindD (open_group_envelope E envl) (\<lambda>pt. retD (pt, True)))
   | None \<Rightarrow> (case j_get_str ''text'' payload of
       Some t \<Rightarrow> retD (t, False)
     | None \<Rightarrow> if Option.bind (j_get ''attachments'' payload) j_arr \<noteq> None then retD ([], False)
         else failD ''group.message.v1 has neither envelope nor text''))"

definition receive_event :: "env \<Rightarrow> string \<Rightarrow> string \<Rightarrow> json \<Rightarrow> unit io" where
  "receive_event E sender_did event_type payload = bindD (own_profile E) (\<lambda>me.
     if sender_did = pr_did_key me then retD ()
     else bindD (case Option.bind (j_get ''sender_pubkeys'' payload) peer_keys_of of
         Some k \<Rightarrow> cache_peer_keys E sender_did k | None \<Rightarrow> retD ()) (\<lambda>_.
     bindD (liftD (of_option ''group.* missing group_id'' (j_get_str ''group_id'' payload))) (\<lambda>group_id.
     bindD (case Option.bind (j_get ''ts'' payload) j_i64 of Some t \<Rightarrow> retD t | None \<Rightarrow> nowD E) (\<lambda>ts.
     bindD (upsert_group E (received_group payload event_type group_id sender_did (pr_did_key me) ts)) (\<lambda>_.
     if event_type = ''group.create.v1'' then retD ()
     else bindD (group_text E payload) (\<lambda>(txt, encrypted). bindD (uuidD E) (\<lambda>mid.
       let msg = \<lparr>sm_id = mid, sm_group_id = group_id, sm_sender_did = sender_did,
             sm_sender_name = or_empty (j_get_str ''sender_name'' payload), sm_text = take_chars 4096 txt, sm_ts = ts,
             sm_mine = False, sm_encrypted = encrypted, sm_attachments = attachments_from_body payload\<rparr> in
       bindD (read_messages E group_id) (\<lambda>msgs. write_messages E group_id (msgs @ [msg]))))))))) "

end
