(* ===== verification/Social_Receiver.thy ===== *)
theory Social_Receiver
imports Social_Groups
begin

text \<open>
  The federation handlers of the social application (\<open>capsules/hey-social/src/peer_receiver.rs\<close>),
  the table that registers them with the polling loop, the topics it polls, and the
  notifications (\<open>api/notifications.rs\<close>).
\<close>

section \<open>Notifications\<close>

definition NOTIFICATIONS_FILE :: string where "NOTIFICATIONS_FILE = ''notifications/index.json''"

definition notes_in :: "json \<Rightarrow> json list" where
  "notes_in wrap = (case Option.bind (j_get ''notifications'' wrap) j_arr of Some l \<Rightarrow> l | None \<Rightarrow> [])"

definition notes_json :: "json list \<Rightarrow> json" where
  "notes_json l = JObj [(''notifications'', JArr l)]"

definition write_notes :: "env \<Rightarrow> json list \<Rightarrow> unit io" where
  "write_notes E l = saveS E NOTIFICATIONS_FILE (\<lambda>f. f\<lparr>sf_notes := Some (notes_json l)\<rparr>)"

definition push_notification :: "env \<Rightarrow> json \<Rightarrow> unit io" where
  "push_notification E n = bindD (loadS E NOTIFICATIONS_FILE sf_notes (notes_json [])) (\<lambda>wrap.
     ignoreD (write_notes E (take 100 (n # notes_in wrap))))"

definition notification_of :: "json \<Rightarrow> notification option" where
  "notification_of j = do {
     ms \<leftarrow> as_fields [''id'', ''type'', ''from_did'', ''from_name'', ''ts'', ''read'', ''post_id'', ''emoji''] j;
     i \<leftarrow> f_str ''id'' ms; t \<leftarrow> f_str_dflt ''type'' ms; d \<leftarrow> f_str_dflt ''from_did'' ms; n \<leftarrow> f_str_dflt ''from_name'' ms;
     ts \<leftarrow> f_opt j_i64 ''ts'' ms;
     rd \<leftarrow> (case map_of ms ''read'' of None \<Rightarrow> Some False | Some v \<Rightarrow> j_bool v);
     p \<leftarrow> f_opt j_str ''post_id'' ms; em \<leftarrow> f_opt j_str ''emoji'' ms;
     Some \<lparr>no_id = i, no_event_type = t, no_from_did = d, no_from_name = n, no_ts = ts, no_read = rd, no_post_id = p, no_emoji = em\<rparr> }"

definition list_notifications :: "env \<Rightarrow> notification list io" where
  "list_notifications E = bindD (okD (readS E NOTIFICATIONS_FILE sf_notes)) (\<lambda>r. retD (case r of
     Some (Some wrap) \<Rightarrow> List.map_filter notification_of (notes_in wrap) | _ \<Rightarrow> []))"

definition unread_count :: "env \<Rightarrow> nat io" where
  "unread_count E = bindD (list_notifications E) (\<lambda>l. retD (length (filter (\<lambda>n. \<not> no_read n) l)))"

definition read_notes :: "env \<Rightarrow> json list io" where
  "read_notes E = bindD (readS E NOTIFICATIONS_FILE sf_notes) (\<lambda>r. retD (case r of Some wrap \<Rightarrow> notes_in wrap | None \<Rightarrow> []))"

fun mark_note :: "json \<Rightarrow> json" where
  "mark_note (JObj ms) = JObj (put_member ''read'' (JBool True) ms)"
| "mark_note v = v"

definition mark_all_read :: "env \<Rightarrow> unit io" where
  "mark_all_read E = bindD (read_notes E) (\<lambda>l. write_notes E (map mark_note l))"

definition delete_notification :: "env \<Rightarrow> string \<Rightarrow> unit io" where
  "delete_notification E nid = bindD (read_notes E) (\<lambda>l. write_notes E (filter (\<lambda>n. j_get_str ''id'' n \<noteq> Some nid) l))"

definition note_json :: "string \<Rightarrow> string \<Rightarrow> string \<Rightarrow> string \<Rightarrow> json \<Rightarrow> json" where
  "note_json nid knd from_did from_name payload = JObj [(''id'', JStr nid), (''type'', JStr knd), (''from_did'', JStr from_did),
     (''from_name'', JStr from_name), (''ts'', (case j_get ''ts'' payload of Some v \<Rightarrow> v | None \<Rightarrow> JNull)), (''read'', JBool False)]"

section \<open>Posts and profiles of others\<close>

definition handle_posts_head :: "env \<Rightarrow> json \<Rightarrow> string \<Rightarrow> unit io" where
  "handle_posts_head E payload sender_did = bindD (liftD (of_option ''posts.head missing head_cid'' (j_get_str ''head_cid'' payload))) (\<lambda>head.
     bindD (set_peer_head E sender_did head) (\<lambda>_. backfill_from_index E sender_did head))"

definition handle_profile_head :: "env \<Rightarrow> json \<Rightarrow> string \<Rightarrow> unit io" where
  "handle_profile_head E payload sender_did = (case j_get_str ''head_cid'' payload of
     Some head \<Rightarrow> fetch_peer_profile E sender_did head | None \<Rightarrow> retD ())"

definition handle_post_create :: "env \<Rightarrow> json \<Rightarrow> string \<Rightarrow> unit io" where
  "handle_post_create E payload sender_did = bindD (liftD (of_option ''post.create.v2 missing post_cid'' (j_get_str ''post_cid'' payload))) (\<lambda>cid.
     bindD (read_feed_index E) (\<lambda>idx. if list_ex (\<lambda>e. fe_post_cid e = Some cid) idx then retD ()
     else bindD (materialize_post_from_cid E cid) (\<lambda>r. case r of None \<Rightarrow> retD ()
       | Some p \<Rightarrow> if po_user_did p \<noteq> sender_did then retD ()
         else bindD (cache_peer_name E (po_user_did p) (po_user_name p)) (\<lambda>_.
           let q = p\<lparr>po_post_cid := Some cid\<rparr> in
           bindD (ignoreD (write_post E q)) (\<lambda>_. bindD (read_feed_index E) (\<lambda>idx2.
           write_feed_index E (feed_entry_for q cid # idx2)))))))"

definition handle_post_delete :: "env \<Rightarrow> json \<Rightarrow> unit io" where
  "handle_post_delete E payload = bindD (liftD (of_option ''post.delete missing post_id'' (j_get_str ''post_id'' payload))) (\<lambda>pid.
     bindD (read_feed_index E) (\<lambda>idx. bindD (ignoreD (remove_post E pid)) (\<lambda>_.
     write_feed_index E (filter (\<lambda>e. fe_id e \<noteq> pid) idx))))"

section \<open>Overlays\<close>

definition apply_react_overlay :: "env \<Rightarrow> string \<Rightarrow> string \<Rightarrow> string \<Rightarrow> unit io" where
  "apply_react_overlay E post_id emoji reactor = bindD (okD (read_post E post_id)) (\<lambda>r. case r of
     Some (Some post) \<Rightarrow> (case toggle_reaction emoji reactor (po_reactions post) of None \<Rightarrow> retD ()
       | Some rs \<Rightarrow> ignoreD (write_post E (post\<lparr>po_reactions := rs\<rparr>)))
   | _ \<Rightarrow> retD ())"

definition apply_comment_overlay :: "env \<Rightarrow> string \<Rightarrow> json \<Rightarrow> unit io" where
  "apply_comment_overlay E post_id comment_value = bindD (okD (read_post E post_id)) (\<lambda>r. case r of
     Some (Some post) \<Rightarrow> (case comment_of comment_value of None \<Rightarrow> retD ()
       | Some c \<Rightarrow> ignoreD (write_post E (post\<lparr>po_comments := po_comments post @ [c]\<rparr>)))
   | _ \<Rightarrow> retD ())"

definition handle_post_react :: "env \<Rightarrow> json \<Rightarrow> unit io" where
  "handle_post_react E payload = (case (j_get_str ''post_id'' payload, j_get_str ''emoji'' payload, j_get_str ''reactor_did'' payload) of
     (Some post_id, Some emoji, Some reactor) \<Rightarrow> apply_react_overlay E post_id emoji reactor | _ \<Rightarrow> retD ())"

definition handle_post_comment :: "env \<Rightarrow> json \<Rightarrow> unit io" where
  "handle_post_comment E payload = (case (j_get_str ''post_id'' payload, j_get ''comment'' payload) of
     (Some post_id, Some c) \<Rightarrow> apply_comment_overlay E post_id c | _ \<Rightarrow> retD ())"

section \<open>Followers, messages and groups\<close>

definition handle_follow_request :: "env \<Rightarrow> json \<Rightarrow> string \<Rightarrow> unit io" where
  "handle_follow_request E payload sender_did = (let ticket = j_get_str ''from_ticket'' payload;
       from_name = or_empty (j_get_str ''from_name'' payload) in
     bindD (record_follower E sender_did ticket) (\<lambda>_.
     bindD (if from_name \<noteq> [] then cache_peer_name E sender_did from_name else retD ()) (\<lambda>_.
     bindD (case (j_get_str ''from_x25519'' payload, j_get_str ''from_ml_kem'' payload) of
        (Some x, Some k) \<Rightarrow> ignoreD (bootstrap_contact_from_keys E sender_did from_name \<lparr>pk_x25519 = x, pk_ml_kem = k\<rparr> ticket True)
      | _ \<Rightarrow> retD ()) (\<lambda>_.
     bindD (uuidD E) (\<lambda>nid. push_notification E (note_json nid ''follow.request'' sender_did from_name payload))))))"

definition handle_follow_unfollow :: "env \<Rightarrow> json \<Rightarrow> string \<Rightarrow> unit io" where
  "handle_follow_unfollow E payload sender_did = remove_follower E sender_did"

definition handle_dm_notify :: "env \<Rightarrow> json \<Rightarrow> string \<Rightarrow> unit io" where
  "handle_dm_notify E payload sender_did = bindD (uuidD E) (\<lambda>nid.
     push_notification E (note_json nid ''dm.message'' sender_did [] payload))"

definition handle_group :: "env \<Rightarrow> string \<Rightarrow> json \<Rightarrow> string \<Rightarrow> unit io" where
  "handle_group E event_type payload sender_did = bindD (ignoreD (receive_event E sender_did event_type payload)) (\<lambda>_.
     if event_type = ''group.message.v1'' then bindD (uuidD E) (\<lambda>nid.
       push_notification E (note_json nid ''group.message'' sender_did (or_empty (j_get_str ''sender_name'' payload)) payload))
     else retD ())"

section \<open>Registration and topics\<close>

definition register :: "env \<Rightarrow> handlers" where
  "register E = map_of [
     (''post.create.v2'', handle_post_create E), (''posts.head'', handle_posts_head E),
     (''profile.head'', handle_profile_head E), (''post.delete'', \<lambda>payload _. handle_post_delete E payload),
     (''post.react'', \<lambda>payload _. handle_post_react E payload), (''post.comment'', \<lambda>payload _. handle_post_comment E payload),
     (''follow.request'', handle_follow_request E), (''follow.unfollow'', handle_follow_unfollow E),
     (''dm.message'', handle_dm_notify E), (''group.create.v1'', handle_group E ''group.create.v1''),
     (''group.message.v1'', handle_group E ''group.message.v1'')]"

text \<open>The throttled task the topic provider starts: \<open>Some b\<close> when it is due, with \<open>b\<close> saying
  whether the own index is published first. The task itself runs concurrently with the poll.\<close>

definition maybe_backfill_known_heads :: "env \<Rightarrow> bool option io" where
  "maybe_backfill_known_heads E = bindD (nowD E) (\<lambda>now. bindD (getD (\<lambda>d. sf_last_backfill (dv_social d))) (\<lambda>last_ms.
     if now - last_ms < 15000 then retD None
     else bindD (getD (\<lambda>d. \<not> sf_index_published (dv_social d))) (\<lambda>publish_own.
       bindD (modD (\<lambda>d. d\<lparr>dv_social := (dv_social d)\<lparr>sf_last_backfill := now, sf_index_published := True\<rparr>\<rparr>)) (\<lambda>_.
       retD (Some publish_own)))))"

definition backfill_task :: "env \<Rightarrow> bool \<Rightarrow> unit io" where
  "backfill_task E publish_own = bindD (if publish_own
       then bindD (publish_own_index E) (\<lambda>_. publish_and_announce_profile E) else retD ()) (\<lambda>_.
     bindD (all_peer_heads E) (forD (\<lambda>(did, head). backfill_from_index E did head)))"

fun followed_topics :: "env \<Rightarrow> string list \<Rightarrow> (string \<times> string list) list io" where
  "followed_topics E [] = retD []"
| "followed_topics E (did # dids) = bindD (peer_ticket_for E did) (\<lambda>t. bindD (followed_topics E dids) (\<lambda>ts.
     retD ((posts_topic did, case t of Some b \<Rightarrow> [b] | None \<Rightarrow> []) # ts)))"

definition extra_topics :: "env \<Rightarrow> (string \<times> string list) list io" where
  "extra_topics E = bindD (getD dv_session) (\<lambda>s. case s of None \<Rightarrow> retD []
     | Some u \<Rightarrow> if ss_did_key u = [] then retD []
       else bindD (read_follows E) (\<lambda>f. bindD (followed_topics E (fo_following f)) (\<lambda>ts.
         bindD (maybe_backfill_known_heads E) (\<lambda>_.
         retD ((posts_topic (ss_did_key u), []) # ts @ [(follow_topic (ss_did_key u), [])])))))"

text \<open>One turn of the shared polling loop as \<open>lib.rs\<close> starts it.\<close>

definition social_turn :: "env \<Rightarrow> unit io" where
  "social_turn E = run_turn E (register E) (extra_topics E) ''hey-social''"

end
