(* ===== verification/Social_Frames.thy ===== *)
theory Social_Frames
imports Social_Receiver Frames
begin

text \<open>
  What the operations of the social application leave alone. A relation between the social
  files that looks at the feed and the notifications only (\<open>social_relation\<close>) gives a relation
  between devices that the whole chat engine respects, and so does every operation that writes
  neither of the two files.
\<close>

section \<open>Relations between social files\<close>

locale social_relation =
  fixes S :: "social_files \<Rightarrow> social_files \<Rightarrow> bool"
  assumes S_refl: "S f f"
    and S_trans: "S f g \<Longrightarrow> S g h \<Longrightarrow> S f h"
    and S_profile: "S f (f\<lparr>sf_profile := a\<rparr>)"
    and S_follows: "S f (f\<lparr>sf_follows := b\<rparr>)"
    and S_posts: "S f (f\<lparr>sf_posts := p\<rparr>)"
    and S_caches: "S f (f\<lparr>sf_tickets := t\<rparr>)" "S f (f\<lparr>sf_heads := t\<rparr>)" "S f (f\<lparr>sf_names := t\<rparr>)" "S f (f\<lparr>sf_profiles := q\<rparr>)"
    and S_groups: "S f (f\<lparr>sf_groups := g'\<rparr>)" "S f (f\<lparr>sf_group_msgs := ms\<rparr>)"
    and S_marks: "S f (f\<lparr>sf_last_backfill := k, sf_index_published := m\<rparr>)"
begin

definition RS :: "device \<Rightarrow> device \<Rightarrow> bool" where
  "RS d d' = S (dv_social d) (dv_social d')"

lemma RS_other: "dv_social d' = dv_social d \<Longrightarrow> RS d d'"
  by (simp add: RS_def S_refl)

end

sublocale social_relation \<subseteq> quiet_relation RS
  by unfold_locales (auto simp: RS_def intro: S_refl S_trans)

section \<open>Operations that write neither the feed nor the notifications\<close>

context social_relation
begin

lemma resp_saveS: "(\<And>f. S f (g f)) \<Longrightarrow> resp RS (saveS E path g)"
  unfolding saveS_def by (rule resp_save) (simp add: RS_def)

lemma resp_loadS: "resp RS (loadS E path f dflt)" "resp RS (readS E path f')"
  unfolding loadS_def readS_def by (rule resp_load resp_read)+

lemma resp_chat:
  "resp RS (bootstrap_contact_from_keys E did name keys ticket verified)" "resp RS (cache_peer_keys E did keys)"
  "resp RS (my_pubkeys E)" "resp RS (receive_v2_wire E topic wire)"
proof -
  have o: "RS d (d\<lparr>dv_contacts := l\<rparr>)" "RS d (d\<lparr>dv_groups := gs\<rparr>)" "RS d (d\<lparr>dv_group_convs := gc\<rparr>)"
    "RS d (d\<lparr>dv_convs := cv\<rparr>)" "RS d (d\<lparr>dv_ratchets := rt\<rparr>)" "RS d (d\<lparr>dv_peer_keys := pk\<rparr>)" for d l gs gc cv rt pk
    by (simp_all add: RS_other)
  show "resp RS (bootstrap_contact_from_keys E did name keys ticket verified)" by (rule resp_bootstrap) (rule o)
  show "resp RS (cache_peer_keys E did keys)"
    unfolding cache_peer_keys_def read_peer_keys_def write_peer_keys_def by (intro resp_quiet resp_save o)
  show "resp RS (my_pubkeys E)" unfolding my_pubkeys_def by (intro resp_quiet)
  show "resp RS (receive_v2_wire E topic wire)"
    by (intro resp_receive resp_store_group o)
qed

lemma resp_events: "resp RS (signed_eventD E t p)" "resp RS (gossip_send E topic evt)" "resp RS (sign_and_publish E topic t p)"
  "resp RS (add_bytes E bs)"
proof -
  show s: "resp RS (signed_eventD E t p)" "resp RS (gossip_send E topic evt)" "resp RS (add_bytes E bs)" for t p topic evt bs
    unfolding signed_eventD_def gossip_send_def add_bytes_def by (intro resp_quiet)+
  show "resp RS (sign_and_publish E topic t p)"
    unfolding sign_and_publish_def by (intro resp_quiet s)
qed

lemma resp_content: "resp RS (get_bytes E cid)" "resp RS (materialize_post_from_cid E cid)"
proof -
  show g: "resp RS (get_bytes E cid)" for cid
    unfolding get_bytes_def by (intro resp_quiet resp_mod RS_other) simp_all
  show "resp RS (materialize_post_from_cid E cid)"
    unfolding materialize_post_from_cid_def by (intro resp_quiet g)
qed

lemmas resp_social = resp_quiet resp_loadS resp_chat resp_events resp_content

lemma resp_profile_files: "resp RS (read_profile E)" "resp RS (write_profile E p)" "resp RS (own_profile E)"
  "resp RS (read_follows E)" "resp RS (write_follows E fo)" "resp RS (sync_profile_follows E)" "resp RS (follow_counts E)"
proof -
  show r: "resp RS (read_profile E)" "resp RS (write_profile E p)" "resp RS (read_follows E)" "resp RS (write_follows E fo)" for p fo
    unfolding read_profile_def write_profile_def read_follows_def write_follows_def
    by (intro resp_social resp_saveS S_profile S_follows)+
  show "resp RS (own_profile E)" "resp RS (sync_profile_follows E)" "resp RS (follow_counts E)"
    unfolding own_profile_def new_with_def sync_profile_follows_def follow_counts_def by (intro resp_social r)+
qed

lemma resp_caches: "resp RS (write_peer_ticket E did t)" "resp RS (peer_ticket_for E did)" "resp RS (set_peer_head E did cid)"
  "resp RS (all_peer_heads E)" "resp RS (cache_peer_name E did n)" "resp RS (set_peer_profile E pp)"
  "resp RS (fetch_peer_profile E did cid)" "resp RS (set_posts_head E cid)" "resp RS (my_posts_head E)"
proof -
  show c: "resp RS (write_peer_ticket E did t)" "resp RS (peer_ticket_for E did)" "resp RS (set_peer_head E did cid)"
    "resp RS (all_peer_heads E)" "resp RS (cache_peer_name E did n)" "resp RS (set_posts_head E cid)" "resp RS (my_posts_head E)" for did t cid n
    unfolding write_peer_ticket_def read_peer_tickets_def peer_ticket_for_def set_peer_head_def read_peer_heads_def
      all_peer_heads_def cache_peer_name_def read_peer_names_def set_posts_head_def my_posts_head_def
    by (intro resp_social resp_profile_files resp_saveS S_caches)+
  show p: "resp RS (set_peer_profile E pp)" for pp
    unfolding set_peer_profile_def read_peer_profiles_def by (intro resp_social resp_saveS S_caches c)
  show "resp RS (fetch_peer_profile E did cid)"
    unfolding fetch_peer_profile_def Let_def by (intro resp_social p)
qed

lemma resp_publish_profile: "resp RS (publish_own_profile E)" "resp RS (publish_and_announce_profile E)"
proof -
  show p: "resp RS (publish_own_profile E)"
    unfolding publish_own_profile_def by (intro resp_social resp_profile_files)
  show "resp RS (publish_and_announce_profile E)"
    unfolding publish_and_announce_profile_def by (intro resp_social p)
qed

lemma resp_followers: "resp RS (record_follower E did t)" "resp RS (remove_follower E did)"
  unfolding record_follower_def remove_follower_def Let_def
  by (intro resp_social resp_profile_files resp_caches resp_publish_profile)+

lemma resp_post_files: "resp RS (read_post E i)" "resp RS (write_post E p)" "resp RS (remove_post E i)" "resp RS (read_feed_index E)"
  unfolding read_post_def write_post_def remove_post_def read_feed_index_def by (intro resp_social resp_saveS S_posts)+

lemma resp_overlays: "resp RS (handle_post_react E payload)" "resp RS (handle_post_comment E payload)"
  unfolding handle_post_react_def handle_post_comment_def apply_react_overlay_def apply_comment_overlay_def
  by (intro resp_social resp_post_files)+

lemma resp_backfill_loop: "resp RS (backfill_loop E author have_cids es feed added)"
proof (induction es arbitrary: feed added)
  case (Cons e es)
  show ?case
    unfolding backfill_loop.simps Let_def by (intro resp_social resp_caches resp_post_files Cons.IH)
qed (simp add: resp_ret)

lemma resp_group_event: "resp RS (receive_event E sender t payload)"
proof -
  have u: "resp RS (upsert_group E u)" for u
    unfolding upsert_group_def list_social_groups_def write_social_groups_def by (intro resp_social resp_saveS S_groups)
  have m: "resp RS (read_messages E i)" "resp RS (write_messages E i ms)" for i ms
    unfolding read_messages_def write_messages_def by (intro resp_social resp_saveS S_groups)+
  have o: "resp RS (group_text E payload)"
    unfolding group_text_def open_group_envelope_def by (intro resp_social)
  show ?thesis
    unfolding receive_event_def Let_def by (intro resp_social resp_profile_files u m o)
qed

lemmas resp_writes = resp_social resp_profile_files resp_caches resp_publish_profile resp_followers resp_post_files
  resp_overlays resp_backfill_loop resp_group_event

end

section \<open>A turn of the polling loop\<close>

text \<open>An event that was heard: it came in an answer of the carrier and its signature is valid.\<close>

definition heard :: "env \<Rightarrow> signed_event \<Rightarrow> bool" where
  "heard E evt = ((\<exists>k topic consumer me rsp arr entry. en_recv E k topic consumer me = Inr rsp \<and> recv_messages rsp = Some arr \<and>
     entry \<in> set arr \<and> Option.bind (entry_wire entry) (from_wire_string E) = Some evt) \<and>
     verify_signed_event (en_prims E) (en_jstr E) evt = Inr Valid)"

lemma okD_call_Some: "okD (callD f) d = (Inr (Some x), d') \<Longrightarrow> f (dv_tick d) = Inr x"
  by (auto simp: okD_def callD_def split: sum.splits fault.splits)

context social_relation
begin

lemma resp_joining: "resp RS (ensure_joined E topic boot)" "resp RS (flushD E)" "resp RS (poll_topic E q)"
proof -
  show j: "resp RS (ensure_joined E topic boot)" for topic boot
    unfolding ensure_joined_def by (intro resp_writes resp_mod RS_other) simp_all
  show "resp RS (flushD E)"
    by (auto simp: resp_def flushD_def RS_other split: sum.split)
  have r: "resp RS (reassembleD E w)" for w
    unfolding reassembleD_def Let_def by (intro resp_writes resp_mod RS_other) simp_all
  have "resp RS (consume_v2_queue E topic consumer)" for topic consumer
    unfolding consume_v2_queue_def consume_entry_def by (intro resp_writes r)
  then show "resp RS (poll_topic E q)"
    unfolding poll_topic_def by (intro resp_writes j resp_has_peer resp_wait)
qed

lemma resp_extra_topics: "resp RS (extra_topics E)"
proof -
  have f: "resp RS (followed_topics E dids)" for dids
    by (induction dids) (auto intro!: resp_writes)
  have m: "resp RS (maybe_backfill_known_heads E)"
    unfolding maybe_backfill_known_heads_def by (intro resp_writes resp_mod) (simp add: RS_def S_marks)
  show ?thesis
    unfolding extra_topics_def by (intro resp_writes f m)
qed

text \<open>A turn respects the relation when every handler does on the events that were heard.\<close>

lemma resp_turn:
  assumes "\<And>t h payload evt. register E t = Some h \<Longrightarrow> heard E evt \<Longrightarrow> resp RS (h payload (ev_sender_did evt))"
  shows "resp RS (social_turn E)"
proof -
  have c: "resp RS (consume_topic E (register E) topic consumer me)" for topic consumer me
  proof -
    have e: "resp RS (forD (consume_event E (register E)) arr)"
      if a: "en_recv E k topic consumer me = Inr rsp" "recv_messages rsp = Some arr" for k rsp arr
    proof (rule resp_for)
      fix entry assume n: "entry \<in> set arr"
      have h: "resp RS (ignoreD (route (register E) (ev_type evt) (ev_payload evt) (ev_sender_did evt)))"
        if "Option.bind (entry_wire entry) (from_wire_string E) = Some evt"
          "verify_signed_event (en_prims E) (en_jstr E) evt = Inr Valid" for evt
      proof -
        have "heard E evt" unfolding heard_def using a n that by blast
        then show ?thesis unfolding route_def by (intro resp_writes assms)
      qed
      show "resp RS (consume_event E (register E) entry)"
      proof (cases "Option.bind (entry_wire entry) (from_wire_string E)")
        case None
        then show ?thesis by (simp add: consume_event_def resp_ret)
      next
        case (Some evt)
        then show ?thesis using h [OF Some]
          by (auto simp: consume_event_def resp_def bindD_def liftD_def retD_def R_refl split: sum.split)
      qed
    qed
    show ?thesis
    proof (unfold resp_def, rule)
      fix d
      show "RS d (snd (consume_topic E (register E) topic consumer me d))"
        unfolding consume_topic_def
      proof (rule bind_post)
        show "resp RS (okD (callD (\<lambda>k. en_recv E k topic consumer me)))" by (intro resp_writes)
        fix x d1 assume x: "okD (callD (\<lambda>k. en_recv E k topic consumer me)) d = (Inr x, d1)" and r: "RS d d1"
        show "RS d (snd ((case Option.bind x recv_messages of None \<Rightarrow> retD () | Some arr \<Rightarrow> forD (consume_event E (register E)) arr) d1))"
        proof (cases "Option.bind x recv_messages")
          case None
          then show ?thesis using r by (simp add: retD_def)
        next
          case (Some arr)
          then obtain rsp where "x = Some rsp" "recv_messages rsp = Some arr" by (cases x) auto
          then have "resp RS (forD (consume_event E (register E)) arr)"
            using e [OF okD_call_Some [of "\<lambda>k. en_recv E k topic consumer me" d rsp d1]] x by simp
          then show ?thesis using Some r R_trans by (simp add: resp_def)
        qed
      qed
    qed
  qed
  then show ?thesis
    unfolding social_turn_def run_turn_def poll_once_def Let_def my_v2_topics_def
    by (intro resp_writes resp_joining resp_extra_topics c)
qed

end

end
