(* ===== verification/Social_Samples.thy ===== *)
theory Social_Samples
imports Social_Frames
begin

text \<open>
  A concrete device of the social application to apply the theorems with: the session of one
  user, a carrier that delivers one signed event of another user on the topic of the own posts,
  and a content store in which the address of a content is the content.
\<close>

definition alice :: string where "alice = public_key_to_did_key (ed_pub (sample_prims 64) [7])"
definition bob :: string where "bob = public_key_to_did_key (ed_pub (sample_prims 64) [8])"

definition bob_session :: session where
  "bob_session = \<lparr>ss_auth_key_hex = [], ss_did_key = bob, ss_name = ''Bob'', ss_kem_secret = [], ss_kem_public = []\<rparr>"

definition bob_device :: device where
  "bob_device = sample_device\<lparr>dv_session := Some bob_session\<rparr>"

definition alice_event :: "string \<Rightarrow> json \<Rightarrow> signed_event" where
  "alice_event t payload = signed_by (sample_prims 64) (\<lambda>s. s) [7] t payload 3"

definition event_entry :: "signed_event \<Rightarrow> json" where
  "event_entry evt = JObj [(''content'', JStr (sample_text (signed_event_json evt)))]"

definition town :: "json \<Rightarrow> env" where
  "town entry = sample_env\<lparr>en_recv := (\<lambda>k topic consumer me. if topic = posts_topic bob
     then Inr (JObj [(''messages'', JArr [entry])]) else Inr ok_resp)\<rparr>"

lemma town_fields [simp]:
  "en_prims (town n) = sample_prims 64" "en_jstr (town n) = (\<lambda>s. s)" "en_now (town n) k = 5" "en_uuid (town n) k = ''u''"
  "en_join (town n) k t = Inr ok_resp" "en_fetch (town n) k c = Inr (JObj [(''data'', JStr c)])" "en_cbor (town n) = sample_cbor"
  "en_uncbor (town n) = sample_uncbor" "en_publish (town n) k b = Inr (JObj [(''cid'', JStr (of_bytes b))])"
  "en_recv (town n) k t c m = (if t = posts_topic bob then Inr (JObj [(''messages'', JArr [n])]) else Inr ok_resp)"
  "en_parse (town n) = sample_parse" "en_text (town n) = sample_text"
  by (simp_all add: town_def sample_env_def)

lemma town_storage: "storage_ok (town n)"
  by (simp add: storage_ok_def town_def sample_env_def)

lemma bob_fields [simp]:
  "dv_session bob_device = Some bob_session" "ss_did_key bob_session = bob" "ss_name bob_session = ''Bob''"
  "dv_social bob_device = no_social_files" "dv_joined bob_device = []" "dv_contacts bob_device = None" "dv_outbox bob_device = None"
  "dv_cache bob_device = empty_cache" "dv_tick bob_device = 0"
  by (simp_all add: bob_device_def sample_device_def bob_session_def)

lemma alice_event_fields [simp]:
  "ev_type (alice_event t p) = t" "ev_payload (alice_event t p) = p" "ev_sender_did (alice_event t p) = alice" "ev_ts (alice_event t p) = 3"
  by (simp_all add: alice_event_def signed_by_def Let_def alice_def)

lemma alice_is_did: "is_did alice" "alice \<noteq> []"
  by (simp_all add: alice_def is_did_def public_key_to_did_key_def starts_with_def)

lemma alice_event_valid: "t \<noteq> [] \<Longrightarrow> verify_signed_event (sample_prims 64) (\<lambda>s. s) (alice_event t p) = Inr Valid"
  unfolding alice_event_def by (rule signed_by_valid [OF sample_prims_ok]) simp_all

lemma signed_event_of_json [simp]: "- (2 ^ 63) \<le> ev_ts e \<Longrightarrow> ev_ts e < 2 ^ 63 \<Longrightarrow> signed_event_of (signed_event_json e) = Some e"
  by (simp add: signed_event_of_def signed_event_json_def wire_simps)

lemma alice_event_arrives:
  assumes "js_ok p"
  shows "Option.bind (entry_wire (event_entry (alice_event t p))) (from_wire_string (town n)) = Some (alice_event t p)"
proof -
  let ?j = "signed_event_json (alice_event t p)"
  have "js_ok ?j" using assms by (simp add: signed_event_json_def)
  then have "sample_parse (sample_text ?j) = Some ?j" using sample_json_codec unfolding json_codec_def by blast
  moreover have "entry_wire (event_entry (alice_event t p)) = Some (sample_text ?j)"
    by (simp only: event_entry_def entry_wire_def or_else_def j_get.simps) simp
  moreover have "signed_event_of ?j = Some (alice_event t p)" by (rule signed_event_of_json) simp_all
  ultimately show ?thesis by (simp only: from_wire_string_def town_fields option.simps Option.bind.simps)
qed

lemma run_flush: "dv_outbox d = None \<Longrightarrow> flushD (town n) d = (Inr (), d\<lparr>dv_outbox := None, dv_tick := dv_tick d + 1\<rparr>)"
proof -
  have "flush N now None = Inr None" for N now by (simp add: flush_def read_items_def Let_def)
  then show "dv_outbox d = None \<Longrightarrow> ?thesis" by (simp add: flushD_def)
qed

text \<open>What a turn does there: nothing but handle the event, between joining its two topics.\<close>

lemma run_join: "topic \<notin> set (dv_joined d) \<Longrightarrow>
    ensure_joined (town n) topic [] d = (Inr (), d\<lparr>dv_tick := dv_tick d + 1, dv_joined := topic # dv_joined d\<rparr>)"
  by (simp add: ensure_joined_def join_topic_with_def Let_def run tryD_def callD_def okD_def run_basic)

end
