(* ===== verification/Social_Feed.thy ===== *)
theory Social_Feed
imports Social_Samples
begin

text \<open>
  The feed and the notifications under any event that arrives: what the event of a sender can
  add to the feed, what it can remove, and how many notifications are kept.
\<close>

section \<open>The feed of a device\<close>

definition feed_in :: "social_files \<Rightarrow> feed_entry list" where
  "feed_in f = (case sf_feed f of Some l \<Rightarrow> l | None \<Rightarrow> [])"

abbreviation feed_of :: "device \<Rightarrow> feed_entry list" where
  "feed_of d \<equiv> feed_in (dv_social d)"

definition note_list :: "social_files \<Rightarrow> json list" where
  "note_list f = (case sf_notes f of Some w \<Rightarrow> notes_in w | None \<Rightarrow> [])"

lemma feed_in_simps [simp]:
  "feed_in (f\<lparr>sf_feed := Some l\<rparr>) = l" "feed_in (f\<lparr>sf_profile := a\<rparr>) = feed_in f" "feed_in (f\<lparr>sf_follows := b\<rparr>) = feed_in f"
  "feed_in (f\<lparr>sf_posts := p\<rparr>) = feed_in f" "feed_in (f\<lparr>sf_tickets := t\<rparr>) = feed_in f" "feed_in (f\<lparr>sf_heads := t\<rparr>) = feed_in f"
  "feed_in (f\<lparr>sf_names := t\<rparr>) = feed_in f" "feed_in (f\<lparr>sf_profiles := q\<rparr>) = feed_in f" "feed_in (f\<lparr>sf_groups := gs\<rparr>) = feed_in f"
  "feed_in (f\<lparr>sf_group_msgs := ms\<rparr>) = feed_in f" "feed_in (f\<lparr>sf_notes := ns\<rparr>) = feed_in f"
  "feed_in (f\<lparr>sf_last_backfill := k, sf_index_published := m\<rparr>) = feed_in f"
  by (simp_all add: feed_in_def)

text \<open>The feed stays as it is; it gains only entries of one author; the notifications stay bounded.\<close>

definition same_feed :: "social_files \<Rightarrow> social_files \<Rightarrow> bool" where
  "same_feed f g = (sf_feed g = sf_feed f)"

definition gains_by :: "string \<Rightarrow> social_files \<Rightarrow> social_files \<Rightarrow> bool" where
  "gains_by who f g = (\<forall>e \<in> set (feed_in g). e \<in> set (feed_in f) \<or> fe_author e = who \<and> fe_post_cid e \<noteq> None)"

definition notes_kept :: "social_files \<Rightarrow> social_files \<Rightarrow> bool" where
  "notes_kept f g = (length (note_list f) \<le> 100 \<longrightarrow> length (note_list g) \<le> 100)"

interpretation sfeed: social_relation same_feed
  by unfold_locales (auto simp: same_feed_def)

interpretation gains: social_relation "gains_by who" for who
  by unfold_locales (simp_all add: gains_by_def, blast)

interpretation snotes: social_relation notes_kept
  by unfold_locales (auto simp: notes_kept_def note_list_def)

lemma same_feedD: "resp sfeed.RS m \<Longrightarrow> m d = (r, d') \<Longrightarrow> sf_feed (dv_social d') = sf_feed (dv_social d)"
  by (auto simp: resp_def sfeed.RS_def same_feed_def dest: spec [of _ d])

lemma read_feed_Inr: "read_feed_index E d = (Inr l, d') \<Longrightarrow> l = feed_of d \<and> d' = d"
  by (auto simp: read_feed_index_def readS_def readD_def bindD_def feed_in_def run_basic split: if_splits)

lemma write_feed_cases: "write_feed_index E l d = (Inr (), d\<lparr>dv_social := (dv_social d)\<lparr>sf_feed := Some l\<rparr>\<rparr>) \<or>
    (\<exists>e. write_feed_index E l d = (Inl e, d))"
  by (simp add: write_feed_index_def saveS_def saveD_def)

text \<open>A feed that is read, kept through some work and then written: what the relation has to allow.\<close>

lemma gains_write:
  assumes "\<And>e. e \<in> set l \<Longrightarrow> e \<in> set (feed_of d) \<or> fe_author e = who \<and> fe_post_cid e \<noteq> None"
  shows "gains.RS who d (snd (write_feed_index E l d))"
  using write_feed_cases [of E l d] assms by (elim disjE exE) (simp_all add: gains.RS_def gains_by_def)

lemma gains_if_same: "sf_feed (dv_social d') = sf_feed (dv_social d) \<Longrightarrow> gains.RS who d d'"
  by (simp add: gains.RS_def gains_by_def feed_in_def)

section \<open>Adding to the feed\<close>

lemma backfill_loop_entries:
  "backfill_loop E author have_cids es feed added d = (Inr (feed', added'), d') \<Longrightarrow>
   \<forall>e \<in> set feed'. e \<in> set feed \<or> fe_author e = author \<and> fe_post_cid e \<noteq> None"
proof (induction es arbitrary: feed added d)
  case Nil
  then show ?case by (simp add: run_basic)
next
  case (Cons e es)
  have step: "\<exists>fd ad d1. backfill_loop E author have_cids es fd ad d1 = (Inr (feed', added'), d') \<and>
      (\<forall>x \<in> set fd. x \<in> set feed \<or> fe_author x = author \<and> fe_post_cid x \<noteq> None)"
    using Cons.prems
    by (simp add: bindD_Inr Let_def split: option.splits if_splits)
      (force simp: feed_entry_for_def bindD_Inr split: option.splits if_splits)+
  then show ?case using Cons.IH by blast
qed

lemma gains_backfill: "resp (gains.RS who) (backfill_from_index E who head)"
proof -
  let ?tail = "\<lambda>index fd. bindD (backfill_loop E who (set (cids_of fd)) index fd False) (\<lambda>(feed', added).
      if added then ignoreD (write_feed_index E (sort_key (\<lambda>e. - fe_ts e) feed')) else retD ())"
  have tail: "gains.RS who d (snd (?tail index (feed_of d) d))" for index d
  proof (rule gains.bind_post)
    show "resp (gains.RS who) (backfill_loop E who (set (cids_of (feed_of d))) index (feed_of d) False)"
      by (rule gains.resp_backfill_loop)
  next
    fix x d1 assume r: "backfill_loop E who (set (cids_of (feed_of d))) index (feed_of d) False d = (Inr x, d1)"
    obtain feed' added where x: "x = (feed', added)" by force
    have s: "sf_feed (dv_social d1) = sf_feed (dv_social d)"
      by (rule same_feedD [OF sfeed.resp_backfill_loop r])
    have "\<forall>e \<in> set feed'. e \<in> set (feed_of d) \<or> fe_author e = who \<and> fe_post_cid e \<noteq> None"
      using backfill_loop_entries r x by blast
    then have "gains.RS who d1 (snd (write_feed_index E (sort_key (\<lambda>e. - fe_ts e) feed') d1))"
      by (intro gains_write) (use s in \<open>auto simp: feed_in_def\<close>)
    then have "gains.RS who d1 (snd (ignoreD (write_feed_index E (sort_key (\<lambda>e. - fe_ts e) feed')) d1))"
      using write_feed_cases [of E "sort_key (\<lambda>e. - fe_ts e) feed'" d1]
      by (auto simp: ignoreD_def okD_def bindD_def run_basic gains.R_refl split: fault.split)
    then have "gains.RS who d (snd (ignoreD (write_feed_index E (sort_key (\<lambda>e. - fe_ts e) feed')) d1))"
      using gains.R_trans gains_if_same [OF s] by blast
    then show "gains.RS who d (snd ((case x of (feed', added) \<Rightarrow>
        if added then ignoreD (write_feed_index E (sort_key (\<lambda>e. - fe_ts e) feed')) else retD ()) d1))"
      using gains_if_same [OF s] by (simp add: x run_basic)
  qed
  have read: "resp (gains.RS who) (bindD (okD (read_feed_index E)) (\<lambda>f. case f of None \<Rightarrow> retD () | Some fd \<Rightarrow> ?tail index fd))" for index
  proof (unfold resp_def, rule)
    fix d
    have "okD (read_feed_index E) d = (Inr (Some (feed_of d)), d) \<or> okD (read_feed_index E) d = (Inr None, d)"
      by (simp add: okD_def read_feed_index_def readS_def readD_def bindD_def feed_in_def run_basic)
    then show "gains.RS who d (snd (bindD (okD (read_feed_index E)) (\<lambda>f. case f of None \<Rightarrow> retD () | Some fd \<Rightarrow> ?tail index fd) d))"
      using tail [of d index] by (auto simp: run run_basic gains.R_refl)
  qed
  show ?thesis
    unfolding backfill_from_index_def by (intro gains.resp_social read)
qed

lemma gains_read_write:
  assumes "\<And>d e. e \<in> set (g (feed_of d)) \<Longrightarrow> e \<in> set (feed_of d) \<or> fe_author e = who \<and> fe_post_cid e \<noteq> None"
  shows "resp (gains.RS who) (bindD (read_feed_index E) (\<lambda>idx. write_feed_index E (g idx)))"
proof (unfold resp_def, rule)
  fix d
  show "gains.RS who d (snd (bindD (read_feed_index E) (\<lambda>idx. write_feed_index E (g idx)) d))"
  proof (rule gains.bind_post [OF gains.resp_post_files(4)])
    fix l d1 assume "read_feed_index E d = (Inr l, d1)"
    then have "l = feed_of d" "d1 = d" by (auto dest: read_feed_Inr)
    then show "gains.RS who d (snd (write_feed_index E (g l) d1))" using gains_write [of "g (feed_of d)" d who E] assms by simp
  qed simp
qed

lemma gains_post_create: "resp (gains.RS who) (handle_post_create E payload who)"
proof -
  have w: "resp (gains.RS who) (bindD (read_feed_index E) (\<lambda>idx2. write_feed_index E (feed_entry_for q cid # idx2)))"
    if "po_user_did q = who" for q cid
    by (rule gains_read_write) (use that in \<open>auto simp: feed_entry_for_def\<close>)
  show ?thesis
    unfolding handle_post_create_def Let_def by (intro gains.resp_writes w) simp_all
qed

lemma gains_post_delete: "resp (gains.RS who) (handle_post_delete E payload)"
proof -
  have "gains.RS who d (snd (bindD (read_feed_index E) (\<lambda>idx. bindD (ignoreD (remove_post E pid)) (\<lambda>_.
     write_feed_index E (filter (\<lambda>e. fe_id e \<noteq> pid) idx))) d))" for pid d
  proof (rule gains.bind_post [OF gains.resp_post_files(4)])
    fix l d1 assume "read_feed_index E d = (Inr l, d1)"
    then have l: "l = feed_of d" "d1 = d" by (auto dest: read_feed_Inr)
    show "gains.RS who d (snd (bindD (ignoreD (remove_post E pid)) (\<lambda>_. write_feed_index E (filter (\<lambda>e. fe_id e \<noteq> pid) l)) d1))"
    proof (unfold l, rule gains.bind_post)
      show "resp (gains.RS who) (ignoreD (remove_post E pid))" by (intro gains.resp_writes)
      fix u d2 assume "ignoreD (remove_post E pid) d = (Inr u, d2)"
      then have s: "sf_feed (dv_social d2) = sf_feed (dv_social d)"
        by (rule same_feedD [rotated]) (intro sfeed.resp_writes)
      have "gains.RS who d2 (snd (write_feed_index E (filter (\<lambda>e. fe_id e \<noteq> pid) (feed_of d)) d2))"
        by (rule gains_write) (use s in \<open>auto simp: feed_in_def\<close>)
      then show "gains.RS who d (snd (write_feed_index E (filter (\<lambda>e. fe_id e \<noteq> pid) (feed_of d)) d2))"
        using gains.R_trans gains_if_same [OF s] by blast
    qed simp
  qed simp
  then show ?thesis
    unfolding handle_post_delete_def by (intro gains.resp_bind [OF gains.resp_ret(3)]) (simp add: resp_def)
qed

lemma gains_push: "resp (gains.RS who) (push_notification E n)"
  unfolding push_notification_def write_notes_def
  by (intro gains.resp_writes gains.resp_saveS) (simp add: gains_by_def)

section \<open>The handlers\<close>

lemma register_cases:
  assumes "register E t = Some h"
  obtains "h = handle_post_create E" | "h = handle_posts_head E" | "h = handle_profile_head E"
  | "h = (\<lambda>payload _. handle_post_delete E payload)" | "h = (\<lambda>payload _. handle_post_react E payload)"
  | "h = (\<lambda>payload _. handle_post_comment E payload)" | "h = handle_follow_request E" | "h = handle_follow_unfollow E"
  | "h = handle_dm_notify E" | "h = handle_group E t"
  using assms by (auto simp: register_def split: if_splits)

lemma gains_handler:
  assumes "register E t = Some h"
  shows "resp (gains.RS who) (h payload who)"
  using assms
proof (cases rule: register_cases)
qed (simp_all only: handle_posts_head_def handle_profile_head_def
    handle_follow_request_def handle_follow_unfollow_def handle_dm_notify_def handle_group_def Let_def,
    (intro gains_post_create gains_post_delete gains.resp_writes gains_backfill gains_push)+)

section \<open>Bounded notifications\<close>

lemma notes_push: "resp snotes.RS (push_notification E n)"
  unfolding push_notification_def write_notes_def
  by (intro snotes.resp_writes snotes.resp_saveS) (simp add: notes_kept_def note_list_def notes_json_def notes_in_def)

lemma notes_feed: "resp snotes.RS (write_feed_index E l)"
  unfolding write_feed_index_def by (intro snotes.resp_saveS) (simp add: notes_kept_def note_list_def)

lemma notes_handler:
  assumes "register E t = Some h"
  shows "resp snotes.RS (h payload who)"
  using assms
proof (cases rule: register_cases)
qed (simp_all only: handle_post_create_def handle_post_delete_def handle_posts_head_def handle_profile_head_def
    handle_follow_request_def handle_follow_unfollow_def handle_dm_notify_def handle_group_def backfill_from_index_def
    Let_def,
    (intro snotes.resp_writes notes_push notes_feed)+)

section \<open>Running the operations\<close>

lemma run_social [run]:
  assumes "storage_ok E"
  shows "loadS E path f dflt d = (Inr (case f (dv_social d) of Some x \<Rightarrow> x | None \<Rightarrow> dflt), d)"
    "readS E path f' d = (Inr (f' (dv_social d)), d)"
    "saveS E path g d = (Inr (), d\<lparr>dv_social := g (dv_social d)\<rparr>)"
    "read_feed_index E d = (Inr (feed_of d), d)"
    "write_feed_index E l d = (Inr (), d\<lparr>dv_social := (dv_social d)\<lparr>sf_feed := Some l\<rparr>\<rparr>)"
  using assms by (simp_all add: loadS_def readS_def saveS_def run_store [OF assms] readD_def storage_ok_def
      read_feed_index_def write_feed_index_def feed_in_def bindD_def saveD_def run_basic)

lemma ignore_Inr: "m d = (Inr x, d') \<Longrightarrow> ignoreD m d = (Inr (), d')"
  by (simp add: ignoreD_def okD_def bindD_def run_basic)

lemma ok_Inr: "m d = (Inr x, d') \<Longrightarrow> okD m d = (Inr (Some x), d')"
  by (simp add: okD_def)

text \<open>The effect of \<open>cache_peer_name\<close> on the social files.\<close>

definition learn_name :: "string \<Rightarrow> string \<Rightarrow> social_files \<Rightarrow> social_files" where
  "learn_name did name f = (let m = (case sf_names f of Some m \<Rightarrow> m | None \<Rightarrow> no_map) in
     if did = [] \<or> trim name = [] \<or> m did = Some name then f else f\<lparr>sf_names := Some (m(did := Some name))\<rparr>)"

lemma run_cache_name:
  "storage_ok E \<Longrightarrow> cache_peer_name E did name d = (Inr (), d\<lparr>dv_social := learn_name did name (dv_social d)\<rparr>)"
  by (simp add: cache_peer_name_def read_peer_names_def learn_name_def run run_social ignore_Inr Let_def)

lemma learn_name_fields [simp]: "feed_in (learn_name did name f) = feed_in f" "sf_posts (learn_name did name f) = sf_posts f"
  by (simp_all add: learn_name_def Let_def)

lemma run_materialize:
  assumes "cid \<noteq> []" "cache_get (dv_cache d) cid = None" "en_fetch E (dv_tick d) cid = Inr v"
    "fetched_bytes (en_prims E) v = Inr bs" "decode_post_metadata E bs = Inr body"
  shows "materialize_post_from_cid E cid d = (Inr (Some (materialize_from_ipld (en_uuid E (Suc (dv_tick d))) body cid)),
    d\<lparr>dv_cache := cache_put (dv_cache d) cid bs, dv_tick := Suc (Suc (dv_tick d))\<rparr>)"
proof -
  have k: "cache_key cid None = cid" by (simp add: cache_key_def)
  have "get_bytes E cid d = (Inr bs, d\<lparr>dv_tick := Suc (dv_tick d), dv_cache := cache_put (dv_cache d) cid bs\<rparr>)"
    using assms by (simp add: get_bytes_def k callD_def run run_basic)
  then have "okD (get_bytes E cid) d = (Inr (Some bs), d\<lparr>dv_tick := Suc (dv_tick d), dv_cache := cache_put (dv_cache d) cid bs\<rparr>)"
    by (rule ok_Inr)
  with assms(1,5) show ?thesis
    by (simp add: materialize_post_from_cid_def run run_basic okD_def uuidD_def callD_def)
qed

lemma run_post_create:
  assumes "storage_ok E" "cid \<notin> set (cids_of (feed_of d))"
    "materialize_post_from_cid E cid d = (Inr (Some p), d1)" "dv_social d1 = dv_social d"
    "po_user_did p = sender" "j_get_str ''post_cid'' payload = Some cid"
  shows "handle_post_create E payload sender d = (Inr (), d1\<lparr>dv_social := (learn_name sender (po_user_name p) (dv_social d))
     \<lparr>sf_posts := (sf_posts (dv_social d))(post_path (po_id p) := Some (p\<lparr>po_post_cid := Some cid\<rparr>)),
      sf_feed := Some (feed_entry_for p cid # feed_of d)\<rparr>\<rparr>)"
proof -
  have n: "\<not> list_ex (\<lambda>e. fe_post_cid e = Some cid) (feed_of d)"
    using assms(2) by (force simp: list_ex_iff cids_of_def map_filter_def)
  show ?thesis
    using assms(3-6) n
    by (simp add: handle_post_create_def run run_basic run_social [OF assms(1)] run_cache_name [OF assms(1)]
        write_post_def ignore_Inr Let_def feed_entry_for_def)
qed

section \<open>Properties\<close>

text \<open>The feed gains only entries of authors that were heard.\<close>

definition gains_heard :: "env \<Rightarrow> social_files \<Rightarrow> social_files \<Rightarrow> bool" where
  "gains_heard E f g = (\<forall>e \<in> set (feed_in g). e \<in> set (feed_in f) \<or>
     fe_post_cid e \<noteq> None \<and> (\<exists>evt. heard E evt \<and> ev_sender_did evt = fe_author e))"

interpretation gheard: social_relation "gains_heard E" for E
  by unfold_locales (simp_all add: gains_heard_def, blast)

text \<open>C33. Posts enter the feed of a user only for their authors: every entry that a turn of the
  polling loop adds to the feed carries a content address and names as its author the sender
  of an event that arrived with a valid signature, whatever the event says and whatever the
  content store, the storage service and the carrier answer.\<close>

theorem feed_authentic:
  assumes "social_turn E d = (r, d')" "e \<in> set (feed_of d')" "e \<notin> set (feed_of d)"
  shows "fe_post_cid e \<noteq> None \<and> (\<exists>evt. heard E evt \<and> ev_sender_did evt = fe_author e)"
proof -
  have "resp (gheard.RS E) (h payload (ev_sender_did evt))" if "register E t = Some h" "heard E evt" for t h payload evt
    using gains_handler [OF that(1), of "ev_sender_did evt" payload] that(2)
    unfolding resp_def gheard.RS_def gains.RS_def gains_by_def gains_heard_def by metis
  then have "resp (gheard.RS E) (social_turn E)" by (rule gheard.resp_turn)
  then have "gheard.RS E d d'" using assms(1) unfolding resp_def by (metis snd_conv)
  then show ?thesis using assms(2,3) by (auto simp: gheard.RS_def gains_heard_def)
qed

text \<open>The list of notifications never grows past 100, however many events arrive in however
  many turns of the polling loop.\<close>

theorem notifications_bounded:
  assumes "(\<lambda>a b. b = snd (social_turn E a))\<^sup>*\<^sup>* d d'" "length (note_list (dv_social d)) \<le> 100"
  shows "length (note_list (dv_social d')) \<le> 100"
proof -
  have "resp snotes.RS (social_turn E)" by (rule snotes.resp_turn) (rule notes_handler)
  then have "notes_kept (dv_social a) (dv_social (snd (social_turn E a)))" for a
    by (simp add: resp_def snotes.RS_def)
  with assms show ?thesis
    by (induction rule: rtranclp_induct) (auto simp: notes_kept_def)
qed

end
