(* ===== verification/Social_Federation.thy ===== *)
theory Social_Federation
imports Social_Feed
begin

text \<open>
  What a post becomes on another device: the author pins its body and announces the content
  address, a follower fetches, decodes and files it.
\<close>

section \<open>Creating a post\<close>

lemma pin_and_announce_cid:
  assumes "pin_and_announce E me q d = (Inr p, d')" "po_post_cid q = None" "po_post_cid p = Some cid"
  obtains bs k rsp where "encode_post_metadata E q = Inr bs" "en_publish E k bs = Inr rsp" "extract_cid rsp = Some cid"
    "p = q\<lparr>po_post_cid := Some cid\<rparr>"
proof (cases "encode_post_metadata E q")
  case (Inl e)
  then show ?thesis using assms by (cases e) (auto simp: pin_and_announce_def run_basic)
next
  case (Inr bs)
  then obtain r d1 where r: "okD (add_bytes E bs) d = (Inr r, d1)"
    "(case Option.bind r extract_cid of None \<Rightarrow> retD q
       | Some c \<Rightarrow> bindD (ignoreD (sign_and_publish E (posts_topic (pr_did_key me)) ''post.create.v2''
           (JObj [(''post_cid'', JStr c)]))) (\<lambda>_. retD (q\<lparr>po_post_cid := Some c\<rparr>))) d1 = (Inr p, d')"
    using assms(1) by (auto simp: pin_and_announce_def bindD_Inr)
  show ?thesis
  proof (cases "Option.bind r extract_cid")
    case None
    then show ?thesis using r(2) assms by (simp add: run_basic)
  next
    case (Some c)
    then obtain rsp where rsp: "r = Some rsp" "extract_cid rsp = Some c" by (cases r) auto
    have "p = q\<lparr>po_post_cid := Some c\<rparr>" using r(2) Some by (auto simp: bindD_Inr run_basic)
    then show ?thesis
      using that [OF Inr okD_call_Some [of "\<lambda>k. en_publish E k bs" d rsp d1, folded add_bytes_def]] r(1) rsp assms(3) by simp
  qed
qed

lemma sfeed_publish_index: "resp sfeed.RS (publish_and_announce_head E)" "resp sfeed.RS (pin_and_announce E me q)"
proof -
  have "resp sfeed.RS (publish_own_index E)" unfolding publish_own_index_def by (intro sfeed.resp_writes)
  then show "resp sfeed.RS (publish_and_announce_head E)" unfolding publish_and_announce_head_def by (intro sfeed.resp_writes)
  show "resp sfeed.RS (pin_and_announce E me q)"
    unfolding pin_and_announce_def by (intro sfeed.resp_writes)
qed

lemma create_post_steps:
  assumes "create_post E caption images d = (Inr p, d')"
  obtains me q d1 d2 where "pin_and_announce E me q d1 = (Inr p, d2)" "po_post_cid q = None" "feed_of d2 = feed_of d"
    "p = q\<lparr>po_post_cid := po_post_cid p\<rparr>"
    "storage_ok E \<Longrightarrow> feed_of d' = feed_entry_for p [] \<lparr>fe_post_cid := po_post_cid p\<rparr> # feed_of d"
proof -
  from assms obtain me d1 uid d2 p1 d3 d4 idx d5 d6 where s:
    "own_profile E d = (Inr me, d1)" "uuidD E d1 = (Inr uid, d2)"
    "pin_and_announce E me (fresh_post uid me caption images (en_now E (dv_tick d2)) (en_today E (dv_tick d2))) d2 = (Inr p, d3)"
    "write_post E p d3 = (Inr (), d4)" "read_feed_index E d4 = (Inr idx, d5)"
    "write_feed_index E (\<lparr>fe_id = uid, fe_ts = en_now E (dv_tick d2), fe_author = pr_did_key me, fe_post_cid = po_post_cid p\<rparr> # idx) d5 = (Inr (), d6)"
    "publish_and_announce_head E d6 = (Inr (), d')"
    by (auto simp: create_post_def bindD_Inr nowD_def run_basic)
  define q where "q = fresh_post uid me caption images (en_now E (dv_tick d2)) (en_today E (dv_tick d2))"
  have feeds: "feed_of d2 = feed_of d" "feed_of d3 = feed_of d2" "feed_of d4 = feed_of d3" "feed_of d' = feed_of d6"
    using same_feedD [OF sfeed.resp_profile_files(3) s(1)] same_feedD [OF sfeed.resp_draw(2) s(2)]
      same_feedD [OF sfeed_publish_index(2) s(3)] same_feedD [OF sfeed.resp_post_files(2) s(4)] same_feedD [OF sfeed_publish_index(1) s(7)]
    by (simp_all add: feed_in_def)
  have c: "po_post_cid q = None" by (simp add: q_def fresh_post_def)
  have pq: "p = q\<lparr>po_post_cid := po_post_cid p\<rparr>"
  proof (cases "po_post_cid p")
    case None
    have "p = q"
      using s(3)[folded q_def] None
      by (cases "encode_post_metadata E q")
        (auto simp: pin_and_announce_def bindD_Inr run_basic split: fault.splits option.splits)
    then show ?thesis using None by simp
  next
    case (Some cid)
    from pin_and_announce_cid [OF s(3)[folded q_def] c Some] show ?thesis using Some by metis
  qed
  have "feed_of d' = feed_entry_for p [] \<lparr>fe_post_cid := po_post_cid p\<rparr> # feed_of d" if "storage_ok E"
  proof -
    have "idx = feed_of d4" "d5 = d4" using read_feed_Inr [OF s(5)] by simp_all
    moreover have "po_id p = uid" "po_ts p = en_now E (dv_tick d2)" "po_user_did p = pr_did_key me"
      by (subst pq, simp add: q_def fresh_post_def)+
    ultimately show ?thesis using s(6) feeds by (simp add: run_social [OF that] feed_entry_for_def) auto
  qed
  then show ?thesis using that [OF s(3)[folded q_def] c _ pq] feeds by simp
qed

section \<open>Properties\<close>

text \<open>A content store that serves on one side what was pinned on the other.\<close>

definition serves :: "env \<Rightarrow> env \<Rightarrow> bool" where
  "serves E E' = (\<forall>k b rsp cid. en_publish E k b = Inr rsp \<and> extract_cid rsp = Some cid \<longrightarrow>
     (\<forall>k'. \<exists>v. en_fetch E' k' cid = Inr v \<and> fetched_bytes (en_prims E') v = Inr b))"


end
