(* ===== verification/Social_Runs.thy ===== *)
theory Social_Runs
imports Social_Federation
begin

text \<open>
  The theorems about the feed applied: a device of Bob takes a turn in which a post of Alice
  arrives, and a device of Alice creates a post that Bob's device then files.
\<close>

section \<open>A turn of the loop\<close>

lemma town_turn:
  assumes "js_ok p" "t \<noteq> []"
    and "route (register (town (event_entry (alice_event t p)))) t p alice
      (bob_device\<lparr>dv_joined := [posts_topic bob], dv_tick := 2\<rparr>) = (Inr (), d2)"
    and "dv_contacts d2 = None" "dv_joined d2 = [posts_topic bob]" "dv_outbox d2 = None" "dv_session d2 = Some bob_session"
  shows "\<exists>r d'. social_turn (town (event_entry (alice_event t p))) bob_device = (r, d') \<and> dv_social d' = dv_social d2"
proof -
  let ?E = "town (event_entry (alice_event t p))"
  let ?c = "''hey-social'' @ '':'' @ bob"
  have bob: "bob \<noteq> []" by (simp add: bob_def public_key_to_did_key_def)
  have topics: "posts_topic bob \<noteq> follow_topic bob" by (simp add: posts_topic_def follow_topic_def)
  note st = run_social [OF town_storage]
  have extra: "extra_topics ?E bob_device = (Inr [(posts_topic bob, []), (follow_topic bob, [])], bob_device)"
    by (simp add: extra_topics_def bob read_follows_def st run run_basic no_social_files_def no_follows_def
        maybe_backfill_known_heads_def nowD_def)
  have j1: "ensure_joined ?E (posts_topic bob) [] bob_device = (Inr (), bob_device\<lparr>dv_tick := 1, dv_joined := [posts_topic bob]\<rparr>)"
    by (simp add: run_join)
  have e: "consume_event ?E (register ?E) (event_entry (alice_event t p)) (bob_device\<lparr>dv_joined := [posts_topic bob], dv_tick := 2\<rparr>) = (Inr (), d2)"
    using assms(3) by (simp add: consume_event_def alice_event_arrives [OF assms(1)] alice_event_valid [OF assms(2)] run run_basic ignore_Inr)
  have c1: "consume_topic ?E (register ?E) (posts_topic bob) ?c (Some bob) (bob_device\<lparr>dv_tick := 1, dv_joined := [posts_topic bob]\<rparr>) = (Inr (), d2)"
    using e by (simp add: consume_topic_def okD_def callD_def bindD_def recv_messages_def under_data_def or_else_def run_basic numeral_2_eq_2)
  have j2: "ensure_joined ?E (follow_topic bob) [] d2 = (Inr (), d2\<lparr>dv_tick := dv_tick d2 + 1, dv_joined := [follow_topic bob, posts_topic bob]\<rparr>)"
    by (simp add: run_join assms(5) topics [symmetric])
  have c2: "consume_topic ?E (register ?E) (follow_topic bob) ?c (Some bob) d = (Inr (), d\<lparr>dv_tick := dv_tick d + 1\<rparr>)" for d
    using topics by (simp add: consume_topic_def okD_def callD_def bindD_def recv_messages_def under_data_def or_else_def run_basic ok_resp_def)
  let ?d3 = "d2\<lparr>dv_joined := [follow_topic bob, posts_topic bob], dv_tick := dv_tick d2 + 2\<rparr>"
  have v2: "my_v2_topics ?E ?d3 = (Inr [], ?d3)"
    using assms(4,7) by (simp add: my_v2_topics_def ensure_profile_def okD_def bindD_def my_did_or_empty_def list_contacts_def nowD_def run_store [OF town_storage] run run_basic)
  have fl: "flushD ?E ?d3 = (Inr (), ?d3\<lparr>dv_outbox := None, dv_tick := dv_tick d2 + 3\<rparr>)"
    by (subst run_flush) (use assms(6) in simp_all)
  have "poll_once ?E (register ?E) (extra_topics ?E) ''hey-social'' bob bob_device
      = (Inr (), ?d3\<lparr>dv_outbox := None, dv_tick := dv_tick d2 + 3\<rparr>)"
    unfolding poll_once_def Let_def using j1 c1 j2 c2 v2 fl by (simp add: bindD_def extra run_basic)
  then show ?thesis
    by (simp add: social_turn_def run_turn_def ignore_Inr)
qed

section \<open>A post of Alice\<close>

definition alice_body :: post_body where
  "alice_body = \<lparr>pb_v = 1, pb_ts = 3, pb_media = [], pb_caption = ''hi'', pb_author_did = alice, pb_created_at = ''now'', pb_author_name = ''Alice''\<rparr>"

definition alice_cid :: string where "alice_cid = of_bytes (sample_cbor (post_body_cbor alice_body))"

definition alice_entry :: json where
  "alice_entry = event_entry (alice_event ''post.create.v2'' (JObj [(''post_cid'', JStr alice_cid)]))"

definition alice_feed_entry :: feed_entry where
  "alice_feed_entry = \<lparr>fe_id = ''u'', fe_ts = 3, fe_author = alice, fe_post_cid = Some alice_cid\<rparr>"

lemma alice_post_arrives:
  "\<exists>r d'. social_turn (town alice_entry) bob_device = (r, d') \<and> feed_of d' = [alice_feed_entry] \<and> feed_of bob_device = []"
proof -
  let ?E = "town alice_entry" and ?p = "JObj [(''post_cid'', JStr alice_cid)]"
  let ?d = "bob_device\<lparr>dv_joined := [posts_topic bob], dv_tick := 2\<rparr>"
  have bs: "fetched_bytes (en_prims ?E) (JObj [(''data'', JStr alice_cid)]) = Inr (sample_cbor (post_body_cbor alice_body))"
    by (simp add: fetched_bytes_def alice_cid_def dig2_def or_else_def j_get_str_def sample_prims_def)
  have ne: "alice_cid \<noteq> []" by (simp add: alice_cid_def sample_cbor_def post_body_cbor_def)
  obtain body where body: "decode_post_metadata ?E (sample_cbor (post_body_cbor alice_body)) = Inr body"
      "dp_author_did body = alice" "dp_ts body = 3"
    using decode_body [of alice_body] by (auto simp: decode_post_metadata_def sample_cbor_codec alice_body_def)
  have m: "materialize_post_from_cid ?E alice_cid ?d = (Inr (Some (materialize_from_ipld ''u'' body alice_cid)),
      ?d\<lparr>dv_cache := cache_put empty_cache alice_cid (sample_cbor (post_body_cbor alice_body)), dv_tick := 4\<rparr>)"
    using run_materialize [OF ne _ _ bs body(1), of ?d] by (simp add: cache_get_def empty_cache_def)
  have feed0: "feed_in no_social_files = []" "feed_of ?d = []" "feed_of bob_device = []" by (simp_all add: feed_in_def no_social_files_def)
  let ?d1 = "?d\<lparr>dv_cache := cache_put empty_cache alice_cid (sample_cbor (post_body_cbor alice_body)), dv_tick := 4\<rparr>"
  let ?q = "materialize_from_ipld ''u'' body alice_cid"
  have "handle_post_create ?E ?p alice ?d = (Inr (), ?d1\<lparr>dv_social := (learn_name alice (po_user_name ?q) (dv_social ?d))
     \<lparr>sf_posts := (sf_posts (dv_social ?d))(post_path (po_id ?q) := Some (?q\<lparr>po_post_cid := Some alice_cid\<rparr>)),
      sf_feed := Some (feed_entry_for ?q alice_cid # feed_of ?d)\<rparr>\<rparr>)"
    by (rule run_post_create [OF town_storage _ m])
      (simp_all add: feed0 cids_of_def j_get_str_def materialize_from_ipld_def body(2) List.map_filter_simps)
  then obtain d2 where d2: "handle_post_create ?E ?p alice ?d = (Inr (), d2)" "dv_contacts d2 = None"
      "dv_joined d2 = [posts_topic bob]" "dv_outbox d2 = None" "dv_session d2 = Some bob_session"
      "feed_of d2 = [feed_entry_for ?q alice_cid]"
    by (simp add: feed0)
  have "\<exists>r d'. social_turn ?E bob_device = (r, d') \<and> dv_social d' = dv_social d2"
    unfolding alice_entry_def
    by (rule town_turn) (use d2 in \<open>simp_all add: alice_entry_def route_def register_def\<close>)
  then show ?thesis
    using d2(6) feed0(3) by (auto simp: alice_feed_entry_def feed_entry_for_def materialize_from_ipld_def body(2,3))
qed

lemma note_list_bob: "length (note_list (dv_social bob_device)) \<le> 100"
  by (simp add: note_list_def no_social_files_def)

theorem feed_authentic_witness:
  "\<exists>r d'. social_turn (town alice_entry) bob_device = (r, d') \<and> alice_feed_entry \<in> set (feed_of d') \<and>
     (\<exists>evt. heard (town alice_entry) evt \<and> ev_sender_did evt = alice)"
proof -
  obtain r d' where s: "social_turn (town alice_entry) bob_device = (r, d')" "feed_of d' = [alice_feed_entry]" "feed_of bob_device = []"
    using alice_post_arrives by blast
  then show ?thesis using feed_authentic [OF s(1), of alice_feed_entry] by (auto simp: alice_feed_entry_def)
qed

theorem notifications_bounded_witness:
  "\<exists>d'. feed_of d' = [alice_feed_entry] \<and> length (note_list (dv_social d')) \<le> 100"
proof -
  obtain r d' where s: "social_turn (town alice_entry) bob_device = (r, d')" "feed_of d' = [alice_feed_entry]"
    using alice_post_arrives by blast
  have "(\<lambda>a b. b = snd (social_turn (town alice_entry) a))\<^sup>*\<^sup>* bob_device d'" using s(1) by auto
  from notifications_bounded [OF this note_list_bob] s(2) show ?thesis by blast
qed

section \<open>Alice creates a post\<close>

definition alice_profile :: profile where
  "alice_profile = \<lparr>pr_id = ''a'', pr_name = ''Alice'', pr_auth_key_hash = [], pr_did_key = alice, pr_role = ''general'',
     pr_avatar = [], pr_bio = [], pr_followers = [], pr_following = [], pr_pending_followers = [], pr_pending_following = [],
     pr_created_at = [], pr_posts_head = None\<rparr>"

definition alice_device :: device where
  "alice_device = bob_device\<lparr>dv_session := Some (bob_session\<lparr>ss_did_key := alice, ss_name := ''Alice''\<rparr>),
     dv_social := no_social_files\<lparr>sf_profile := Some alice_profile\<rparr>\<rparr>"

lemma strip_prefix_take: "take (length p) s = p \<Longrightarrow> strip_prefix p s \<noteq> None"
  by (induction p s rule: strip_prefix.induct) auto

lemma run_sign_town:
  assumes "dv_session d = Some s" "is_did (ss_did_key s)" "t \<noteq> []"
  shows "sign_and_publish (town n) topic t p d = (Inr (), d\<lparr>dv_tick := dv_tick d + 2\<rparr>)"
proof -
  have "strip_prefix ''did:key:z'' (ss_did_key s) \<noteq> None" 
    using assms(2) unfolding is_did_def starts_with_def by (rule strip_prefix_take)
  then show ?thesis using assms(1,3)
    by (auto simp: sign_and_publish_def signed_eventD_def gossip_send_def create_signed_event_def callD_def bindD_def
     nowD_def run_basic is_did_def town_def sample_env_def j_get_str_def Let_def)
qed

lemma run_pin_town:
  assumes "dv_session d = Some s" "is_did (ss_did_key s)" "encode_post_metadata (town n) q = Inr bs"
  shows "pin_and_announce (town n) me q d = (Inr (q\<lparr>po_post_cid := Some (of_bytes bs)\<rparr>), d\<lparr>dv_tick := dv_tick d + 3\<rparr>)"
  using assms by (simp add: pin_and_announce_def add_bytes_def okD_def callD_def bindD_def extract_cid_def dig2_def or_else_def
     j_get_str_def ignore_Inr [OF run_sign_town] run_basic)

lemma run_head_town:
  assumes "dv_session d = Some s" "is_did (ss_did_key s)" "sf_profile (dv_social d) = Some me"
  shows "\<exists>d'. publish_and_announce_head (town n) d = (Inr (), d')"
proof -
  have "ss_did_key s \<noteq> []" using assms(2) by (auto simp: is_did_def starts_with_def)
  then show ?thesis using assms
    by (auto simp: publish_and_announce_head_def publish_own_index_def add_bytes_def okD_def callD_def bindD_def extract_cid_def dig2_def or_else_def
     j_get_str_def run_social [OF town_storage] set_posts_head_def own_profile_def read_profile_def write_profile_def ignore_Inr ignore_Inr [OF run_sign_town] run_basic)
qed

lemma alice_publishes:
  "\<exists>p d'. create_post (town n) ''hi'' [] alice_device = (Inr p, d') \<and> po_ts p = 5 \<and> (\<exists>cid. po_post_cid p = Some cid \<and> cid \<noteq> [])"
proof -
  let ?q = "fresh_post ''u'' alice_profile ''hi'' [] 5 (en_today (town n) (Suc 0))"
  let ?d1 = "alice_device\<lparr>dv_tick := Suc 0\<rparr>"
  have s: "dv_session alice_device = Some (bob_session\<lparr>ss_did_key := alice, ss_name := ''Alice''\<rparr>)"
    by (simp add: alice_device_def)
  have o: "own_profile (town n) alice_device = (Inr alice_profile, alice_device)"
    by (simp add: own_profile_def read_profile_def alice_device_def run_social [OF town_storage] run run_basic)
  have u: "uuidD (town n) alice_device = (Inr ''u'', ?d1)"
    by (simp add: uuidD_def callD_def alice_device_def)
  obtain pb where pb: "build_immutable_body (town n) ?q = Inr pb"
    using alice_is_did by (simp add: build_immutable_body_def fresh_post_def alice_profile_def)
  then have e: "encode_post_metadata (town n) ?q = Inr (sample_cbor (post_body_cbor pb))" by (simp add: encode_post_metadata_def)
  have ne: "sample_cbor (post_body_cbor pb) \<noteq> []" by (simp add: sample_cbor_def post_body_cbor_def as_bytes_def)
  let ?p = "?q\<lparr>po_post_cid := Some (of_bytes (sample_cbor (post_body_cbor pb)))\<rparr>"
  have pin: "pin_and_announce (town n) alice_profile ?q ?d1 = (Inr ?p, alice_device\<lparr>dv_tick := 4\<rparr>)"
    using run_pin_town [OF _ _ e, of ?d1] s alice_is_did by simp
  let ?d4 = "alice_device\<lparr>dv_tick := 4\<rparr>"
  have w: "write_post (town n) ?p ?d4 = (Inr (), ?d4\<lparr>dv_social := (dv_social ?d4)\<lparr>sf_posts := (sf_posts (dv_social ?d4))(post_path ''u'' := Some ?p)\<rparr>\<rparr>)"
    by (simp add: write_post_def run_social [OF town_storage] fresh_post_def)
  have h: "\<exists>d'. publish_and_announce_head (town n) d = (Inr (), d')"
    if "dv_session d = dv_session alice_device" "sf_profile (dv_social d) = Some alice_profile" for d
    using run_head_town [of d] that s alice_is_did by simp
  have alice_did: "pr_did_key alice_profile = alice" by (simp add: alice_profile_def)
  let ?d5 = "?d4\<lparr>dv_social := (dv_social ?d4)\<lparr>sf_posts := (sf_posts (dv_social ?d4))(post_path ''u'' := Some ?p)\<rparr>\<rparr>"
  let ?d6 = "?d5\<lparr>dv_social := (dv_social ?d5)\<lparr>sf_feed := Some (\<lparr>fe_id = ''u'', fe_ts = 5, fe_author = alice,
      fe_post_cid = po_post_cid ?p\<rparr> # feed_of ?d5)\<rparr>\<rparr>"
  obtain d7 where d7: "publish_and_announce_head (town n) ?d6 = (Inr (), d7)"
    using h [of ?d6] by (auto simp: alice_device_def)
  have "create_post (town n) ''hi'' [] alice_device = (Inr ?p, d7)"
    using d7 by (simp add: create_post_def bindD_def o u nowD_def run_basic pin w run_social [OF town_storage] alice_did)
  then show ?thesis using ne by (simp add: fresh_post_def of_bytes_def)
qed

lemma town_serves: "serves (town n) (town m)"
  by (auto simp: serves_def extract_cid_def dig2_def or_else_def j_get_str_def fetched_bytes_def sample_prims_def)

end
