(* ===== verification/Social_Merge.thy ===== *)
theory Social_Merge
imports Social_Federation "HOL-Library.Multiset"
begin

text \<open>
  What the copies of a social group on several devices come to, in whatever order the events
  arrive, and who can delete a post.
\<close>

section \<open>Merging as a join\<close>

text \<open>The part of a group that merging is meant to agree on: who is in it, when it was last active
  and how many messages are unread.\<close>

type_synonym group_view = "(string set \<times> int \<times> nat) option"

definition view_of :: "social_group \<Rightarrow> group_view" where
  "view_of g = Some (set (sg_members g), sg_last_ts g, sg_unread g)"

definition group_view :: "string \<Rightarrow> social_group list \<Rightarrow> group_view" where
  "group_view gid l = Option.bind (find (\<lambda>g. sg_id g = gid) l) view_of"

fun join_view :: "group_view \<Rightarrow> group_view \<Rightarrow> group_view" where
  "join_view None w = w"
| "join_view v None = v"
| "join_view (Some (ms, t, n)) (Some (ms', t', n')) = Some (ms \<union> ms', max t t', min (n + n') (2 ^ 32 - 1))"

lemma join_view_comm: "join_view v w = join_view w v"
  by (cases v; cases w) (auto simp: ac_simps)

lemma join_view_assoc: "join_view (join_view u v) w = join_view u (join_view v w)"
  by (cases u; cases v; cases w) (auto simp: ac_simps)

lemma set_add_members: "set (add_members ms xs) = set ms \<union> set xs"
  by (induction ms xs rule: add_members.induct) auto

lemma sat_add32_min: "sat_add32 a b = min (a + b) (2 ^ 32 - 1)"
  by (simp add: sat_add32_def)

lemma view_merge: "view_of (merge_group u g) = join_view (view_of g) (view_of u)"
  by (simp add: view_of_def merge_group_def Let_def set_add_members sat_add32_min max_def)

lemma merge_group_id [simp]: "sg_id (merge_group u g) = sg_id g"
  by (simp add: merge_group_def Let_def)

lemma find_append: "find P (xs @ ys) = (case find P xs of Some x \<Rightarrow> Some x | None \<Rightarrow> find P ys)"
  by (induction xs) auto

lemma find_merged:
  "find (\<lambda>g. sg_id g = sg_id u) (upd_first (\<lambda>g. sg_id g = sg_id u) (merge_group u) l)
     = map_option (merge_group u) (find (\<lambda>g. sg_id g = sg_id u) l)"
  "sg_id u \<noteq> gid \<Longrightarrow> find (\<lambda>g. sg_id g = gid) (upd_first (\<lambda>g. sg_id g = sg_id u) (merge_group u) l)
     = find (\<lambda>g. sg_id g = gid) l"
  by (induction l) auto

lemma view_merged: "group_view gid (merged_groups u l) =
    (if sg_id u = gid then join_view (group_view gid l) (view_of u) else group_view gid l)"
proof (cases "find (\<lambda>g. sg_id g = sg_id u) l")
  case None
  then show ?thesis
    by (auto simp: group_view_def merged_groups_def find_append split: option.splits)
next
  case (Some g)
  show ?thesis
  proof (cases "sg_id u = gid")
    case True
    then show ?thesis using find_merged(1) [of u l] Some by (simp add: group_view_def merged_groups_def view_merge)
  next
    case False
    then show ?thesis using find_merged(2) [of u gid l] Some by (simp add: group_view_def merged_groups_def)
  qed
qed

lemma merged_ids: "set (map sg_id (merged_groups u l)) = insert (sg_id u) (set (map sg_id l))"
    "distinct (map sg_id l) \<Longrightarrow> distinct (map sg_id (merged_groups u l))"
proof -
  have m: "map sg_id (upd_first (\<lambda>g. sg_id g = sg_id u) (merge_group u) l) = map sg_id l"
    by (induction l) auto
  have f: "find (\<lambda>g. sg_id g = sg_id u) l = None \<longleftrightarrow> sg_id u \<notin> set (map sg_id l)"
    by (auto simp: find_None_iff rev_image_eqI)
  have c: "map sg_id (merged_groups u l) = map sg_id l \<and> sg_id u \<in> set (map sg_id l) \<or>
      map sg_id (merged_groups u l) = map sg_id l @ [sg_id u] \<and> sg_id u \<notin> set (map sg_id l)"
    using f by (simp add: merged_groups_def m)
  then show "set (map sg_id (merged_groups u l)) = insert (sg_id u) (set (map sg_id l))"
    by (elim disjE conjE) (simp_all only: insert_absorb set_append list.set Un_insert_right Un_empty_right)
  show "distinct (map sg_id l) \<Longrightarrow> distinct (map sg_id (merged_groups u l))"
    using c by (elim disjE conjE) simp_all
qed

lemma find_id:
  assumes "distinct (map sg_id l)"
  shows "find (\<lambda>g. sg_id g = gid) l = Some g \<longleftrightarrow> g \<in> set l \<and> sg_id g = gid"
  using assms by (induction l) (auto simp: rev_image_eqI)

lemma view_sorted: "distinct (map sg_id l) \<Longrightarrow> group_view gid (sort_groups l) = group_view gid l"
proof -
  assume d: "distinct (map sg_id l)"
  have d': "distinct (map sg_id (sort_groups l))"
    using d by (simp add: sort_groups_def distinct_map)
  have "find (\<lambda>g. sg_id g = gid) (sort_groups l) = Some g \<longleftrightarrow> find (\<lambda>g. sg_id g = gid) l = Some g" for g
    unfolding find_id [OF d] find_id [OF d'] by (simp add: sort_groups_def)
  then have "find (\<lambda>g. sg_id g = gid) (sort_groups l) = find (\<lambda>g. sg_id g = gid) l"
    by (metis option.exhaust)
  then show ?thesis by (simp add: group_view_def)
qed

section \<open>Groups on a device\<close>

definition groups_of :: "device \<Rightarrow> social_group list" where
  "groups_of d = (case sf_groups (dv_social d) of Some l \<Rightarrow> l | None \<Rightarrow> [])"

lemma run_upsert_group:
  "storage_ok E \<Longrightarrow> upsert_group E u d = (Inr (), d\<lparr>dv_social := (dv_social d)\<lparr>sf_groups := Some (sort_groups (merged_groups u (groups_of d)))\<rparr>\<rparr>)"
  by (simp add: upsert_group_def list_social_groups_def write_social_groups_def run run_basic run_social ignore_Inr groups_of_def)

lemma views_after:
  assumes "storage_ok E" "distinct (map sg_id (groups_of d))"
  shows "group_view gid (groups_of (snd (forD (upsert_group E) us d)))
    = foldl join_view (group_view gid (groups_of d)) (map view_of (filter (\<lambda>u. sg_id u = gid) us))"
  using assms(2)
proof (induction us arbitrary: d)
  case (Cons u us)
  let ?d = "d\<lparr>dv_social := (dv_social d)\<lparr>sf_groups := Some (sort_groups (merged_groups u (groups_of d)))\<rparr>\<rparr>"
  have g: "groups_of ?d = sort_groups (merged_groups u (groups_of d))" by (simp add: groups_of_def)
  have m: "distinct (map sg_id (merged_groups u (groups_of d)))" by (rule merged_ids(2) [OF Cons.prems])
  then have "distinct (map sg_id (groups_of ?d))" unfolding g by (simp add: sort_groups_def distinct_map)
  from Cons.IH [OF this] show ?case
    by (simp add: run run_upsert_group [OF assms(1)] g view_sorted [OF m] view_merged)
qed (simp add: run_basic)

lemma foldl_join_mset:
  assumes "mset vs = mset ws"
  shows "foldl join_view v0 vs = foldl join_view v0 ws"
proof -
  have "fold (\<lambda>w v. join_view v w) vs = fold (\<lambda>w v. join_view v w) ws"
    by (rule fold_multiset_equiv [OF _ assms], rule ext) (simp add: join_view_assoc, metis join_view_comm)
  then show ?thesis by (simp add: foldl_conv_fold)
qed

section \<open>Properties\<close>

text \<open>C35. The copies of a social group merge in any order: after a series of rosters, what a device
  holds of a group - its members, the time of its last message, the count of unread ones - is
  the union, the latest and the saturated sum of what it held and what the rosters of that group
  said, so two orders of the same rosters end in the same group.\<close>

theorem group_merge_order:
  assumes "storage_ok E" "mset us = mset ws" "distinct (map sg_id (groups_of d))"
  shows "group_view gid (groups_of (snd (forD (upsert_group E) us d)))
      = foldl join_view (group_view gid (groups_of d)) (map view_of (filter (\<lambda>u. sg_id u = gid) us)) \<and>
    group_view gid (groups_of (snd (forD (upsert_group E) ws d))) = group_view gid (groups_of (snd (forD (upsert_group E) us d)))"
proof -
  have "mset (map view_of (filter (\<lambda>u. sg_id u = gid) ws)) = mset (map view_of (filter (\<lambda>u. sg_id u = gid) us))"
    using assms(2) by simp
  from foldl_join_mset [OF this] show ?thesis by (simp only: views_after [OF assms(1,3)])
qed

theorem group_merge_order_witness:
  "\<exists>us. length us = 2 \<and> group_view ''g'' (groups_of (snd (forD (upsert_group (town JNull)) us bob_device))) = Some ({''b'', ''a''}, 2, 1)"
proof -
  let ?u = "\<lambda>m t n. \<lparr>sg_id = ''g'', sg_name = ''Friends'', sg_members = [m], sg_creator_did = m, sg_created_at = t,
      sg_last_ts = t, sg_last_preview = ''hi'', sg_unread = n\<rparr>"
  let ?us = "[?u ''a'' 1 0, ?u ''b'' 2 1]" and ?ws = "[?u ''b'' 2 1, ?u ''a'' 1 0]"
  have d: "groups_of bob_device = []" by (simp add: groups_of_def no_social_files_def)
  have "group_view ''g'' (groups_of (snd (forD (upsert_group (town JNull)) ?ws bob_device)))
    = foldl join_view None (map view_of ?us)"
    using group_merge_order [OF town_storage, of ?us ?ws bob_device "''g''" JNull] by (simp add: d group_view_def)
  also have "\<dots> = Some ({''b'', ''a''}, 2, 1)" by (simp add: view_of_def)
  finally show ?thesis by (intro exI [of _ ?ws]) simp
qed

text \<open>C36. Deleting a post is checked on the own device only: the local operation refuses the post
  of another author, but the deletion event of any sender whatsoever removes the post and its
  entry in the feed, whoever wrote it.\<close>

theorem remote_delete_unchecked:
  assumes "storage_ok E" "j_get_str ''post_id'' payload = Some pid"
    and "sf_profile (dv_social d) = Some me" "sf_posts (dv_social d) (post_path pid) = Some p" "po_user_did p \<noteq> pr_did_key me"
  shows "delete_post E pid d = (Inl (Error ''Not your post''), d) \<and>
    (\<exists>h. register E ''post.delete'' = Some h \<and> (\<forall>sender. h payload sender d = (Inr (),
       d\<lparr>dv_social := (dv_social d)\<lparr>sf_posts := (sf_posts (dv_social d))(post_path pid := None),
         sf_feed := Some (filter (\<lambda>e. fe_id e \<noteq> pid) (feed_of d))\<rparr>\<rparr>)))"
proof
  have o: "own_profile E d = (Inr me, d)"
    using assms(3) by (simp add: own_profile_def read_profile_def run run_basic run_social [OF assms(1)])
  show "delete_post E pid d = (Inl (Error ''Not your post''), d)"
    using assms(4,5) by (simp add: delete_post_def read_post_def run run_basic run_social [OF assms(1)] bindD_def o)
  show "\<exists>h. register E ''post.delete'' = Some h \<and> (\<forall>sender. h payload sender d = (Inr (),
       d\<lparr>dv_social := (dv_social d)\<lparr>sf_posts := (sf_posts (dv_social d))(post_path pid := None),
         sf_feed := Some (filter (\<lambda>e. fe_id e \<noteq> pid) (feed_of d))\<rparr>\<rparr>))"
    using assms(2) by (simp add: register_def handle_post_delete_def run run_basic run_social [OF assms(1)] remove_post_def ignore_Inr)
qed

definition posted_device :: device where
  "posted_device = bob_device\<lparr>dv_social := no_social_files\<lparr>sf_profile := Some \<lparr>pr_id = ''b'', pr_name = ''Bob'',
       pr_auth_key_hash = [], pr_did_key = ''did:key:zbob'', pr_role = ''general'', pr_avatar = [], pr_bio = [], pr_followers = [],
       pr_following = [], pr_pending_followers = [], pr_pending_following = [], pr_created_at = [], pr_posts_head = None\<rparr>,
     sf_posts := [post_path ''p'' \<mapsto> \<lparr>po_id = ''p'', po_user_id = ''c'', po_user_did = ''did:key:zcarol'', po_user_name = ''Carol'',
       po_user_avatar = [], po_caption = ''hello'', po_images = [], po_created_at = [], po_reactions = [], po_reposts = [],
       po_comments = [], po_ts = 1, po_post_cid = Some ''c1''\<rparr>],
     sf_feed := Some [\<lparr>fe_id = ''p'', fe_ts = 1, fe_author = ''did:key:zcarol'', fe_post_cid = Some ''c1''\<rparr>]\<rparr>\<rparr>"

theorem remote_delete_unchecked_witness:
  "\<exists>h d'. register (town JNull) ''post.delete'' = Some h \<and> delete_post (town JNull) ''p'' posted_device = (Inl (Error ''Not your post''), posted_device) \<and>
     h (JObj [(''post_id'', JStr ''p'')]) ''did:key:zmallory'' posted_device = (Inr (), d') \<and> sf_posts (dv_social d') (post_path ''p'') = None \<and> feed_of d' = []"
proof -
  let ?f = "dv_social posted_device"
  obtain me p where p: "sf_profile ?f = Some me" "sf_posts ?f (post_path ''p'') = Some p" "po_user_did p \<noteq> pr_did_key me"
    and feed: "filter (\<lambda>e. fe_id e \<noteq> ''p'') (feed_of posted_device) = []"
    by (simp add: posted_device_def)
  have "j_get_str ''post_id'' (JObj [(''post_id'', JStr ''p'')]) = Some ''p''" by (simp add: j_get_str_def)
  from remote_delete_unchecked [OF town_storage this p, of JNull] feed
  show ?thesis by fastforce
qed

end
