(* ===== verification/Runtime.thy ===== *)
theory Runtime
imports Device_Link Social_Profile "HOL-Library.State_Monad"
begin

text \<open>
  The session of an application with its runtime (\<open>capsules/hey-core/src/runtime.rs\<close>): redeeming the
  launch token, the cache of capability tokens, calls of a provider, and the storage over two
  kinds of route, as a browser tab runs them; with the session record of \<open>session.rs\<close>.

  \<^item> \<open>tab\<close>: the keys an application owns in the session and the local storage of its tab (a value
    that is absent or does not decode is \<open>None\<close>), the token cache in memory (\<open>None\<close> until it is
    first used), the clock, and the number of answers taken. Writing to those storages succeeds.
  \<^item> \<open>web\<close>: the outside. A \<open>fetch\<close> answers by that number; it takes time, and a sleep takes at least
    the time asked for, so the clock of a tab does not go back.
  \<^item> An operation is a \<open>state\<close> of the library theory \<open>State_Monad\<close> over the tab; a \<open>Result\<close> is a
    value of it, whose error carries the HTTP status. What the browser says about a failed fetch
    is left out of the message.
\<close>

section \<open>Tab and web\<close>

record tab =
  tb_redeemed :: bool
  tb_launch :: "string option"
  tb_bearer :: "string option"
  tb_store :: "(string \<Rightarrow> string option) option"
  tb_route :: "string option"
  tb_session :: "session option"
  tb_welcomed :: bool
  tb_cache :: "(string \<Rightarrow> string option) option"
  tb_now :: int
  tb_tick :: nat

record request =
  rq_url :: string
  rq_method :: string
  rq_body :: "string option"
  rq_headers :: "(string \<times> string) list"

record response =
  hr_status :: nat
  hr_json :: "json option"

record web =
  wb_env :: env
  wb_pathname :: string
  wb_param :: "string \<Rightarrow> string option"
  wb_fetch :: "nat \<Rightarrow> request \<Rightarrow> response option"
  wb_header_ok :: "string \<Rightarrow> string \<Rightarrow> bool"
  wb_delay :: "nat \<Rightarrow> nat"
  wb_capsule :: string
  wb_namespace :: string
  wb_boot :: "(string \<times> string) list"

type_synonym 'a op = "(tab, 'a) state"

record rt_error =
  re_message :: string
  re_status :: "nat option"

definition new_error :: "string \<Rightarrow> rt_error" where
  "new_error s = \<lparr>re_message = s, re_status = None\<rparr>"

definition with_status :: "string \<Rightarrow> nat \<Rightarrow> rt_error" where
  "with_status s n = \<lparr>re_message = s, re_status = Some n\<rparr>"

definition hr_ok :: "response \<Rightarrow> bool" where
  "hr_ok r = (200 \<le> hr_status r \<and> hr_status r < 300)"

definition modify :: "(tab \<Rightarrow> tab) \<Rightarrow> unit op" where
  "modify f = State (\<lambda>t. ((), f t))"

definition gets :: "(tab \<Rightarrow> 'a) \<Rightarrow> 'a op" where
  "gets f = State (\<lambda>t. (f t, t))"

text \<open>\<open>?\<close> on a \<open>Result\<close>.\<close>

definition or_fail :: "(rt_error + 'a) op \<Rightarrow> ('a \<Rightarrow> (rt_error + 'b) op) \<Rightarrow> (rt_error + 'b) op" where
  "or_fail m f = do { r \<leftarrow> m; case r of Inl e \<Rightarrow> State_Monad.return (Inl e) | Inr x \<Rightarrow> f x }"

definition api_base :: "web \<Rightarrow> string" where
  "api_base W = (case find_sub ''/apps/'' (wb_pathname W) of Some i \<Rightarrow> take i (wb_pathname W) | None \<Rightarrow> [])"

definition api_url :: "web \<Rightarrow> string \<Rightarrow> string" where
  "api_url W path = api_base W @ path"

definition encode_uri :: "web \<Rightarrow> string \<Rightarrow> string" where
  "encode_uri W s = en_encode_uri (wb_env W) s"

section \<open>Fetching\<close>

definition str_members :: "json \<Rightarrow> (string \<times> string) list" where
  "str_members h = (case h of JObj ms \<Rightarrow> List.map_filter (\<lambda>(k, v). map_option (Pair k) (j_str v)) ms | _ \<Rightarrow> [])"

definition with_bearer :: "string option \<Rightarrow> (string \<times> string) list \<Rightarrow> (string \<times> string) list" where
  "with_bearer tok hs = (if list_ex (\<lambda>(k, _). to_ascii_lowercase k = ''authorization'') hs then hs
     else case tok of Some s \<Rightarrow> hs @ [(''Authorization'', ''Bearer '' @ s)] | None \<Rightarrow> hs)"

definition fetch_raw :: "web \<Rightarrow> string \<Rightarrow> string \<Rightarrow> string option \<Rightarrow> json \<Rightarrow> response option op" where
  "fetch_raw W url verb body headers = do {
     tok \<leftarrow> gets tb_bearer;
     let hs = with_bearer tok (str_members headers);
     if list_all (\<lambda>(k, v). wb_header_ok W k v) hs then do {
       k \<leftarrow> gets tb_tick;
       modify (\<lambda>t. t\<lparr>tb_now := tb_now t + int (wb_delay W k), tb_tick := k + 1\<rparr>);
       State_Monad.return (wb_fetch W k \<lparr>rq_url = url, rq_method = verb, rq_body = body, rq_headers = hs\<rparr>) }
     else State_Monad.return None }"

definition sleep_ms :: "web \<Rightarrow> nat \<Rightarrow> unit op" where
  "sleep_ms W d = modify (\<lambda>t. t\<lparr>tb_now := tb_now t + int d + int (wb_delay W (tb_tick t)), tb_tick := tb_tick t + 1\<rparr>)"

definition content_type :: json where
  "content_type = JObj [(''Content-Type'', JStr ''application/json'')]"

text \<open>\<open>headers[k] = v\<close> on an object or on null.\<close>

definition set_header :: "string \<Rightarrow> string \<Rightarrow> json \<Rightarrow> json" where
  "set_header k v h = (case h of JObj ms \<Rightarrow> JObj (filter (\<lambda>m. fst m \<noteq> k) ms @ [(k, JStr v)]) | _ \<Rightarrow> JObj [(k, JStr v)])"

section \<open>The launch token\<close>

definition read_url_token :: "web \<Rightarrow> string option" where
  "read_url_token W = or_else (wb_param W ''home_token'') (wb_param W ''runtime_token'')"

definition home_launch_token_raw :: "web \<Rightarrow> string option op" where
  "home_launch_token_raw W = do {
     stored \<leftarrow> gets tb_launch;
     case (stored, read_url_token W) of
       (Some prev, Some fresh) \<Rightarrow> if fresh \<noteq> prev
         then do { modify (\<lambda>t. t\<lparr>tb_redeemed := False, tb_store := None, tb_launch := Some fresh\<rparr>); State_Monad.return (Some fresh) }
         else State_Monad.return (Some prev)
     | (Some prev, None) \<Rightarrow> State_Monad.return (Some prev)
     | (None, Some fresh) \<Rightarrow> do { modify (\<lambda>t. t\<lparr>tb_launch := Some fresh\<rparr>); State_Monad.return (Some fresh) }
     | (None, None) \<Rightarrow> State_Monad.return None }"

definition home_launch_token :: "web \<Rightarrow> string option op" where
  "home_launch_token W = do {
     raw \<leftarrow> home_launch_token_raw W;
     now \<leftarrow> gets tb_now;
     State_Monad.return (Option.bind raw (resolve_device_link_token (wb_env W) now)) }"

definition device_link_url :: "web \<Rightarrow> string \<Rightarrow> string \<Rightarrow> string option op" where
  "device_link_url W origin app = do {
     launch \<leftarrow> home_launch_token W;
     now \<leftarrow> gets tb_now;
     State_Monad.return (map_option (\<lambda>raw. ''heyapp://connect?host='' @ encode_uri W (origin @ api_base W)
       @ ''&app='' @ encode_uri W app @ ''&token='' @ encode_uri W (make_device_link_token (wb_env W) now raw)) launch) }"

text \<open>The legacy exchange, whose answer carries the bearer.\<close>

definition runtime_token_exchange :: "web \<Rightarrow> json \<Rightarrow> bool op" where
  "runtime_token_exchange W headers = do {
     r \<leftarrow> fetch_raw W (api_url W (''/api/apps/'' @ wb_capsule W @ ''/runtime-token'')) ''POST'' (Some ''{}'') headers;
     case r of None \<Rightarrow> State_Monad.return False
     | Some rsp \<Rightarrow> if \<not> hr_ok rsp then State_Monad.return False
       else (case Option.bind (hr_json rsp) (j_get_str ''token'') of None \<Rightarrow> State_Monad.return False
         | Some tok \<Rightarrow> do { modify (\<lambda>t. t\<lparr>tb_bearer := Some tok, tb_redeemed := True\<rparr>); State_Monad.return True }) }"

definition redeem_launch_token :: "web \<Rightarrow> bool op" where
  "redeem_launch_token W = do {
     redeemed \<leftarrow> gets tb_redeemed;
     if redeemed then State_Monad.return True else do {
       launch \<leftarrow> home_launch_token W;
       case launch of None \<Rightarrow> State_Monad.return False
       | Some tok \<Rightarrow> do {
           let headers = set_header ''x-elastos-home-token'' tok content_type;
           r \<leftarrow> fetch_raw W (api_url W (''/api/apps/'' @ wb_capsule W @ ''/session/start'')) ''POST'' (Some ''{}'') headers;
           case r of None \<Rightarrow> State_Monad.return False
           | Some rsp \<Rightarrow> if hr_ok rsp then do { modify (\<lambda>t. t\<lparr>tb_redeemed := True\<rparr>); State_Monad.return True }
             else if hr_status rsp \<noteq> 404 \<and> hr_status rsp \<noteq> 405 then State_Monad.return False
             else runtime_token_exchange W headers } } }"

definition upstream_fetch :: "web \<Rightarrow> string \<Rightarrow> string \<Rightarrow> string option \<Rightarrow> (rt_error + response) op" where
  "upstream_fetch W path verb body = do {
     _ \<leftarrow> redeem_launch_token W;
     r \<leftarrow> fetch_raw W (api_url W path) verb body content_type;
     State_Monad.return (case r of Some rsp \<Rightarrow> Inr rsp | None \<Rightarrow> Inl (new_error ''fetch error'')) }"

section \<open>Capability tokens\<close>

definition FALLBACK_TOKEN :: string where "FALLBACK_TOKEN = ''capsule-session''"

definition token_key :: "string \<Rightarrow> string \<Rightarrow> string" where
  "token_key resource action = action @ ''::'' @ resource"

text \<open>The cache in memory, filled from the session storage at its first use.\<close>

definition load_token_store :: "tab \<Rightarrow> string \<Rightarrow> string option" where
  "load_token_store t = (case tb_store t of Some m \<Rightarrow> m | None \<Rightarrow> no_map)"

definition token_cache :: "(string \<Rightarrow> string option) op" where
  "token_cache = do {
     modify (\<lambda>t. case tb_cache t of None \<Rightarrow> t\<lparr>tb_cache := Some (load_token_store t)\<rparr> | Some _ \<Rightarrow> t);
     gets (\<lambda>t. case tb_cache t of Some m \<Rightarrow> m | None \<Rightarrow> no_map) }"

definition token_for_resource :: "string \<Rightarrow> string \<Rightarrow> string op" where
  "token_for_resource resource action = do {
     m \<leftarrow> token_cache;
     State_Monad.return (case m (token_key resource action) of Some tok \<Rightarrow> tok | None \<Rightarrow> FALLBACK_TOKEN) }"

definition poll_delays :: "nat list" where "poll_delays = [200, 400, 800, 1500, 2000]"

definition poll_delay :: "nat \<Rightarrow> nat" where
  "poll_delay i = poll_delays ! min i (length poll_delays - 1)"

text \<open>One answer of the shell: \<open>None\<close> is to go on polling.\<close>

definition poll_verdict :: "response option \<Rightarrow> string option option" where
  "poll_verdict r = (case r of None \<Rightarrow> None
     | Some rsp \<Rightarrow> if \<not> hr_ok rsp then None
       else (case hr_json rsp of None \<Rightarrow> None
         | Some v \<Rightarrow> (let s = or_empty (j_get_str ''status'' v) in
             if s = ''granted'' then Some (j_get_str ''token'' v)
             else if s = ''denied'' \<or> s = ''expired'' then Some None else None)))"

definition poll_once_for :: "web \<Rightarrow> string \<Rightarrow> nat \<Rightarrow> string option option op" where
  "poll_once_for W request_id i = do {
     sleep_ms W (poll_delay i);
     r \<leftarrow> fetch_raw W (api_url W (''/api/capability/request/'' @ encode_uri W request_id)) ''GET'' None (JObj []);
     State_Monad.return (poll_verdict r) }"

lemma poll_delay_ge: "200 \<le> poll_delay i"
proof -
  have "\<forall>d \<in> set poll_delays. 200 \<le> d" by (simp add: poll_delays_def)
  moreover have "poll_delay i \<in> set poll_delays"
    unfolding poll_delay_def by (rule nth_mem) (simp add: poll_delays_def)
  ultimately show ?thesis by blast
qed

lemma run_op [simp]:
  "run_state (modify f) t = ((), f t)" "run_state (gets g) t = (g t, t)"
  by (simp_all add: modify_def gets_def)

lemma poll_once_time: "run_state (poll_once_for W rid i) t = (r, t') \<Longrightarrow> tb_now t' \<ge> tb_now t + int (poll_delay i)"
  by (auto simp: poll_once_for_def sleep_ms_def fetch_raw_def Let_def split: if_splits)

text \<open>The loop of at most thirty seconds.\<close>

function poll_loop :: "web \<Rightarrow> string \<Rightarrow> int \<Rightarrow> nat \<Rightarrow> tab \<Rightarrow> string option \<times> tab" where
  "poll_loop W request_id start i t = (if tb_now t - start < 30000
     then (case run_state (poll_once_for W request_id i) t of
         (Some verdict, t') \<Rightarrow> (verdict, t') | (None, t') \<Rightarrow> poll_loop W request_id start (i + 1) t')
     else (None, t))"
  by auto
termination
proof (relation "measure (\<lambda>(W, rid, start, i, t). nat (30000 - (tb_now t - start)))")
  fix W request_id i t start r and t' :: tab
  assume a: "tb_now t - start < (30000::int)" "(r, t') = run_state (poll_once_for W request_id i) t"
  have "tb_now t' \<ge> tb_now t + int (poll_delay i)" using poll_once_time a(2) by metis
  then show "((W, request_id, start, i + 1, t'), W, request_id, start, i, t) \<in> measure (\<lambda>(W, rid, start, i, t). nat (30000 - (tb_now t - start)))"
    using poll_delay_ge [of i] a(1) by simp
qed simp

declare poll_loop.simps [simp del]

definition request_capability_token :: "web \<Rightarrow> string \<Rightarrow> string \<Rightarrow> (rt_error + string option) op" where
  "request_capability_token W resource action = do {
     _ \<leftarrow> redeem_launch_token W;
     r \<leftarrow> fetch_raw W (api_url W ''/api/capability/request'') ''POST''
       (Some (en_text (wb_env W) (JObj [(''resource'', JStr resource), (''action'', JStr action)]))) content_type;
     case r of None \<Rightarrow> State_Monad.return (Inl (new_error ''capability/request fetch''))
     | Some rsp \<Rightarrow> if \<not> hr_ok rsp then State_Monad.return (Inl (with_status ''capability/request'' (hr_status rsp)))
       else (case hr_json rsp of None \<Rightarrow> State_Monad.return (Inl (new_error ''capability/request json''))
       | Some initial \<Rightarrow> (let status = or_empty (j_get_str ''status'' initial) in
           if status = ''granted'' then State_Monad.return (Inr (j_get_str ''token'' initial))
           else if status = ''auto_denied'' \<or> status = ''denied'' then State_Monad.return (Inr None)
           else (case j_get_str ''request_id'' initial of
             None \<Rightarrow> State_Monad.return (Inl (new_error ''capability/request: pending with no request_id''))
           | Some request_id \<Rightarrow> do {
               start \<leftarrow> gets tb_now;
               tok \<leftarrow> State (poll_loop W request_id start 0);
               State_Monad.return (Inr tok) }))) }"

definition ensure_capability_token :: "web \<Rightarrow> string \<Rightarrow> string \<Rightarrow> string op" where
  "ensure_capability_token W resource action = do {
     m \<leftarrow> token_cache;
     case m (token_key resource action) of Some cached \<Rightarrow> State_Monad.return cached
     | None \<Rightarrow> do {
         r \<leftarrow> request_capability_token W resource action;
         case r of Inr (Some tok) \<Rightarrow> do {
             m' \<leftarrow> token_cache;
             let new = m'(token_key resource action := Some tok);
             modify (\<lambda>t. t\<lparr>tb_cache := Some new, tb_store := Some new\<rparr>);
             State_Monad.return tok }
         | _ \<Rightarrow> State_Monad.return FALLBACK_TOKEN } }"

fun acquire_all :: "web \<Rightarrow> (string \<times> string) list \<Rightarrow> unit op" where
  "acquire_all W [] = State_Monad.return ()"
| "acquire_all W ((resource, action) # rs) = do { _ \<leftarrow> ensure_capability_token W resource action; acquire_all W rs }"

definition acquire_boot_capabilities :: "web \<Rightarrow> unit op" where
  "acquire_boot_capabilities W = acquire_all W (wb_boot W)"

section \<open>Calling a provider\<close>

definition scheme_to_resource :: "string \<Rightarrow> string" where
  "scheme_to_resource scheme = ''elastos://'' @ scheme @ ''/*''"

definition provider_answer :: "string \<Rightarrow> string \<Rightarrow> response option \<Rightarrow> rt_error + json" where
  "provider_answer scheme opname r = (case r of None \<Rightarrow> Inl (new_error ''provider_call fetch'')
     | Some rsp \<Rightarrow> if \<not> hr_ok rsp
         then Inl (with_status (''provider_call('' @ scheme @ '', '' @ opname @ '')'') (hr_status rsp))
         else (case hr_json rsp of Some v \<Rightarrow> Inr v | None \<Rightarrow> Inl (new_error ''provider_call json'')))"

definition provider_call :: "web \<Rightarrow> string \<Rightarrow> string \<Rightarrow> json \<Rightarrow> (rt_error + json) op" where
  "provider_call W scheme opname body = do {
     let url = api_base W @ ''/api/provider/'' @ encode_uri W scheme @ ''/'' @ encode_uri W opname;
     cap \<leftarrow> ensure_capability_token W (scheme_to_resource scheme) ''write'';
     launch \<leftarrow> home_launch_token W;
     let headers = set_header ''X-Capability-Token'' cap content_type;
     let headers = (case launch of Some tok \<Rightarrow> set_header ''x-elastos-home-token'' tok headers | None \<Rightarrow> headers);
     r \<leftarrow> fetch_raw W url ''POST'' (Some (en_text (wb_env W) body)) headers;
     State_Monad.return (provider_answer scheme opname r) }"

text \<open>The same call on the command line: one request over the loopback transport, whose answer is
  a status and a text.\<close>

definition cli_provider_call :: "env \<Rightarrow> (string \<Rightarrow> string \<Rightarrow> string \<Rightarrow> (nat \<times> string) res) \<Rightarrow> string \<Rightarrow> string \<Rightarrow> string \<Rightarrow> json \<Rightarrow> rt_error + json" where
  "cli_provider_call E http base scheme opname body =
     (let name = ''provider_call('' @ scheme @ '', '' @ opname @ '')'' in
     case http ''POST'' (base @ ''/api/provider/'' @ en_encode_uri E scheme @ ''/'' @ en_encode_uri E opname) (en_text E body) of
       Inr (status, text) \<Rightarrow> if \<not> (200 \<le> status \<and> status < 300) then Inl (with_status (name @ '': '' @ text) status)
         else Inr (case en_parse E text of Some v \<Rightarrow> v | None \<Rightarrow> JNull)
     | Inl _ \<Rightarrow> Inl (new_error (name @ '' http'')))"

section \<open>Settings of the peer provider\<close>

record net_config =
  nc_relay_mode :: string
  nc_bind_port :: nat
  nc_public_addr :: string
  nc_node_id :: string
  nc_ticket :: string
  nc_running_independent :: bool

definition net_config_of :: "json \<Rightarrow> net_config option" where
  "net_config_of j = do {
     ms \<leftarrow> as_fields [''relay_mode'', ''bind_port'', ''public_addr'', ''node_id'', ''ticket'', ''running_independent''] j;
     m \<leftarrow> f_str_dflt ''relay_mode'' ms; p \<leftarrow> f_nat_dflt 32 ''bind_port'' ms; a \<leftarrow> f_str_dflt ''public_addr'' ms;
     n \<leftarrow> f_str_dflt ''node_id'' ms; tk \<leftarrow> f_str_dflt ''ticket'' ms;
     ri \<leftarrow> (case map_of ms ''running_independent'' of None \<Rightarrow> Some False | Some v \<Rightarrow> j_bool v);
     Some \<lparr>nc_relay_mode = m, nc_bind_port = p, nc_public_addr = a, nc_node_id = n, nc_ticket = tk, nc_running_independent = ri\<rparr> }"

definition pick_field :: "json \<Rightarrow> string \<Rightarrow> string" where
  "pick_field rsp k = or_empty (Option.bind (or_else (j_get k rsp) (Option.bind (j_get ''data'' rsp) (j_get k))) j_str)"

definition get_ticket :: "web \<Rightarrow> (rt_error + json) op" where
  "get_ticket W = provider_call W ''peer'' ''get_ticket'' (JObj [])"

definition ticket_config :: "json \<Rightarrow> net_config option" where
  "ticket_config rsp = (if pick_field rsp ''node_id'' = [] then None
     else Some \<lparr>nc_relay_mode = ''default'', nc_bind_port = 0, nc_public_addr = [], nc_node_id = pick_field rsp ''node_id'',
       nc_ticket = pick_field rsp ''ticket'', nc_running_independent = False\<rparr>)"

definition get_config :: "web \<Rightarrow> net_config option op" where
  "get_config W = do {
     r \<leftarrow> provider_call W ''peer'' ''get_config'' (JObj []);
     let own = (case r of Inr rsp \<Rightarrow> (case net_config_of rsp of Some c \<Rightarrow> if nc_node_id c = [] then None else Some c | None \<Rightarrow> None)
                | Inl _ \<Rightarrow> None);
     case own of Some cfg \<Rightarrow> State_Monad.return (Some cfg)
     | None \<Rightarrow> do {
         r2 \<leftarrow> get_ticket W;
         State_Monad.return (case r2 of Inr rsp \<Rightarrow> ticket_config rsp | Inl _ \<Rightarrow> None) } }"

definition set_config :: "web \<Rightarrow> string \<Rightarrow> nat \<Rightarrow> string \<Rightarrow> (rt_error + bool) op" where
  "set_config W relay_mode bind_port public_addr = or_fail
     (provider_call W ''peer'' ''set_config'' (JObj [(''relay_mode'', JStr relay_mode), (''bind_port'', JInt (int bind_port)),
        (''public_addr'', JStr public_addr)]))
     (\<lambda>rsp. State_Monad.return (Inr (case Option.bind (j_get ''restart_required'' rsp) j_bool of Some b \<Rightarrow> b | None \<Rightarrow> False)))"

section \<open>Storage\<close>

definition trim_slashes :: "string \<Rightarrow> string" where
  "trim_slashes p = dropWhile (\<lambda>c. c = CHR ''/'') p"

text \<open>The two shapes of route: the application's own storage, and the legacy tree of the user.\<close>

definition legacy_path :: "web \<Rightarrow> string \<Rightarrow> string" where
  "legacy_path W s = (if starts_with s (wb_namespace W @ ''/'') then ''.AppData/LocalHost/'' @ s else s)"

definition build_storage_url :: "web \<Rightarrow> string \<Rightarrow> string \<Rightarrow> (string \<times> json) op" where
  "build_storage_url W md suffix = (let s = trim_slashes suffix in
     if md = ''patch-0002'' then do {
       launch \<leftarrow> home_launch_token W;
       State_Monad.return (api_base W @ ''/api/apps/'' @ wb_capsule W @ ''/storage/'' @ s,
         case launch of Some tok \<Rightarrow> JObj [(''x-elastos-home-token'', JStr tok)] | None \<Rightarrow> JNull) }
     else State_Monad.return (api_base W @ ''/api/localhost/Users/self/'' @ legacy_path W s, JNull))"

definition attempt :: "web \<Rightarrow> string \<Rightarrow> string \<Rightarrow> string \<Rightarrow> string option \<Rightarrow> (rt_error + response) op" where
  "attempt W md suffix verb body = do {
     (url, headers) \<leftarrow> build_storage_url W md suffix;
     r \<leftarrow> fetch_raw W url verb body (if body \<noteq> None then set_header ''Content-Type'' ''application/json'' headers else headers);
     State_Monad.return (case r of Some rsp \<Rightarrow> Inr rsp | None \<Rightarrow> Inl (new_error ''storage fetch'')) }"

definition set_route_mode :: "string \<Rightarrow> unit op" where
  "set_route_mode md = modify (\<lambda>t. t\<lparr>tb_route := Some md\<rparr>)"

definition detect_route :: "web \<Rightarrow> string \<Rightarrow> string \<Rightarrow> string option \<Rightarrow> (rt_error + response) op" where
  "detect_route W suffix verb body = or_fail (attempt W ''patch-0002'' suffix verb body) (\<lambda>rsp.
     if hr_status rsp = 401 \<or> hr_status rsp = 403
     then or_fail (attempt W ''legacy'' suffix verb body) (\<lambda>legacy.
       if hr_status legacy < 400 then do { set_route_mode ''legacy''; State_Monad.return (Inr legacy) }
       else do { set_route_mode ''patch-0002''; State_Monad.return (Inr rsp) })
     else do { set_route_mode ''patch-0002''; State_Monad.return (Inr rsp) })"

definition dispatch_storage :: "web \<Rightarrow> string \<Rightarrow> string \<Rightarrow> string option \<Rightarrow> (rt_error + response) op" where
  "dispatch_storage W suffix verb body = do {
     _ \<leftarrow> redeem_launch_token W;
     md \<leftarrow> gets tb_route;
     case md of None \<Rightarrow> detect_route W suffix verb body
     | Some md \<Rightarrow> or_fail (attempt W md suffix verb body) (\<lambda>cached.
         if hr_status cached \<noteq> 405 then State_Monad.return (Inr cached)
         else do { modify (\<lambda>t. t\<lparr>tb_route := None\<rparr>); detect_route W suffix verb body }) }"

definition private_path :: "web \<Rightarrow> string \<Rightarrow> string" where
  "private_path W path = wb_namespace W @ ''/'' @ trim_slashes path"

definition json_or_fail :: "string \<Rightarrow> response \<Rightarrow> rt_error + json option" where
  "json_or_fail msg rsp = (case hr_json rsp of Some v \<Rightarrow> Inr (Some v) | None \<Rightarrow> Inl (new_error msg))"

definition storage_read_json :: "web \<Rightarrow> string \<Rightarrow> (rt_error + json option) op" where
  "storage_read_json W path = or_fail (dispatch_storage W (private_path W path) ''GET'' None) (\<lambda>rsp.
     State_Monad.return (if hr_status rsp = 404 then Inr None
       else if \<not> hr_ok rsp then Inl (with_status (''storage GET '' @ path) (hr_status rsp))
       else json_or_fail ''storage read json'' rsp))"

definition storage_write_json :: "web \<Rightarrow> string \<Rightarrow> json \<Rightarrow> (rt_error + unit) op" where
  "storage_write_json W path value = or_fail (dispatch_storage W (private_path W path) ''PUT'' (Some (en_text (wb_env W) value))) (\<lambda>rsp.
     State_Monad.return (if hr_status rsp = 412 then Inr ()
       else if \<not> hr_ok rsp then Inl (with_status (''storage PUT '' @ path) (hr_status rsp)) else Inr ()))"

definition storage_remove :: "web \<Rightarrow> string \<Rightarrow> (rt_error + unit) op" where
  "storage_remove W path = or_fail (dispatch_storage W (private_path W path) ''DELETE'' None) (\<lambda>rsp.
     State_Monad.return (if \<not> hr_ok rsp \<and> hr_status rsp \<noteq> 404
       then Inl (with_status (''storage DELETE '' @ path) (hr_status rsp)) else Inr ()))"

definition shared_write_json :: "web \<Rightarrow> string \<Rightarrow> json \<Rightarrow> (rt_error + unit) op" where
  "shared_write_json W suffix value = or_fail (dispatch_storage W suffix ''PUT'' (Some (en_text (wb_env W) value))) (\<lambda>rsp.
     State_Monad.return (if \<not> hr_ok rsp then Inl (with_status (''shared_write_json PUT '' @ suffix) (hr_status rsp)) else Inr ()))"

definition shared_read_json :: "web \<Rightarrow> string \<Rightarrow> (rt_error + json option) op" where
  "shared_read_json W suffix = or_fail (dispatch_storage W suffix ''GET'' None) (\<lambda>rsp.
     State_Monad.return (if hr_status rsp = 404 then Inr None
       else if \<not> hr_ok rsp then Inl (with_status (''shared_read_json GET '' @ suffix) (hr_status rsp))
       else json_or_fail ''shared read json'' rsp))"

section \<open>Who is signed in\<close>

definition session_current :: "web \<Rightarrow> json option op" where
  "session_current W = do {
     _ \<leftarrow> redeem_launch_token W;
     r \<leftarrow> fetch_raw W (api_url W ''/api/session'') ''GET'' None (JObj []);
     State_Monad.return (case r of None \<Rightarrow> None | Some rsp \<Rightarrow> if \<not> hr_ok rsp then None else hr_json rsp) }"

fun at_path :: "json \<Rightarrow> string list \<Rightarrow> json option" where
  "at_path v [] = Some v"
| "at_path v (k # ks) = (case j_get k v of Some w \<Rightarrow> at_path w ks | None \<Rightarrow> None)"

fun first_str :: "json \<Rightarrow> string list list \<Rightarrow> string option" where
  "first_str v [] = None"
| "first_str v (p # ps) = (case Option.bind (at_path v p) j_str of
     Some s \<Rightarrow> if s \<noteq> [] then Some s else first_str v ps | None \<Rightarrow> first_str v ps)"

text \<open>The slice panics when it begins inside a character.\<close>

definition short_did_name :: "string \<Rightarrow> string res" where
  "short_did_name did = (if length did > 10
     then (if is_cont (did ! (length did - 6)) then Inl (Panic ''byte index is not a char boundary'')
           else Inr (''user-'' @ drop (length did - 6) did))
     else Inr did)"

definition did_paths :: "string list list" where
  "did_paths = [[''didKey''], [''did_key''], [''did''], [''user'', ''didKey''], [''user'', ''did_key''], [''user'', ''did''],
     [''identity'', ''didKey''], [''identity'', ''did'']]"

definition name_paths :: "string list list" where
  "name_paths = [[''name''], [''display_name''], [''displayName''], [''user'', ''name''], [''user'', ''display_name''],
     [''user'', ''displayName''], [''identity'', ''name'']]"

definition inherited :: "json \<Rightarrow> session option res" where
  "inherited raw = (case first_str raw did_paths of None \<Rightarrow> Inr None
     | Some did \<Rightarrow> if \<not> starts_with did ''did:'' then Inr None
       else bindR (case first_str raw name_paths of Some n \<Rightarrow> Inr n | None \<Rightarrow> short_did_name did) (\<lambda>name.
         Inr (Some \<lparr>ss_auth_key_hex = [], ss_did_key = did, ss_name = name, ss_kem_secret = [], ss_kem_public = []\<rparr>)))"

definition inherit_session :: "web \<Rightarrow> session option res op" where
  "inherit_session W = do {
     raw \<leftarrow> session_current W;
     State_Monad.return (case raw of None \<Rightarrow> Inr None | Some v \<Rightarrow> inherited v) }"

section \<open>The session record\<close>

definition current_session :: "session option op" where
  "current_session = gets tb_session"

definition set_session :: "session \<Rightarrow> unit op" where
  "set_session s = modify (\<lambda>t. t\<lparr>tb_session := Some s\<rparr>)"

definition clear_session :: "unit op" where
  "clear_session = modify (\<lambda>t. t\<lparr>tb_session := None\<rparr>)"

definition welcomed :: "bool op" where
  "welcomed = gets tb_welcomed"

definition mark_welcomed :: "unit op" where
  "mark_welcomed = modify (\<lambda>t. t\<lparr>tb_welcomed := True\<rparr>)"

text \<open>The wipe drops the record, the flag and the whole session storage of the tab.\<close>

definition wipe_identity :: "unit op" where
  "wipe_identity = modify (\<lambda>t. t\<lparr>tb_session := None, tb_welcomed := False, tb_redeemed := False, tb_launch := None,
     tb_bearer := None, tb_store := None, tb_route := None\<rparr>)"

end
