(* ===== verification/Runtime_Session.thy ===== *)
theory Runtime_Session
imports Runtime
begin

text \<open>
  What the session of an application with its runtime guarantees: how long a permission is
  waited for, when the storage falls back to the legacy route, and what a fresh launch leaves
  in place.
\<close>

section \<open>Counting answers\<close>

text \<open>An operation takes at most a number of answers.\<close>

definition takes :: "nat \<Rightarrow> 'a op \<Rightarrow> bool" where
  "takes n = state_io_rel (\<lambda>t t'. tb_tick t' \<le> tb_tick t + n)"

lemma takesD: "takes n m \<Longrightarrow> run_state m t = (x, t') \<Longrightarrow> tb_tick t' \<le> tb_tick t + n"
  unfolding takes_def by (rule state_io_relD)

lemma takes_return: "takes n (State_Monad.return x)"
  by (simp add: takes_def state_io_rel_def)

lemma takes_gets: "takes n (gets f)"
  by (simp add: takes_def state_io_rel_def)

lemma takes_modify: "(\<And>t. tb_tick (f t) = tb_tick t) \<Longrightarrow> takes n (modify f)"
  by (simp add: takes_def state_io_rel_def)

lemma takes_bind:
  assumes "takes a m" "\<And>x. takes b (f x)"
  shows "takes (a + b) (State_Monad.bind m f)"
proof -
  have "tb_tick (snd (run_state (State_Monad.bind m f) t)) \<le> tb_tick t + (a + b)" for t
  proof -
    obtain x t1 where m: "run_state m t = (x, t1)" by force
    obtain y t2 where f: "run_state (f x) t1 = (y, t2)" by force
    show ?thesis using takesD [OF assms(1) m] takesD [OF assms(2) f] by (simp add: m f)
  qed
  then show ?thesis by (simp add: takes_def state_io_rel_def)
qed

lemma takes_mono: "takes a m \<Longrightarrow> a \<le> b \<Longrightarrow> takes b m"
  unfolding takes_def state_io_rel_def by (meson add_left_mono order_trans)

lemma takes_fetch: "takes 1 (fetch_raw W url md body headers)"
  by (simp add: takes_def state_io_rel_def fetch_raw_def Let_def)

lemma takes_launch: "takes 0 (home_launch_token W)"
  by (simp add: takes_def state_io_rel_def home_launch_token_def home_launch_token_raw_def split: option.split)

lemma takes_free: "takes 0 m \<Longrightarrow> (\<And>x. takes n (f x)) \<Longrightarrow> takes n (State_Monad.bind m f)"
  using takes_bind [of 0 m n f] by simp

lemma takes_fetch_bind: "(\<And>x. takes n (f x)) \<Longrightarrow> takes (Suc n) (State_Monad.bind (fetch_raw W url md body headers) f)"
  unfolding plus_1_eq_Suc [symmetric] by (rule takes_bind [OF takes_fetch])

lemma takes_if: "(b \<Longrightarrow> takes n m) \<Longrightarrow> (\<not> b \<Longrightarrow> takes n m') \<Longrightarrow> takes n (if b then m else m')"
  by simp

lemma takes_option: "(x = None \<Longrightarrow> takes n m) \<Longrightarrow> (\<And>y. x = Some y \<Longrightarrow> takes n (f y)) \<Longrightarrow> takes n (case x of None \<Rightarrow> m | Some y \<Rightarrow> f y)"
  by (cases x) auto

lemmas takes_rules = takes_return takes_gets takes_launch takes_fetch_bind takes_if takes_option takes_free takes_modify

lemma takes_redeem: "takes 2 (redeem_launch_token W)"
  unfolding redeem_launch_token_def runtime_token_exchange_def Let_def numeral_2_eq_2
  by (intro takes_rules) simp_all

section \<open>Waiting for a permission\<close>

text \<open>The time the first \<open>i\<close> sleeps of the loop take.\<close>

definition slept :: "nat \<Rightarrow> nat" where
  "slept i = (\<Sum>j < i. poll_delay j)"

lemma slept_18: "slept 18 = 30900"
  by code_simp

lemma poll_once_takes: "takes 2 (poll_once_for W rid i)"
proof -
  have "takes 1 (sleep_ms W d)" for d by (simp add: sleep_ms_def takes_def state_io_rel_def)
  moreover have "takes 1 (State_Monad.bind (fetch_raw W url md body h) (\<lambda>r. State_Monad.return (poll_verdict r)))" for url md body h
    using takes_fetch_bind [OF takes_return, of 0] by simp
  ultimately show ?thesis unfolding poll_once_for_def one_add_one [symmetric] by (rule takes_bind)
qed

lemma poll_loop_ticks:
  "poll_loop W rid start i t = (r, t') \<Longrightarrow> i \<le> 18 \<Longrightarrow> start + int (slept i) \<le> tb_now t \<Longrightarrow> tb_tick t' + 2 * i \<le> tb_tick t + 36"
proof (induction W rid start i t rule: poll_loop.induct)
  case (1 W rid start i t)
  show ?case
  proof (cases "tb_now t - start < 30000")
    case True
    then have "i \<noteq> 18" using "1.prems"(3) slept_18 by auto
    then have i: "i + 1 \<le> 18" using "1.prems"(2) by simp
    obtain v t1 where p: "run_state (poll_once_for W rid i) t = (v, t1)" by force
    have tick: "tb_tick t1 \<le> tb_tick t + 2" by (rule takesD [OF poll_once_takes p])
    have now: "start + int (slept (i + 1)) \<le> tb_now t1" using poll_once_time [OF p] "1.prems"(3) by (simp add: slept_def)
    show ?thesis
    proof (cases v)
      case None
      then have "poll_loop W rid start (i + 1) t1 = (r, t')"
        using "1.prems"(1) True p by (simp add: poll_loop.simps [of W rid start i t])
      from "1.IH" [OF True p [symmetric] None this i now] tick show ?thesis by simp
    next
      case (Some verdict)
      then show ?thesis using "1.prems"(1) True p tick i by (simp add: poll_loop.simps [of W rid start i t])
    qed
  next
    case False
    then show ?thesis using "1.prems" by (simp add: poll_loop.simps [of W rid start i t])
  qed
qed

lemma takes_poll: "takes 36 (State_Monad.bind (gets tb_now) (\<lambda>start. State_Monad.bind (State (poll_loop W rid start 0)) f))"
  if "\<And>x. takes 0 (f x)"
proof -
  have "tb_tick (snd (run_state (State_Monad.bind (State (poll_loop W rid (tb_now t) 0)) f) t)) \<le> tb_tick t + 36" for t
  proof -
    obtain r t1 where p: "poll_loop W rid (tb_now t) 0 t = (r, t1)" by force
    obtain y t2 where f: "run_state (f r) t1 = (y, t2)" by force
    show ?thesis using poll_loop_ticks [OF p] takesD [OF that f] by (simp add: p f slept_def)
  qed
  then show ?thesis by (simp add: takes_def state_io_rel_def)
qed

text \<open>A token that an answer of the runtime grants.\<close>

definition granted :: "web \<Rightarrow> string \<Rightarrow> bool" where
  "granted W tok = (\<exists>k req rsp v. wb_fetch W k req = Some rsp \<and> hr_ok rsp \<and> hr_json rsp = Some v \<and>
     j_get_str ''status'' v = Some ''granted'' \<and> j_get_str ''token'' v = Some tok)"

lemma or_empty_status: "or_empty s = x \<Longrightarrow> x \<noteq> [] \<Longrightarrow> s = Some x"
  by (cases s) (auto simp: or_empty_def)

lemma fetch_raw_Some: "run_state (fetch_raw W url md body h) t = (Some rsp, t') \<Longrightarrow> \<exists>k req. wb_fetch W k req = Some rsp"
  by (auto simp: fetch_raw_def Let_def split: if_splits)

lemma poll_once_granted:
  assumes "run_state (poll_once_for W rid i) t = (Some (Some tok), t')"
  shows "granted W tok"
proof -
  let ?fetch = "fetch_raw W (api_url W (''/api/capability/request/'' @ encode_uri W rid)) ''GET'' None (JObj [])"
  obtain t1 where sl: "run_state (sleep_ms W (poll_delay i)) t = ((), t1)" by (simp add: sleep_ms_def)
  obtain r t2 where f: "run_state ?fetch t1 = (r, t2)" by force
  have "poll_verdict r = Some (Some tok)" using assms sl f by (simp add: poll_once_for_def)
  then obtain rsp v where "r = Some rsp" "hr_ok rsp" "hr_json rsp = Some v"
      "j_get_str ''status'' v = Some ''granted''" "j_get_str ''token'' v = Some tok"
    by (auto simp: poll_verdict_def Let_def split: option.splits if_splits dest: or_empty_status)
  then show ?thesis using f fetch_raw_Some unfolding granted_def by metis
qed

lemma poll_loop_granted: "poll_loop W rid start i t = (Some tok, t') \<Longrightarrow> granted W tok"
proof (induction W rid start i t rule: poll_loop.induct)
  case (1 W rid start i t)
  obtain v t1 where p: "run_state (poll_once_for W rid i) t = (v, t1)" by force
  have less: "tb_now t - start < 30000"
    using "1.prems" by (subst (asm) poll_loop.simps) (auto split: if_splits)
  show ?case
  proof (cases v)
    case None
    then show ?thesis using "1.IH" [OF less p [symmetric]] "1.prems" less p by (simp add: poll_loop.simps [of W rid start i t])
  next
    case (Some verdict)
    then show ?thesis using "1.prems" less p poll_once_granted by (simp add: poll_loop.simps [of W rid start i t])
  qed
qed

lemma request_granted:
  assumes "run_state (request_capability_token W resource action) t = (Inr (Some tok), t')"
  shows "granted W tok"
proof -
  obtain b t1 where a: "run_state (redeem_launch_token W) t = (b, t1)" by force
  obtain r t2 where f: "run_state (fetch_raw W (api_url W ''/api/capability/request'') ''POST''
       (Some (en_text (wb_env W) (JObj [(''resource'', JStr resource), (''action'', JStr action)]))) content_type) t1 = (r, t2)" by force
  from assms obtain rsp v where r: "r = Some rsp" "hr_ok rsp" "hr_json rsp = Some v"
    by (auto simp: request_capability_token_def a f split: option.splits if_splits)
  show ?thesis
  proof (cases "or_empty (j_get_str ''status'' v) = ''granted''")
    case True
    then have "j_get_str ''token'' v = Some tok" using assms r by (auto simp: request_capability_token_def a f)
    moreover have "j_get_str ''status'' v = Some ''granted''" using True by (rule or_empty_status) simp
    ultimately show ?thesis using fetch_raw_Some f r unfolding granted_def by metis
  next
    case False
    then show ?thesis
      using assms r poll_loop_granted
      by (auto simp: request_capability_token_def a f Let_def split: if_splits option.splits) (force split: prod.splits)
  qed
qed

section \<open>What the session leaves alone\<close>

text \<open>Relations between tabs that the exchange of tokens and a fetch respect.\<close>

locale tab_relation =
  fixes R :: "tab \<Rightarrow> tab \<Rightarrow> bool"
  assumes R_refl: "R t t"
    and R_trans: "R a b \<Longrightarrow> R b c \<Longrightarrow> R a c"
    and R_answer: "R t (t\<lparr>tb_now := tb_now t + int n, tb_tick := tb_tick t + 1\<rparr>)"
    and R_tokens: "R t (t\<lparr>tb_redeemed := fl, tb_store := m, tb_launch := l\<rparr>)" "R t (t\<lparr>tb_launch := l\<rparr>)"
      "R t (t\<lparr>tb_redeemed := fl\<rparr>)" "R t (t\<lparr>tb_bearer := tok, tb_redeemed := fl\<rparr>)"
begin

definition keeps :: "'a op \<Rightarrow> bool" where
  "keeps = state_io_rel R"

lemma keepsD: "keeps m \<Longrightarrow> run_state m t = (x, t') \<Longrightarrow> R t t'"
  unfolding keeps_def by (rule state_io_relD)

lemma keeps_basic: "keeps (State_Monad.return x)" "keeps (gets f)" "(\<And>t. R t (g t)) \<Longrightarrow> keeps (modify g)"
  by (simp_all add: keeps_def state_io_rel_def R_refl)

lemma keeps_bind: "keeps m \<Longrightarrow> (\<And>x. keeps (f x)) \<Longrightarrow> keeps (State_Monad.bind m f)"
  unfolding keeps_def state_io_rel_def by (simp add: split_def) (meson R_trans)

lemma keeps_cases: "(b \<Longrightarrow> keeps m) \<Longrightarrow> (\<not> b \<Longrightarrow> keeps m') \<Longrightarrow> keeps (if b then m else m')"
  "keeps m \<Longrightarrow> (\<And>y. keeps (f y)) \<Longrightarrow> keeps (case x of None \<Rightarrow> m | Some y \<Rightarrow> f y)"
  "(\<And>a b. keeps (g a b)) \<Longrightarrow> keeps (case p of (a, b) \<Rightarrow> g a b)"
  by (simp_all split: option.split prod.split)

lemma keeps_fetch: "keeps (fetch_raw W url md body headers)"
  using R_answer by (simp add: keeps_def state_io_rel_def fetch_raw_def Let_def R_refl)

lemmas keeps_rules = keeps_bind keeps_basic keeps_cases keeps_fetch

lemma keeps_launch: "keeps (home_launch_token W)"
  unfolding home_launch_token_def home_launch_token_raw_def by (intro keeps_rules R_tokens)

lemma keeps_redeem: "keeps (redeem_launch_token W)"
  unfolding redeem_launch_token_def runtime_token_exchange_def Let_def by (intro keeps_rules keeps_launch R_tokens)

lemma keeps_attempt: "keeps (attempt W md suffix verb body)"
  unfolding attempt_def build_storage_url_def Let_def by (intro keeps_rules keeps_launch)

end

interpretation route: tab_relation "\<lambda>t t'. tb_route t' = tb_route t"
  by unfold_locales simp_all

interpretation clock: tab_relation "\<lambda>t t'. tb_tick t \<le> tb_tick t' \<and> tb_now t \<le> tb_now t'"
  by unfold_locales auto

section \<open>Which route the storage takes\<close>

definition storage_url :: "web \<Rightarrow> string \<Rightarrow> string \<Rightarrow> string" where
  "storage_url W md suffix = (if md = ''patch-0002''
     then api_base W @ ''/api/apps/'' @ wb_capsule W @ ''/storage/'' @ trim_slashes suffix
     else api_base W @ ''/api/localhost/Users/self/'' @ legacy_path W (trim_slashes suffix))"

lemma fetch_raw_at: "run_state (fetch_raw W url md body h) t = (Some rsp, t') \<Longrightarrow>
    \<exists>req. wb_fetch W (tb_tick t) req = Some rsp \<and> rq_url req = url \<and> rq_method req = md \<and> tb_tick t' = tb_tick t + 1"
  by (auto simp: fetch_raw_def Let_def split: if_splits)

lemma attempt_fetch:
  assumes "run_state (attempt W md suffix verb body) t = (Inr rsp, t')"
  shows "\<exists>k req. wb_fetch W k req = Some rsp \<and> rq_url req = storage_url W md suffix \<and> rq_method req = verb \<and>
    tb_tick t \<le> k \<and> k < tb_tick t'"
proof -
  obtain url h t1 where b: "run_state (build_storage_url W md suffix) t = ((url, h), t1)" by (metis surj_pair)
  have u: "url = storage_url W md suffix"
    using b by (auto simp: build_storage_url_def storage_url_def Let_def split_def split: if_splits)
  have "clock.keeps (build_storage_url W md suffix)"
    unfolding build_storage_url_def Let_def by (intro clock.keeps_rules clock.keeps_launch)
  then have t1: "tb_tick t \<le> tb_tick t1" using clock.keepsD [OF _ b] by blast
  obtain r t2 where f: "run_state (fetch_raw W url verb body
      (if body \<noteq> None then set_header ''Content-Type'' ''application/json'' h else h)) t1 = (r, t2)" by force
  from assms f have "r = Some rsp" "t2 = t'" by (auto simp: attempt_def b split: option.splits)
  then show ?thesis using fetch_raw_at [of W url verb body _ t1 rsp t'] f u t1 by fastforce
qed

lemma run_or_fail: "run_state (or_fail m f) t = (case run_state m t of (Inl e, t') \<Rightarrow> (Inl e, t') | (Inr x, t') \<Rightarrow> run_state (f x) t')"
  by (simp add: or_fail_def split: prod.split sum.split)

text \<open>A legacy answer taken after the own route refused.\<close>

definition legacy_after_refusal :: "web \<Rightarrow> string \<Rightarrow> string \<Rightarrow> nat \<Rightarrow> response \<Rightarrow> bool" where
  "legacy_after_refusal W suffix verb k0 rsp = (\<exists>k req k' req' refusal. wb_fetch W k req = Some refusal \<and>
     rq_url req = storage_url W ''patch-0002'' suffix \<and> rq_method req = verb \<and> hr_status refusal \<in> {401, 403} \<and>
     wb_fetch W k' req' = Some rsp \<and> rq_url req' = storage_url W ''legacy'' suffix \<and> rq_method req' = verb \<and>
     hr_status rsp < 400 \<and> k0 \<le> k \<and> k < k')"

lemma detect_legacy:
  assumes "run_state (detect_route W suffix verb body) t = (r, t')" "tb_route t' = Some ''legacy''" "tb_route t \<noteq> Some ''legacy''"
  shows "\<exists>rsp. r = Inr rsp \<and> legacy_after_refusal W suffix verb (tb_tick t) rsp"
proof -
  obtain r1 t1 where a: "run_state (attempt W ''patch-0002'' suffix verb body) t = (r1, t1)" by force
  have t1: "tb_route t1 = tb_route t" by (rule route.keepsD [OF route.keeps_attempt a])
  show ?thesis
  proof (cases r1)
    case (Inl e)
    then show ?thesis using assms a t1 by (simp add: detect_route_def run_or_fail)
  next
    case (Inr refusal)
    show ?thesis
    proof (cases "hr_status refusal = 401 \<or> hr_status refusal = 403")
      case False
      then show ?thesis using assms a Inr by (auto simp: detect_route_def run_or_fail set_route_mode_def)
    next
      case True
      obtain r2 t2 where b: "run_state (attempt W ''legacy'' suffix verb body) t1 = (r2, t2)" by force
      have t2: "tb_route t2 = tb_route t1" by (rule route.keepsD [OF route.keeps_attempt b])
      obtain rsp where r2: "r2 = Inr rsp" "hr_status rsp < 400" "r = Inr rsp"
        using assms a b Inr True t1 t2
        by (cases r2) (auto simp: detect_route_def run_or_fail set_route_mode_def split: if_splits)
      obtain k req where k: "wb_fetch W k req = Some refusal" "rq_url req = storage_url W ''patch-0002'' suffix"
          "rq_method req = verb" "tb_tick t \<le> k" "k < tb_tick t1"
        using attempt_fetch [OF a [unfolded Inr]] by blast
      obtain k' req' where k': "wb_fetch W k' req' = Some rsp" "rq_url req' = storage_url W ''legacy'' suffix"
          "rq_method req' = verb" "tb_tick t1 \<le> k'"
        using attempt_fetch [OF b [unfolded r2(1)]] by blast
      have "legacy_after_refusal W suffix verb (tb_tick t) rsp"
        unfolding legacy_after_refusal_def
        by (rule exI [of _ k], rule exI [of _ req], rule exI [of _ k'], rule exI [of _ req'], rule exI [of _ refusal])
          (use k k' r2(2) True in auto)
      then show ?thesis using r2(3) by blast
    qed
  qed
qed

section \<open>Properties\<close>

text \<open>C37. Waiting for a permission ends: a request for a capability token takes at most 39 answers of
  the outside - two to redeem the launch token, one to ask, and eighteen polls with the
  sleeps before them - whatever the shell answers, and a token it returns is one that an
  answer of the runtime granted.\<close>

theorem permission_wait_bounded:
  assumes "run_state (request_capability_token W resource action) t = (r, t')"
  shows "tb_tick t' \<le> tb_tick t + 39 \<and> (\<forall>tok. r = Inr (Some tok) \<longrightarrow> granted W tok)"
proof
  have fetch: "takes 37 (State_Monad.bind (fetch_raw W url md body h) f)" if "\<And>x. takes 36 (f x)" for url md body h and f :: "response option \<Rightarrow> 'b op"
    using takes_fetch_bind [OF that] by simp
  have "takes (2 + 37) (request_capability_token W resource action)"
    unfolding request_capability_token_def Let_def
    by (intro takes_bind takes_redeem) (intro fetch takes_return takes_if takes_option takes_poll)+
  then show "tb_tick t' \<le> tb_tick t + 39" using takesD assms by fastforce
  show "\<forall>tok. r = Inr (Some tok) \<longrightarrow> granted W tok" using assms request_granted by blast
qed

text \<open>C38. The storage falls back to the legacy route only when it has to: an operation that leaves a tab
  on the legacy route it was not on before got a refusal (401 or 403) from the route of the
  application for the same file, and after it an answer below 400 from the legacy route, which
  is what it returns. A missing file never switches the route.\<close>

theorem legacy_route_only_after_refusal:
  assumes "run_state (dispatch_storage W suffix verb body) t = (r, t')"
    and "tb_route t' = Some ''legacy''" "tb_route t \<noteq> Some ''legacy''"
  shows "\<exists>rsp. r = Inr rsp \<and> legacy_after_refusal W suffix verb (tb_tick t) rsp"
proof -
  obtain b t1 where a: "run_state (redeem_launch_token W) t = (b, t1)" by force
  have t1: "tb_route t1 = tb_route t" "tb_tick t \<le> tb_tick t1"
    using route.keepsD [OF route.keeps_redeem a] clock.keepsD [OF clock.keeps_redeem a] by simp_all
  have mono: "legacy_after_refusal W suffix verb k rsp \<Longrightarrow> tb_tick t \<le> k \<Longrightarrow> legacy_after_refusal W suffix verb (tb_tick t) rsp" for k rsp
    unfolding legacy_after_refusal_def by (blast intro: order_trans)
  show ?thesis
  proof (cases "tb_route t1")
    case None
    then have "run_state (detect_route W suffix verb body) t1 = (r, t')" using assms(1) a by (simp add: dispatch_storage_def)
    from detect_legacy [OF this assms(2)] None show ?thesis using mono t1(2) by auto
  next
    case (Some md)
    obtain r2 t2 where b: "run_state (attempt W md suffix verb body) t1 = (r2, t2)" by force
    have t2: "tb_route t2 = tb_route t1" "tb_tick t1 \<le> tb_tick t2"
      using route.keepsD [OF route.keeps_attempt b] clock.keepsD [OF clock.keeps_attempt b] by simp_all
    have "run_state (detect_route W suffix verb body) (t2\<lparr>tb_route := None\<rparr>) = (r, t')"
      using assms a b Some t1 t2 by (cases r2) (auto simp: dispatch_storage_def run_or_fail split: if_splits)
    from detect_legacy [OF this assms(2)] show ?thesis using mono t1(2) t2(2) by auto
  qed
qed


text \<open>C39. A fresh launch does not drop the capability tokens of the launch before: in a tab that redeemed
  an earlier launch token, redeeming again is skipped without looking at the new one, and the first
  provider call sends the new launch token together with a capability token of the old launch;
  what is dropped then are the stored tokens and the redeemed mark, while the copy in memory
  stays.\<close>

theorem stale_capability_token:
  assumes "tb_redeemed t" "tb_cache t = None" "tb_store t = Some m" "tb_launch t = Some prev" "tb_bearer t = None"
    and "m (token_key (scheme_to_resource scheme) ''write'') = Some old"
    and "read_url_token W = Some fresh" "fresh \<noteq> prev" "strip_prefix DEVICE_LINK_PREFIX fresh = None"
    and "wb_header_ok W = (\<lambda>_ _. True)"
  shows "run_state (redeem_launch_token W) t = (True, t) \<and>
    (\<exists>t'. run_state (provider_call W scheme opname body) t = (provider_answer scheme opname (wb_fetch W (tb_tick t)
        \<lparr>rq_url = api_base W @ ''/api/provider/'' @ encode_uri W scheme @ ''/'' @ encode_uri W opname, rq_method = ''POST'',
          rq_body = Some (en_text (wb_env W) body), rq_headers = [(''Content-Type'', ''application/json''),
            (''X-Capability-Token'', old), (''x-elastos-home-token'', fresh)]\<rparr>), t') \<and>
      tb_launch t' = Some fresh \<and> tb_store t' = None \<and> \<not> tb_redeemed t' \<and> tb_cache t' = Some m)"
proof
  show "run_state (redeem_launch_token W) t = (True, t)" using assms(1) by (simp add: redeem_launch_token_def)
  let ?t1 = "t\<lparr>tb_cache := Some m\<rparr>"
  have cap: "run_state (ensure_capability_token W (scheme_to_resource scheme) ''write'') t = (old, ?t1)"
    using assms by (simp add: ensure_capability_token_def token_cache_def load_token_store_def)
  have launch: "run_state (home_launch_token W) ?t1 = (Some fresh, ?t1\<lparr>tb_redeemed := False, tb_store := None, tb_launch := Some fresh\<rparr>)"
    using assms by (simp add: home_launch_token_def home_launch_token_raw_def resolve_device_link_token_def)
  have h: "str_members (set_header ''x-elastos-home-token'' fresh (set_header ''X-Capability-Token'' old content_type))
      = [(''Content-Type'', ''application/json''), (''X-Capability-Token'', old), (''x-elastos-home-token'', fresh)]"
    by (simp add: str_members_def set_header_def content_type_def List.map_filter_simps)
  have b: "with_bearer None hs = hs" for hs by (simp add: with_bearer_def)
  show "\<exists>t'. run_state (provider_call W scheme opname body) t = (provider_answer scheme opname (wb_fetch W (tb_tick t)
        \<lparr>rq_url = api_base W @ ''/api/provider/'' @ encode_uri W scheme @ ''/'' @ encode_uri W opname, rq_method = ''POST'',
          rq_body = Some (en_text (wb_env W) body), rq_headers = [(''Content-Type'', ''application/json''),
            (''X-Capability-Token'', old), (''x-elastos-home-token'', fresh)]\<rparr>), t') \<and>
      tb_launch t' = Some fresh \<and> tb_store t' = None \<and> \<not> tb_redeemed t' \<and> tb_cache t' = Some m"
    using assms(5,10) by (simp add: provider_call_def cap launch fetch_raw_def h b)
qed

section \<open>Concrete tabs\<close>

definition sample_tab :: tab where
  "sample_tab = \<lparr>tb_redeemed = True, tb_launch = Some ''one'', tb_bearer = None,
     tb_store = Some [token_key (scheme_to_resource ''peer'') ''write'' \<mapsto> ''cap-one''], tb_route = None, tb_session = None,
     tb_welcomed = False, tb_cache = None, tb_now = 0, tb_tick = 0\<rparr>"

definition sample_web :: "(nat \<Rightarrow> request \<Rightarrow> response option) \<Rightarrow> web" where
  "sample_web f = \<lparr>wb_env = sample_env, wb_pathname = ''/apps/hey-chat/'', wb_param = [''home_token'' \<mapsto> ''two''], wb_fetch = f,
     wb_header_ok = (\<lambda>_ _. True), wb_delay = (\<lambda>_. 10), wb_capsule = ''hey-chat'', wb_namespace = ''HeyChat'', wb_boot = []\<rparr>"

text \<open>A runtime that leaves a request pending once and then grants it.\<close>

definition granting :: "nat \<Rightarrow> request \<Rightarrow> response option" where
  "granting k req = Some \<lparr>hr_status = 200, hr_json = Some (JObj (if k = 0 then [(''status'', JStr ''pending''), (''request_id'', JStr ''r'')]
     else [(''status'', JStr ''granted''), (''token'', JStr ''cap-two'')]))\<rparr>"

text \<open>A runtime whose own storage route refuses, and one whose legacy route answers.\<close>

definition refusing :: "nat \<Rightarrow> request \<Rightarrow> response option" where
  "refusing k req = Some \<lparr>hr_status = (if k = 0 then 403 else 200), hr_json = Some JNull\<rparr>"

theorem permission_wait_bounded_witness:
  "\<exists>t'. run_state (request_capability_token (sample_web granting) ''elastos://peer/*'' ''write'') sample_tab = (Inr (Some ''cap-two''), t') \<and>
     tb_tick t' \<le> tb_tick sample_tab + 39 \<and> granted (sample_web granting) ''cap-two''"
proof -
  have "\<exists>t'. run_state (request_capability_token (sample_web granting) ''elastos://peer/*'' ''write'') sample_tab = (Inr (Some ''cap-two''), t')"
    by (simp add: request_capability_token_def redeem_launch_token_def sample_tab_def fetch_raw_def Let_def sample_web_def granting_def
        hr_ok_def or_empty_def j_get_str_def poll_loop.simps poll_once_for_def sleep_ms_def poll_delay_def poll_delays_def poll_verdict_def list_all_iff split_beta)
  then show ?thesis using permission_wait_bounded by blast
qed

theorem legacy_route_only_after_refusal_witness:
  "\<exists>t' rsp. run_state (dispatch_storage (sample_web refusing) ''HeyChat/f'' ''GET'' None) sample_tab = (Inr rsp, t') \<and>
     legacy_after_refusal (sample_web refusing) ''HeyChat/f'' ''GET'' 0 rsp"
proof -
  have "\<exists>r t'. run_state (dispatch_storage (sample_web refusing) ''HeyChat/f'' ''GET'' None) sample_tab = (r, t') \<and> tb_route t' = Some ''legacy''"
    by (simp add: dispatch_storage_def redeem_launch_token_def sample_tab_def detect_route_def run_or_fail attempt_def build_storage_url_def
        home_launch_token_def home_launch_token_raw_def read_url_token_def or_else_def fetch_raw_def Let_def sample_web_def refusing_def set_route_mode_def list_all_iff split_beta)
  then show ?thesis using legacy_route_only_after_refusal by (fastforce simp: sample_tab_def)
qed

theorem stale_capability_token_witness:
  "\<exists>r t'. run_state (provider_call (sample_web granting) ''peer'' ''get_ticket'' JNull) sample_tab = (r, t') \<and>
     tb_launch t' = Some ''two'' \<and> tb_cache t' = Some [token_key (scheme_to_resource ''peer'') ''write'' \<mapsto> ''cap-one'']"
proof -
  have a: "tb_redeemed sample_tab" "tb_cache sample_tab = None" "tb_launch sample_tab = Some ''one''" "tb_bearer sample_tab = None"
    "tb_store sample_tab = Some [token_key (scheme_to_resource ''peer'') ''write'' \<mapsto> ''cap-one'']"
    by (simp_all add: sample_tab_def)
  have w: "read_url_token (sample_web granting) = Some ''two''" "wb_header_ok (sample_web granting) = (\<lambda>_ _. True)"
    by (simp_all add: sample_web_def read_url_token_def or_else_def)
  have d: "strip_prefix DEVICE_LINK_PREFIX ''two'' = None" by (simp add: DEVICE_LINK_PREFIX_def)
  show ?thesis using stale_capability_token [OF a(1,2,5,3,4) _ w(1) _ d w(2), of "''peer''" "''cap-one''" "''get_ticket''" JNull] by auto
qed

end
