(* ===== verification/Identity_Provider.thy ===== *)
theory Identity_Provider
imports Inner Samples Events Contacts
begin

text \<open>
  The identity provider (\<open>capsules/identity-projection-provider/src/main.rs\<close>): the program behind
  the runtime that derives the keys of a user from a master secret, the principal and a
  namespace, and signs and opens for the applications. The bytes a \<open>ChaCha20Rng\<close> draws from a
  seed and the check of a curve point are parameters; the file of the master secret may fail to
  be read or written. \<open>did:key\<close> and base58 are the functions of \<open>Identity\<close>, of which the program
  has its own copy.
\<close>

section \<open>Requests and responses\<close>

datatype identity_request = Init | Whoami "string option" "string option" | Pubkeys "string option" "string option"
  | Sign "string option" "string option" string | X25519Dh "string option" "string option" string
  | MlKemDecapsulate "string option" "string option" string | Verify string string string | Shutdown

datatype identity_response = Ok "json option" | Err string string

definition fault_text :: "fault \<Rightarrow> string" where
  "fault_text e = (case e of Error m \<Rightarrow> m | Panic m \<Rightarrow> m)"

definition ok_data :: "(string \<times> json) list \<Rightarrow> identity_response" where
  "ok_data ms = Ok (Some (JObj ms))"

text \<open>An internally tagged enum also decodes from an array that begins with the tag.\<close>

definition request_tag :: "json \<Rightarrow> string option" where
  "request_tag j = (case j of JObj ms \<Rightarrow> f_str ''op'' ms | JArr (v # vs) \<Rightarrow> j_str v | _ \<Rightarrow> None)"

definition tagged_fields :: "string list \<Rightarrow> json \<Rightarrow> (string \<times> json) list option" where
  "tagged_fields names j = (case j of JObj ms \<Rightarrow> Some ms | JArr (v # vs) \<Rightarrow> as_fields names (JArr vs) | _ \<Rightarrow> None)"

definition keyed_request :: "string list \<Rightarrow> json \<Rightarrow> (string option \<times> string option \<times> (string \<times> json) list) option" where
  "keyed_request names j = do {
     ms \<leftarrow> tagged_fields ([''principal_id'', ''namespace''] @ names) j;
     p \<leftarrow> f_opt j_str ''principal_id'' ms; n \<leftarrow> f_opt j_str ''namespace'' ms;
     Some (p, n, ms) }"

definition identity_request_of :: "json \<Rightarrow> identity_request option" where
  "identity_request_of j = do {
     opn \<leftarrow> request_tag j;
     if opn = ''init'' then do { _ \<leftarrow> tagged_fields [] j; Some Init }
     else if opn = ''whoami'' then do { (p, n, ms) \<leftarrow> keyed_request [] j; Some (Whoami p n) }
     else if opn = ''pubkeys'' then do { (p, n, ms) \<leftarrow> keyed_request [] j; Some (Pubkeys p n) }
     else if opn = ''sign'' then do { (p, n, ms) \<leftarrow> keyed_request [''payload_b64''] j; m \<leftarrow> f_str ''payload_b64'' ms; Some (Sign p n m) }
     else if opn = ''x25519_dh'' then do { (p, n, ms) \<leftarrow> keyed_request [''eph_pub_b64''] j; e \<leftarrow> f_str ''eph_pub_b64'' ms; Some (X25519Dh p n e) }
     else if opn = ''ml_kem_decapsulate'' then do { (p, n, ms) \<leftarrow> keyed_request [''ct_b64''] j; c \<leftarrow> f_str ''ct_b64'' ms; Some (MlKemDecapsulate p n c) }
     else if opn = ''verify'' then do {
       ms \<leftarrow> tagged_fields [''did_key'', ''payload_b64'', ''signature_hex''] j;
       d \<leftarrow> f_str ''did_key'' ms; m \<leftarrow> f_str ''payload_b64'' ms; g \<leftarrow> f_str ''signature_hex'' ms; Some (Verify d m g) }
     else if opn = ''shutdown'' then do { _ \<leftarrow> tagged_fields [] j; Some Shutdown }
     else None }"

definition identity_response_json :: "identity_response \<Rightarrow> json" where
  "identity_response_json r = (case r of
     Ok d \<Rightarrow> JObj ((''status'', JStr ''ok'') # opt_member ''data'' d)
   | Err c m \<Rightarrow> JObj [(''status'', JStr ''error''), (''code'', JStr c), (''message'', JStr m)])"

section \<open>Keys\<close>

record key_bundle =
  kb_ed :: bytes
  kb_x_secret :: bytes
  kb_ml_dk :: bytes
  kb_ml_ek :: bytes

text \<open>What the program is given: the primitives and the generator, and for one request the outcome of
  the accesses to its directory (\<open>pe_partial\<close>: what a failed write leaves of the file), fresh random
  bytes, the text of an error of a library and the functions of the crate \<open>hex\<close>.\<close>

record pv_env =
  pe_prims :: prims
  pe_chacha :: "bytes \<Rightarrow> bytes"
  pe_point_ok :: "bytes \<Rightarrow> bool"
  pe_mkdir_ok :: bool
  pe_read_ok :: bool
  pe_write_ok :: bool
  pe_partial :: "string option"
  pe_random :: bytes
  pe_detail :: string
  pe_hex_enc :: "bytes \<Rightarrow> string"
  pe_hex_dec :: "string \<Rightarrow> bytes option"

text \<open>The documented behaviour of \<open>hex::encode\<close>.\<close>

definition hex_crate :: "pv_env \<Rightarrow> bool" where
  "hex_crate W = (pe_hex_enc W = bytes_to_hex)"

record node =
  nd_master :: bytes
  nd_cache :: "string \<Rightarrow> key_bundle option"

record provider =
  pv_node :: "node option"
  pv_file :: "string option"

definition unit_sep :: char where "unit_sep = CHR 0x1F"

text \<open>The bytes that are hashed into a seed.\<close>

definition seed_input :: "bytes \<Rightarrow> string \<Rightarrow> string \<Rightarrow> string \<Rightarrow> bytes" where
  "seed_input master tag prin namespace = master @ [0x1f] @ as_bytes tag @ [0x1f] @ as_bytes prin @ [0x1f] @ as_bytes namespace"

definition derive_seed :: "prims \<Rightarrow> bytes \<Rightarrow> string \<Rightarrow> string \<Rightarrow> string \<Rightarrow> bytes" where
  "derive_seed P master tag prin namespace = sha256 P (seed_input master tag prin namespace)"

definition derive_bundle :: "pv_env \<Rightarrow> bytes \<Rightarrow> string \<Rightarrow> string \<Rightarrow> key_bundle" where
  "derive_bundle W master prin namespace = (let
     ed_seed = derive_seed (pe_prims W) master ''ed25519'' prin namespace;
     ml_seed = derive_seed (pe_prims W) master ''ml-kem-768'' prin namespace;
     (dk, ek) = kem_gen (pe_prims W) (pe_chacha W ml_seed)
     in \<lparr>kb_ed = ed_seed, kb_x_secret = ed_seed, kb_ml_dk = dk, kb_ml_ek = ek\<rparr>)"

definition bundle_did_key :: "prims \<Rightarrow> key_bundle \<Rightarrow> string" where
  "bundle_did_key P b = public_key_to_did_key (ed_pub P (kb_ed b))"

definition bundle_x25519_pub :: "prims \<Rightarrow> key_bundle \<Rightarrow> bytes" where
  "bundle_x25519_pub P b = x_pub P (kb_x_secret b)"

definition bundle_x25519_dh :: "prims \<Rightarrow> key_bundle \<Rightarrow> bytes \<Rightarrow> string" where
  "bundle_x25519_dh P b eph = b64_enc P (x_dh P (kb_x_secret b) eph)"

definition bundle_decapsulate :: "prims \<Rightarrow> key_bundle \<Rightarrow> bytes \<Rightarrow> string res" where
  "bundle_decapsulate P b ct = bindR (guardR (length (kb_ml_dk b) = 2400) ''decapsulation key wrong size'') (\<lambda>_.
     bindR (guardR (length ct = 1088) (''ML-KEM-768 ciphertext wrong size ('' @ nat_str (length ct) @ '' bytes)'')) (\<lambda>_.
     Inr (b64_enc P (kem_decaps P (kb_ml_dk b) ct))))"

definition bundle_key :: "string \<Rightarrow> string \<Rightarrow> string" where
  "bundle_key prin namespace = prin @ [unit_sep] @ namespace"

definition node_bundle :: "pv_env \<Rightarrow> string \<Rightarrow> string \<Rightarrow> node \<Rightarrow> key_bundle \<times> node" where
  "node_bundle W prin namespace n = (case nd_cache n (bundle_key prin namespace) of
     Some b \<Rightarrow> (b, n)
   | None \<Rightarrow> let b = derive_bundle W (nd_master n) prin namespace
       in (b, n\<lparr>nd_cache := (nd_cache n)(bundle_key prin namespace \<mapsto> b)\<rparr>))"

section \<open>The master secret\<close>

text \<open>Any failure of the read is taken for an absent file. The new master comes with the file as it
  is afterwards.\<close>

definition load_or_create_master :: "pv_env \<Rightarrow> string option \<Rightarrow> bytes res \<times> string option" where
  "load_or_create_master W file = (case (if pe_read_ok W then file else None) of
     Some txt \<Rightarrow> (bindR (of_option (''decode master: '' @ pe_detail W) (b64_dec (pe_prims W) txt)) (\<lambda>m.
        if length m = 32 then Inr m else Inl (Error ''master key wrong size'')), file)
   | None \<Rightarrow> if pe_write_ok W then (Inr (pe_random W), Some (b64_enc (pe_prims W) (pe_random W)))
       else (Inl (Error (''write master: '' @ pe_detail W)), pe_partial W))"

definition spawn :: "pv_env \<Rightarrow> string option \<Rightarrow> node res \<times> string option" where
  "spawn W file = (if \<not> pe_mkdir_ok W then (Inl (Error (pe_detail W)), file)
     else (let (m, file') = load_or_create_master W file in
       (bindR m (\<lambda>master. Inr \<lparr>nd_master = master, nd_cache = (\<lambda>_. None)\<rparr>), file')))"

section \<open>Dispatch\<close>

definition DEFAULT_NAMESPACE :: string where "DEFAULT_NAMESPACE = ''default''"
definition FALLBACK_PRINCIPAL :: string where "FALLBACK_PRINCIPAL = ''local:default''"

definition principal_of :: "string option \<Rightarrow> string" where
  "principal_of p = (case p of Some s \<Rightarrow> if s \<noteq> [] then s else FALLBACK_PRINCIPAL | None \<Rightarrow> FALLBACK_PRINCIPAL)"

definition ns_of :: "string option \<Rightarrow> string" where
  "ns_of n = (case n of Some s \<Rightarrow> if s \<noteq> [] then s else DEFAULT_NAMESPACE | None \<Rightarrow> DEFAULT_NAMESPACE)"

definition with_bundle :: "pv_env \<Rightarrow> string option \<Rightarrow> string option \<Rightarrow> (key_bundle \<Rightarrow> identity_response) \<Rightarrow> provider \<Rightarrow> identity_response \<times> provider" where
  "with_bundle W p n f s = (case pv_node s of None \<Rightarrow> (Err ''not_init'' ''init first'', s)
     | Some nd \<Rightarrow> let (b, nd') = node_bundle W (principal_of p) (ns_of n) nd in (f b, s\<lparr>pv_node := Some nd'\<rparr>))"

text \<open>The copy of \<open>did_key_to_public_key\<close>, which gives no reason.\<close>

definition did_key_public :: "string \<Rightarrow> bytes option" where
  "did_key_public did = (case did_key_to_public_key did of Inr pk \<Rightarrow> Some pk | Inl _ \<Rightarrow> None)"

definition verify_response :: "pv_env \<Rightarrow> string \<Rightarrow> string \<Rightarrow> string \<Rightarrow> identity_response" where
  "verify_response W did_key payload_b64 signature_hex = (case b64_dec (pe_prims W) payload_b64 of
     None \<Rightarrow> Err ''bad_payload'' (''base64: '' @ pe_detail W)
   | Some payload \<Rightarrow> (case pe_hex_dec W signature_hex of None \<Rightarrow> Err ''bad_sig'' (''hex: '' @ pe_detail W)
     | Some sig \<Rightarrow> if length sig \<noteq> 64 then Err ''bad_sig'' (''sig parse: '' @ pe_detail W)
       else (case did_key_public did_key of None \<Rightarrow> Err ''bad_did_key'' ''not an Ed25519 did:key''
         | Some pk \<Rightarrow> if \<not> pe_point_ok W pk then Err ''bad_did_key'' (''pubkey: '' @ pe_detail W)
             else ok_data [(''valid'', JBool (ed_raw_verify (pe_prims W) pk payload sig))])))"

fun handle :: "pv_env \<Rightarrow> identity_request \<Rightarrow> provider \<Rightarrow> identity_response \<times> provider" where
  "handle W Init s = (if pv_node s = None
     then (case spawn W (pv_file s) of
         (Inr n, file) \<Rightarrow> (ok_data [(''protocol_version'', JStr ''0.2''), (''provider'', JStr ''identity''), (''features'',
            JArr (map JStr [''whoami'', ''pubkeys'', ''sign'', ''x25519_dh'', ''ml_kem_decapsulate'', ''verify'']))],
            s\<lparr>pv_node := Some n, pv_file := file\<rparr>)
       | (Inl e, file) \<Rightarrow> (Err ''init_failed'' (fault_text e), s\<lparr>pv_file := file\<rparr>))
     else (ok_data [(''protocol_version'', JStr ''0.2''), (''provider'', JStr ''identity''), (''features'',
            JArr (map JStr [''whoami'', ''pubkeys'', ''sign'', ''x25519_dh'', ''ml_kem_decapsulate'', ''verify'']))], s))"
| "handle W (Whoami p n) s = with_bundle W p n (\<lambda>b. ok_data [(''did_key'', JStr (bundle_did_key (pe_prims W) b)),
     (''public_key_hex'', JStr (pe_hex_enc W (ed_pub (pe_prims W) (kb_ed b))))]) s"
| "handle W (Pubkeys p n) s = with_bundle W p n (\<lambda>b. ok_data [(''x25519_pub_b64'', JStr (b64_enc (pe_prims W) (bundle_x25519_pub (pe_prims W) b))),
     (''ml_kem_pub_b64'', JStr (b64_enc (pe_prims W) (kb_ml_ek b))), (''did_key'', JStr (bundle_did_key (pe_prims W) b))]) s"
| "handle W (Sign p n payload_b64) s = (case b64_dec (pe_prims W) payload_b64 of None \<Rightarrow> (Err ''bad_payload'' (''base64: '' @ pe_detail W), s)
     | Some payload \<Rightarrow> with_bundle W p n (\<lambda>b. ok_data [(''signature_hex'', JStr (pe_hex_enc W (ed_raw_sign (pe_prims W) (kb_ed b) payload)))]) s)"
| "handle W (X25519Dh p n eph_pub_b64) s = (case b64_dec (pe_prims W) eph_pub_b64 of
       Some eph \<Rightarrow> if length eph = 32 then with_bundle W p n (\<lambda>b. ok_data [(''shared_b64'', JStr (bundle_x25519_dh (pe_prims W) b eph))]) s
         else (Err ''bad_eph'' ''eph_pub_b64 not 32 bytes base64'', s)
     | None \<Rightarrow> (Err ''bad_eph'' ''eph_pub_b64 not 32 bytes base64'', s))"
| "handle W (MlKemDecapsulate p n ct_b64) s = (case b64_dec (pe_prims W) ct_b64 of None \<Rightarrow> (Err ''bad_ct'' (''base64: '' @ pe_detail W), s)
     | Some ct \<Rightarrow> with_bundle W p n (\<lambda>b. case bundle_decapsulate (pe_prims W) b ct of
         Inr shared \<Rightarrow> ok_data [(''shared_b64'', JStr shared)] | Inl e \<Rightarrow> Err ''decapsulate_failed'' (fault_text e)) s)"
| "handle W (Verify did_key payload_b64 signature_hex) s = (verify_response W did_key payload_b64 signature_hex, s)"
| "handle W Shutdown s = (ok_data [(''message'', JStr ''Provider shutting down'')], s\<lparr>pv_node := None\<rparr>)"

text \<open>One line of the loop of \<open>main\<close>.\<close>

definition handle_line :: "pv_env \<Rightarrow> (string \<Rightarrow> json option) \<Rightarrow> (json \<Rightarrow> string) \<Rightarrow> string \<Rightarrow> provider \<Rightarrow> string option \<times> provider" where
  "handle_line W parse text line s = (if trim line = [] then (None, s)
     else case Option.bind (parse (trim line)) identity_request_of of
       Some req \<Rightarrow> (let (r, s') = handle W req s in (Some (text (identity_response_json r) @ [CHR 0x0A]), s'))
     | None \<Rightarrow> (Some (text (identity_response_json (Err ''invalid_request'' (pe_detail W))) @ [CHR 0x0A]), s))"

section \<open>The client side\<close>

text \<open>The bodies of \<open>identity_provider\<close> in \<open>runtime.rs\<close>.\<close>

definition HEY_NAMESPACE :: string where "HEY_NAMESPACE = ''hey''"

definition whoami_body :: "string \<Rightarrow> (string \<times> json) list" where
  "whoami_body ns = [(''namespace'', JStr ns)]"

definition pubkeys_body :: "string \<Rightarrow> (string \<times> json) list" where
  "pubkeys_body ns = [(''namespace'', JStr ns)]"

definition sign_body :: "prims \<Rightarrow> string \<Rightarrow> bytes \<Rightarrow> (string \<times> json) list" where
  "sign_body P ns payload = [(''namespace'', JStr ns), (''payload_b64'', JStr (b64_enc P payload))]"

definition dh_body :: "prims \<Rightarrow> string \<Rightarrow> bytes \<Rightarrow> (string \<times> json) list" where
  "dh_body P ns eph_pub = [(''namespace'', JStr ns), (''eph_pub_b64'', JStr (b64_enc P eph_pub))]"

definition decaps_body :: "prims \<Rightarrow> string \<Rightarrow> bytes \<Rightarrow> (string \<times> json) list" where
  "decaps_body P ns ct = [(''namespace'', JStr ns), (''ct_b64'', JStr (b64_enc P ct))]"

definition identity_verify_body :: "prims \<Rightarrow> string \<Rightarrow> bytes \<Rightarrow> string \<Rightarrow> (string \<times> json) list" where
  "identity_verify_body P did_key payload signature_hex =
     [(''did_key'', JStr did_key), (''payload_b64'', JStr (b64_enc P payload)), (''signature_hex'', JStr signature_hex)]"

text \<open>What the program answers to a call of a client when the gateway in between adds the name of the
  operation and the principal.\<close>

definition gateway_answer :: "pv_env \<Rightarrow> string \<Rightarrow> string \<Rightarrow> (string \<times> json) list \<Rightarrow> provider \<Rightarrow> json" where
  "serving W m s \<Longrightarrow> gateway_answer W prin opn ms s = (case identity_request_of (JObj ((''op'', JStr opn) # (''principal_id'', JStr prin) # ms)) of
     Some req \<Rightarrow> identity_response_json (fst (handle W req s))
   | None \<Rightarrow> identity_response_json (Err ''invalid_request'' (pe_detail W)))"

section \<open>One key for a principal\<close>

text \<open>The seed and the randomness of the KEM pair of a user.\<close>

definition user_seed :: "prims \<Rightarrow> bytes \<Rightarrow> string \<Rightarrow> bytes" where
  "user_seed P master prin = derive_seed P master ''ed25519'' (principal_of (Some prin)) HEY_NAMESPACE"

definition user_kem :: "pv_env \<Rightarrow> bytes \<Rightarrow> string \<Rightarrow> bytes" where
  "user_kem W master prin = pe_chacha W (derive_seed (pe_prims W) master ''ml-kem-768'' (principal_of (Some prin)) HEY_NAMESPACE)"

text \<open>The states of the program after some requests, shutdowns and restarts included, while the file of
  the master secret can be read.\<close>

definition same_machine :: "pv_env \<Rightarrow> pv_env \<Rightarrow> bool" where
  "same_machine W W' = (pe_prims W' = pe_prims W \<and> pe_chacha W' = pe_chacha W \<and> pe_read_ok W')"

inductive served :: "pv_env \<Rightarrow> provider \<Rightarrow> provider \<Rightarrow> bool" for W s where
  served_none: "served W s s"
| served_request: "served W s t \<Longrightarrow> same_machine W W' \<Longrightarrow> served W s (snd (handle W' req t))"

text \<open>The invariant: one master, the one in the file, and a cache that holds only what would be derived.\<close>

definition cache_true :: "pv_env \<Rightarrow> node \<Rightarrow> bool" where
  "cache_true W n = (\<forall>p ns b. nd_cache n (bundle_key p ns) = Some b \<longrightarrow> b = derive_bundle W (nd_master n) p ns)"

definition node_ok :: "pv_env \<Rightarrow> bytes \<Rightarrow> node option \<Rightarrow> bool" where
  "node_ok W master nd = (case nd of None \<Rightarrow> True | Some n \<Rightarrow> nd_master n = master \<and> cache_true W n)"

definition custody :: "pv_env \<Rightarrow> bytes \<Rightarrow> provider \<Rightarrow> bool" where
  "custody W master s = (length master = 32 \<and> pv_file s = Some (b64_enc (pe_prims W) master) \<and> node_ok W master (pv_node s))"

lemma as_bytes_inj: "as_bytes s = as_bytes t \<longleftrightarrow> s = t"
  using of_bytes_as_bytes by metis

lemma as_bytes_unit_sep [simp]: "as_bytes (unit_sep # t) = 0x1f # as_bytes t"
  by (simp add: as_bytes_def unit_sep_def byte_of_char_def)

lemma seed_input_key: "seed_input m tag p n = m @ [0x1f] @ as_bytes tag @ [0x1f] @ as_bytes (bundle_key p n)"
  by (simp add: seed_input_def bundle_key_def)

lemma derive_bundle_key: "bundle_key p n = bundle_key p' n' \<Longrightarrow> derive_bundle W m p n = derive_bundle W m p' n'"
  by (simp add: derive_bundle_def derive_seed_def seed_input_key)

lemma derive_bundle_machine: "same_machine W W' \<Longrightarrow> derive_bundle W' = derive_bundle W"
  by (simp add: fun_eq_iff derive_bundle_def same_machine_def)

lemma node_bundle_true:
  assumes "cache_true W n" "same_machine W W'"
  shows "fst (node_bundle W' p ns n) = derive_bundle W (nd_master n) p ns"
    and "nd_master (snd (node_bundle W' p ns n)) = nd_master n"
    and "cache_true W (snd (node_bundle W' p ns n))"
proof -
  let ?k = "bundle_key p ns"
  have c: "nd_cache n (bundle_key p' ns') = Some b \<Longrightarrow> b = derive_bundle W (nd_master n) p' ns'" for p' ns' b
    using assms(1) by (simp add: cache_true_def)
  have t: "cache_true W (n\<lparr>nd_cache := (nd_cache n)(?k \<mapsto> derive_bundle W (nd_master n) p ns)\<rparr>)"
    unfolding cache_true_def
  proof (intro allI impI)
    fix p' ns' b
    assume "nd_cache (n\<lparr>nd_cache := (nd_cache n)(?k \<mapsto> derive_bundle W (nd_master n) p ns)\<rparr>) (bundle_key p' ns') = Some b"
    then show "b = derive_bundle W (nd_master (n\<lparr>nd_cache := (nd_cache n)(?k \<mapsto> derive_bundle W (nd_master n) p ns)\<rparr>)) p' ns'"
      using c [of p' ns' b] derive_bundle_key [of p ns p' ns' W "nd_master n"] by (cases "bundle_key p' ns' = ?k") simp_all
  qed
  have "node_bundle W' p ns n = (derive_bundle W (nd_master n) p ns,
      if nd_cache n ?k = None then n\<lparr>nd_cache := (nd_cache n)(?k \<mapsto> derive_bundle W (nd_master n) p ns)\<rparr> else n)"
    using c [of p ns] by (cases "nd_cache n ?k") (simp_all add: node_bundle_def Let_def derive_bundle_machine [OF assms(2)])
  then show "fst (node_bundle W' p ns n) = derive_bundle W (nd_master n) p ns"
      "nd_master (snd (node_bundle W' p ns n)) = nd_master n" "cache_true W (snd (node_bundle W' p ns n))"
    using t assms(1) by simp_all
qed

lemma with_bundle_custody:
  assumes "custody W m s" "same_machine W W'"
  shows "custody W m (snd (with_bundle W' p n f s))"
  using assms node_bundle_true [OF _ assms(2)]
  by (simp add: with_bundle_def custody_def node_ok_def case_prod_beta Let_def split: option.split option.split_asm)

lemma with_bundle_answer:
  assumes "custody W m s" "same_machine W W'" "pv_node s \<noteq> None"
  shows "fst (with_bundle W' p n f s) = f (derive_bundle W m (principal_of p) (ns_of n))"
  using assms(1,3) node_bundle_true(1) [OF _ assms(2)]
  by (auto simp: with_bundle_def custody_def node_ok_def case_prod_beta Let_def)

lemma spawn_custody:
  assumes "custody W m s" "same_machine W W'" "prims_ok (pe_prims W)" "spawn W' (pv_file s) = (r, f)"
  shows "f = pv_file s \<and> (\<forall>n. r = Inr n \<longrightarrow> node_ok W m (Some n))"
  using assms
  by (auto simp: spawn_def load_or_create_master_def custody_def same_machine_def node_ok_def cache_true_def prim_laws split: if_splits)

lemma handle_custody:
  assumes "custody W m s" "same_machine W W'" "prims_ok (pe_prims W)"
  shows "custody W m (snd (handle W' req s))"
proof (cases req)
  case Init
  then show ?thesis using assms spawn_custody [OF assms]
    by (auto simp: custody_def split: prod.split sum.split)
next
  case Shutdown
  then show ?thesis using assms(1) by (simp add: custody_def node_ok_def)
qed (use assms(1) with_bundle_custody [OF assms(1,2)] in \<open>simp_all split: option.split\<close>)

lemma served_custody:
  assumes "served W s t" "custody W m s" "prims_ok (pe_prims W)"
  shows "custody W m t"
  using assms by (induction rule: served.induct) (auto intro: handle_custody)

section \<open>What a client is answered\<close>

lemmas request_simps = identity_request_of_def request_tag_def tagged_fields_def keyed_request_def f_str_def f_opt_def
  HEY_NAMESPACE_def

lemma hey_namespace: "ns_of (Some HEY_NAMESPACE) = HEY_NAMESPACE"
  by (simp add: ns_of_def HEY_NAMESPACE_def)

definition serving :: "pv_env \<Rightarrow> bytes \<Rightarrow> provider \<Rightarrow> bool" where
  "serving W m s = (custody W m s \<and> pe_read_ok W \<and> pv_node s \<noteq> None)"

lemma bundle_answer:
  "serving W m s \<Longrightarrow>
   fst (with_bundle W (Some prin) (Some HEY_NAMESPACE) f s) = f (derive_bundle W m (principal_of (Some prin)) HEY_NAMESPACE)"
  using with_bundle_answer [of W m s W] by (simp add: serving_def same_machine_def hey_namespace)

lemma bundle_of_user:
  "derive_bundle W m (principal_of (Some prin)) HEY_NAMESPACE = \<lparr>kb_ed = user_seed (pe_prims W) m prin, kb_x_secret = user_seed (pe_prims W) m prin,
     kb_ml_dk = fst (kem_gen (pe_prims W) (user_kem W m prin)), kb_ml_ek = snd (kem_gen (pe_prims W) (user_kem W m prin))\<rparr>"
  by (simp add: derive_bundle_def user_seed_def user_kem_def case_prod_beta Let_def)

lemma whoami_answer:
  "hex_crate W \<Longrightarrow> serving W m s \<Longrightarrow> gateway_answer W prin ''whoami'' (whoami_body HEY_NAMESPACE) s = identity_response_json (ok_data
     [(''did_key'', JStr (did_of_seed (pe_prims W) (user_seed (pe_prims W) m prin))),
      (''public_key_hex'', JStr (bytes_to_hex (ed_pub (pe_prims W) (user_seed (pe_prims W) m prin))))])"
  by (simp add: gateway_answer_def request_simps whoami_body_def)
    (simp add: bundle_answer [unfolded HEY_NAMESPACE_def] bundle_of_user [unfolded HEY_NAMESPACE_def] bundle_did_key_def did_of_seed_def hex_crate_def)

lemma pubkeys_answer:
  "serving W m s \<Longrightarrow> gateway_answer W prin ''pubkeys'' (pubkeys_body HEY_NAMESPACE) s = identity_response_json (ok_data
     [(''x25519_pub_b64'', JStr (b64_enc (pe_prims W) (x_pub (pe_prims W) (user_seed (pe_prims W) m prin)))),
      (''ml_kem_pub_b64'', JStr (b64_enc (pe_prims W) (snd (kem_gen (pe_prims W) (user_kem W m prin))))),
      (''did_key'', JStr (did_of_seed (pe_prims W) (user_seed (pe_prims W) m prin)))])"
  by (simp add: gateway_answer_def request_simps pubkeys_body_def)
    (simp add: bundle_answer [unfolded HEY_NAMESPACE_def] bundle_of_user [unfolded HEY_NAMESPACE_def] bundle_did_key_def did_of_seed_def
      bundle_x25519_pub_def)

lemma sign_answer:
  "prims_ok (pe_prims W) \<Longrightarrow> hex_crate W \<Longrightarrow> serving W m s \<Longrightarrow> gateway_answer W prin ''sign'' (sign_body (pe_prims W) HEY_NAMESPACE msg) s = identity_response_json (ok_data
     [(''signature_hex'', JStr (ed_sign (ed_raw_sign (pe_prims W)) msg (user_seed (pe_prims W) m prin)))])"
  by (simp add: gateway_answer_def request_simps sign_body_def prim_laws)
    (simp add: bundle_answer [unfolded HEY_NAMESPACE_def] bundle_of_user [unfolded HEY_NAMESPACE_def] ed_sign_def hex_crate_def)

lemma dh_answer:
  assumes "prims_ok (pe_prims W)" "serving W m s" "length p = 32"
  shows "gateway_answer W prin ''x25519_dh'' (dh_body (pe_prims W) HEY_NAMESPACE p) s = identity_response_json (ok_data
     [(''shared_b64'', JStr (b64_enc (pe_prims W) (x_dh (pe_prims W) (user_seed (pe_prims W) m prin) p)))])"
  using assms by (simp add: gateway_answer_def request_simps dh_body_def prim_laws)
    (simp add: bundle_answer [unfolded HEY_NAMESPACE_def] bundle_of_user [unfolded HEY_NAMESPACE_def] bundle_x25519_dh_def)

lemma decaps_answer:
  assumes "prims_ok (pe_prims W)" "serving W m s" "length c = 1088"
  shows "gateway_answer W prin ''ml_kem_decapsulate'' (decaps_body (pe_prims W) HEY_NAMESPACE c) s = identity_response_json (ok_data
     [(''shared_b64'', JStr (b64_enc (pe_prims W) (kem_decaps (pe_prims W) (fst (kem_gen (pe_prims W) (user_kem W m prin))) c)))])"
  using assms by (simp add: gateway_answer_def request_simps decaps_body_def prim_laws)
    (simp add: bundle_answer [unfolded HEY_NAMESPACE_def] bundle_of_user [unfolded HEY_NAMESPACE_def] bundle_decapsulate_def prim_laws)

lemma data_of_ok: "data_of (identity_response_json (ok_data ms)) = JObj ms"
  by (simp add: data_of_def identity_response_json_def ok_data_def opt_member_def)

lemma shared_of_ok:
  "prims_ok P \<Longrightarrow> shared_from P (identity_response_json (ok_data [(''shared_b64'', JStr (b64_enc P b))])) = Inr b"
  by (simp add: shared_from_def identity_response_json_def ok_data_def opt_member_def prim_laws)

text \<open>The identity calls of the environment are answered by the program, in whatever state the requests
  of anybody have left it since the state \<open>s0\<close>.\<close>

definition answers_at :: "env \<Rightarrow> pv_env \<Rightarrow> string \<Rightarrow> nat \<Rightarrow> provider \<Rightarrow> bool" where
  "answers_at E W prin t s = (
     en_whoami E t = Inr (gateway_answer W prin ''whoami'' (whoami_body HEY_NAMESPACE) s) \<and>
     en_pubkeys E t = Inr (gateway_answer W prin ''pubkeys'' (pubkeys_body HEY_NAMESPACE) s) \<and>
     (\<forall>m. en_sign E t m = Inr (gateway_answer W prin ''sign'' (sign_body (pe_prims W) HEY_NAMESPACE m) s)) \<and>
     (\<forall>p. en_dh E t p = Inr (gateway_answer W prin ''x25519_dh'' (dh_body (pe_prims W) HEY_NAMESPACE p) s)) \<and>
     (\<forall>c. en_decaps E t c = Inr (gateway_answer W prin ''ml_kem_decapsulate'' (decaps_body (pe_prims W) HEY_NAMESPACE c) s)))"

definition answers_from :: "env \<Rightarrow> pv_env \<Rightarrow> string \<Rightarrow> provider \<Rightarrow> bool" where
  "answers_from E W prin s0 = (en_prims E = pe_prims W \<and> pe_read_ok W \<and>
     (\<forall>t. \<exists>s. served W s0 s \<and> pv_node s \<noteq> None \<and> answers_at E W prin t s))"

lemma answers_serving:
  assumes "answers_from E W prin s0" "custody W m s0" "prims_ok (pe_prims W)"
  shows "\<exists>s. serving W m s \<and> answers_at E W prin t s"
  using assms served_custody unfolding answers_from_def serving_def by metis

lemma provider_holds_user:
  assumes "answers_from E W prin s0" "custody W m s0" "prims_ok (pe_prims W)" "hex_crate W"
  shows "provider_holds E (user_seed (pe_prims W) m prin) (user_kem W m prin)"
proof -
  note a = answers_serving [OF assms(1-3)]
  have "\<exists>rsp. en_dh E t p = Inr rsp \<and> shared_from (pe_prims W) rsp = Inr (x_dh (pe_prims W) (user_seed (pe_prims W) m prin) p)"
    if "length p = 32" for t p
    using a [of t] dh_answer [OF assms(3) _ that] shared_of_ok [OF assms(3)] unfolding answers_at_def by metis
  moreover have "\<exists>rsp. en_decaps E t c = Inr rsp \<and> shared_from (pe_prims W) rsp =
      Inr (kem_decaps (pe_prims W) (fst (kem_gen (pe_prims W) (user_kem W m prin))) c)"
    if "length c = 1088" for t c
    using a [of t] decaps_answer [OF assms(3) _ that] shared_of_ok [OF assms(3)] unfolding answers_at_def by metis
  moreover have "\<exists>rsp. en_sign E t x = Inr rsp \<and> j_get_str ''signature_hex'' (data_of rsp) =
      Some (ed_sign (ed_raw_sign (pe_prims W)) x (user_seed (pe_prims W) m prin))" for t x
  proof -
    obtain s where "serving W m s" "answers_at E W prin t s" using a by blast
    then show ?thesis by (simp add: answers_at_def sign_answer [OF assms(3,4)] data_of_ok j_get_str_def)
  qed
  ultimately show ?thesis using assms(1) by (simp add: provider_holds_def Let_def answers_from_def)
qed

lemma did_of_seed_label: "prims_ok P \<Longrightarrow> \<exists>l. short_did_label (did_of_seed P seed) = Inr l"
  using did_key_ascii(1) [of "ed_pub P seed"]
  by (simp add: short_did_label_def did_of_seed_def prim_laws str_slice_def ascii_boundary)

lemma whoami_user:
  assumes "answers_from E W prin s0" "custody W m s0" "prims_ok (pe_prims W)" "hex_crate W"
  shows "fst (adopt_provider_identity E d) = Inr (Some (did_of_seed (pe_prims W) (user_seed (pe_prims W) m prin)))"
proof -
  obtain s where s: "serving W m s" "answers_at E W prin (dv_tick d) s" using answers_serving [OF assms(1-3)] by blast
  obtain l where "short_did_label (did_of_seed (pe_prims W) (user_seed (pe_prims W) m prin)) = Inr l"
    using did_of_seed_label [OF assms(3)] by blast
  then show ?thesis using s(2) whoami_answer [OF assms(4) s(1)] did_of_seed_prefix
    by (simp add: adopt_provider_identity_def answers_at_def okD_def callD_def data_of_ok j_get_str_def run split: option.split)
qed

lemma pubkeys_user:
  assumes "answers_from E W prin s0" "custody W m s0" "prims_ok (pe_prims W)"
  shows "fst (my_pubkeys E d) = Inr (Some \<lparr>pk_x25519 = b64_enc (pe_prims W) (x_pub (pe_prims W) (user_seed (pe_prims W) m prin)),
     pk_ml_kem = b64_enc (pe_prims W) (snd (kem_gen (pe_prims W) (user_kem W m prin)))\<rparr>)"
proof -
  obtain s where s: "serving W m s" "answers_at E W prin (dv_tick d) s" using answers_serving [OF assms(1-3)] by blast
  then show ?thesis using pubkeys_answer [OF s(1)]
    by (simp add: my_pubkeys_def answers_at_def okD_def callD_def data_of_ok j_get_str_def run)
qed

lemma provider_event:
  assumes "prims_ok (en_prims E)" "provider_holds E seed g" "0 < now"
    and "create_signed_event jstr (Some (did_of_seed (en_prims E) seed)) (\<lambda>m. en_sign E k (as_bytes m)) now event_type payload = Inr ev"
  shows "verify_signed_event (en_prims E) jstr ev = Inr Valid"
proof -
  let ?m = "as_bytes (bytes_to_sign jstr event_type payload (did_of_seed (en_prims E) seed) now)"
  have "\<exists>r. en_sign E k ?m = Inr r \<and> j_get_str ''signature_hex'' (data_of r) = Some (ed_sign (ed_raw_sign (en_prims E)) ?m seed)"
    using assms(2) unfolding provider_holds_def Let_def by blast
  then obtain r where r: "en_sign E k ?m = Inr r" "j_get_str ''signature_hex'' (data_of r) = Some (ed_sign (ed_raw_sign (en_prims E)) ?m seed)"
    by blast
  have t: "event_type \<noteq> []" using assms(4) by (auto simp: create_signed_event_def)
  have "ev = signed_by (en_prims E) jstr seed event_type payload now"
    using assms(3,4) t r by (simp add: create_signed_event_def data_of_def [symmetric] signed_by_def did_of_seed_def Let_def did_key_prefix)
  then show ?thesis using signed_by_valid [OF assms(1) t assms(3)] by simp
qed

text \<open>A first start with an empty directory: the master is drawn and written.\<close>

lemma first_start:
  assumes "pe_mkdir_ok W" "pe_write_ok W" "length (pe_random W) = 32" "pv_node s = None" "pv_file s = None"
  shows "custody W (pe_random W) (snd (handle W Init s)) \<and> pv_node (snd (handle W Init s)) \<noteq> None"
  using assms by (simp add: spawn_def load_or_create_master_def custody_def node_ok_def cache_true_def)

text \<open>A start at which the file is there and cannot be read: the master is replaced, and the answer does
  not tell.\<close>

lemma unreadable_master_replaced:
  assumes "pe_mkdir_ok W" "\<not> pe_read_ok W" "pe_write_ok W" "length (pe_random W) = 32"
    and "custody W m s" "pv_node s = None"
  shows "custody W (pe_random W) (snd (handle W Init s)) \<and> fst (handle W Init s) = fst (handle (W\<lparr>pe_read_ok := True\<rparr>) Init
    \<lparr>pv_node = None, pv_file = None\<rparr>)"
  using assms by (simp add: spawn_def load_or_create_master_def custody_def node_ok_def cache_true_def)

section \<open>Apart\<close>

lemma split_at_sep:
  assumes "xs @ c # ys = xs' @ c # ys'" "c \<notin> set xs" "c \<notin> set xs'"
  shows "xs = xs' \<and> ys = ys'"
  using assms by (induction xs arbitrary: xs') (auto simp: Cons_eq_append_conv append_eq_Cons_conv)

lemma bundle_key_inj:
  "unit_sep \<notin> set p \<Longrightarrow> unit_sep \<notin> set p' \<Longrightarrow> bundle_key p n = bundle_key p' n' \<longleftrightarrow> p = p' \<and> n = n'"
  using split_at_sep [of p unit_sep n p' n'] by (auto simp: bundle_key_def)

text \<open>Two readings of one key: a principal that contains the separator.\<close>

lemma bundle_key_collision: "bundle_key ''a'' (''b'' @ unit_sep # ''c'') = bundle_key (''a'' @ unit_sep # ''b'') ''c''"
  by (simp add: bundle_key_def)

section \<open>Properties\<close>

text \<open>C9. The identity of a user is one key pair, however the program has been used and restarted: while
  the file of the master secret can be read, the calls an application makes through the gateway are answered
  for one seed and one KEM pair, those of its principal; the DID adopted from the program and the public keys
  put into invites are of the same two; and an event signed through it verifies.\<close>

theorem provider_keeps_identity:
  assumes "prims_ok (pe_prims W)" "hex_crate W" "custody W m s0" "answers_from E W prin s0"
  shows "provider_holds E (user_seed (pe_prims W) m prin) (user_kem W m prin) \<and>
    (\<forall>d. fst (adopt_provider_identity E d) = Inr (Some (did_of_seed (pe_prims W) (user_seed (pe_prims W) m prin)))) \<and>
    (\<forall>d. fst (my_pubkeys E d) = Inr (Some \<lparr>pk_x25519 = b64_enc (pe_prims W) (x_pub (pe_prims W) (user_seed (pe_prims W) m prin)),
       pk_ml_kem = b64_enc (pe_prims W) (snd (kem_gen (pe_prims W) (user_kem W m prin)))\<rparr>)) \<and>
    (\<forall>jstr k now t payload ev. 0 < now \<longrightarrow>
       create_signed_event jstr (Some (did_of_seed (pe_prims W) (user_seed (pe_prims W) m prin)))
         (\<lambda>x. en_sign E k (as_bytes x)) now t payload = Inr ev \<longrightarrow>
       verify_signed_event (pe_prims W) jstr ev = Inr Valid)"
proof -
  have e: "en_prims E = pe_prims W" using assms(4) by (simp add: answers_from_def)
  have h: "provider_holds E (user_seed (pe_prims W) m prin) (user_kem W m prin)"
    by (rule provider_holds_user [OF assms(4,3,1,2)])
  show ?thesis
    using h whoami_user [OF assms(4,3,1,2)] pubkeys_user [OF assms(4,3,1)] provider_event [OF _ h, unfolded e, OF assms(1)]
    by blast
qed

text \<open>C40. Different users, namespaces and purposes hash different bytes into their seeds, for principals
  and tags without the separator 0x1f.\<close>

theorem seeds_apart:
  assumes "length m = length m'" "unit_sep \<notin> set tag" "unit_sep \<notin> set tag'" "unit_sep \<notin> set p" "unit_sep \<notin> set p'"
  shows "seed_input m tag p n = seed_input m' tag' p' n' \<longleftrightarrow> m = m' \<and> tag = tag' \<and> p = p' \<and> n = n'"
proof -
  have i: "seed_input m tag p n = m @ 0x1f # as_bytes (bundle_key tag (bundle_key p n))" for m tag p n
    by (simp add: seed_input_def bundle_key_def)
  show ?thesis using assms by (auto simp: i as_bytes_inj bundle_key_inj)
qed

theorem seeds_apart_witness:
  "seed_input [7] ''ed25519'' ''person:a'' ''hey'' \<noteq> seed_input [7] ''ed25519'' ''person:b'' ''hey''"
  using seeds_apart [of "[7]" "[7]" "''ed25519''" "''ed25519''" "''person:a''" "''person:b''" "''hey''" "''hey''"]
  by (simp add: unit_sep_def)

text \<open>The witness: a first start, and an environment that asks the program as it is then.\<close>

definition sample_machine :: pv_env where
  "sample_machine = \<lparr>pe_prims = sample_prims 64, pe_chacha = (\<lambda>b. b), pe_point_ok = (\<lambda>_. True), pe_mkdir_ok = True,
     pe_read_ok = True, pe_write_ok = True, pe_partial = None, pe_random = replicate 32 7, pe_detail = [],
     pe_hex_enc = bytes_to_hex, pe_hex_dec = (\<lambda>s. case hex_to_bytes s of Inr b \<Rightarrow> Some b | Inl _ \<Rightarrow> None)\<rparr>"

definition started :: provider where
  "started = snd (handle sample_machine Init \<lparr>pv_node = None, pv_file = None\<rparr>)"

definition hosted_env :: env where
  "hosted_env = (let ask = (\<lambda>opn ms. Inr (gateway_answer sample_machine ''person:a'' opn ms started)) in
     sample_env\<lparr>en_whoami := (\<lambda>_. ask ''whoami'' (whoami_body HEY_NAMESPACE)),
       en_pubkeys := (\<lambda>_. ask ''pubkeys'' (pubkeys_body HEY_NAMESPACE)),
       en_sign := (\<lambda>_ m. ask ''sign'' (sign_body (sample_prims 64) HEY_NAMESPACE m)),
       en_dh := (\<lambda>_ p. ask ''x25519_dh'' (dh_body (sample_prims 64) HEY_NAMESPACE p)),
       en_decaps := (\<lambda>_ c. ask ''ml_kem_decapsulate'' (decaps_body (sample_prims 64) HEY_NAMESPACE c))\<rparr>)"

theorem provider_keeps_identity_witness:
  "provider_holds hosted_env (user_seed (sample_prims 64) (replicate 32 7) ''person:a'') (user_kem sample_machine (replicate 32 7) ''person:a'')"
proof -
  have P: "pe_prims sample_machine = sample_prims 64" "pe_read_ok sample_machine" "pe_random sample_machine = replicate 32 7"
      "hex_crate sample_machine"
    by (simp_all add: sample_machine_def hex_crate_def)
  have c: "custody sample_machine (replicate 32 7) started \<and> pv_node started \<noteq> None"
    using first_start [of sample_machine "\<lparr>pv_node = None, pv_file = None\<rparr>"] unfolding started_def P(3)
    by (simp add: sample_machine_def)
  have "answers_from hosted_env sample_machine ''person:a'' started"
    using c served_none [of sample_machine started] P
    by (auto simp: answers_from_def answers_at_def hosted_env_def Let_def sample_env_def)
  then show ?thesis
    using provider_keeps_identity [of sample_machine "replicate 32 7" started hosted_env "''person:a''"] sample_prims_ok [of 64] c P by simp
qed

end
