(* ===== verification/Spec2Isabelle.thy ===== *)
theory Spec2Isabelle
imports Events Padding Ratchet_Sync Attachments Peer_Receiver Wipe Plat Device_Link Anonymity Group_Rules Rotation Ratchet_Types Invite_Life Social_Runs Social_Merge Runtime_Session Identity_Provider
begin

text \<open>
  A model of the Hey capsules: an end-to-end encrypted chat engine (\<open>capsules/hey-core\<close>) that
  several applications share, and the social application on top of it (\<open>capsules/hey-social\<close>).
  Both are clients: they run in a browser or on a phone, and reach the network, the storage,
  the content store and the signing key through a local runtime.

  \<^bold>\<open>How the parts work together.\<close> A user is a \<open>did:key\<close>. Two users become contacts through
  an invite link and a handshake, or through keys known from a group or a follow. A message is
  signed by its sender, sealed for the recipient (a single-shot hybrid envelope, or a key of the
  Double Ratchet once both sides have one), cut into fragments and published on a topic that
  only the pair knows; what is not confirmed waits in an outbox. The polling loop drains the
  topics, puts the fragments together and gives each wire to \<open>receive_v2_wire\<close>, which opens it,
  checks it and stores it. Queues rotate, invites expire, groups travel as rosters inside
  messages. The social application adds public posts: bodies pinned by content address,
  announced as signed events, followed users, overlays (reactions, comments) and plain groups.

  \<^bold>\<open>Conventions.\<close> Bytes are 8-bit words, a Rust \<open>String\<close> the list of its UTF-8 bytes. A fallible
  function returns \<open>'a res\<close>, in which an \<open>Err\<close> and a panic are different values. An
  \<open>async fn\<close> is an \<open>'a io\<close>, a function from a device to a result and a device (\<open>Device\<close>); an
  error keeps the writes made before it. The files of an application are fields of the device,
  \<open>None\<close> being a file that is absent or does not decode, and every access may fail. The
  outside (clock, randomness, storage service, carrier, identity provider, content and blob
  stores, browser) is the record \<open>env\<close>: every answer is a function of the number of answers
  taken so far, so nothing is assumed about how two answers relate. The cryptographic
  primitives are the record \<open>prims\<close>; \<open>prims_ok\<close> states their documented laws (decryption
  undoes encryption, Diffie-Hellman agrees, a signature verifies), never that they are hard to
  break. \<open>serde_json\<close> on JSON values is \<open>en_text\<close> and \<open>en_parse\<close> (\<open>json_codec\<close>), \<open>ciborium\<close> is
  \<open>en_cbor\<close> and \<open>en_uncbor\<close> (\<open>cbor_codec\<close>). \<open>Samples\<close> instantiates all of them with concrete
  functions, on which the witnesses evaluate.

  \<^bold>\<open>The theories\<close>, with the sources they model.

  \<^item> \<open>Prelude\<close>, \<open>Text\<close>, \<open>Json\<close>, \<open>Interfaces\<close>: results, bytes, big-endian numbers, UTF-8 strings, JSON
    values; the contracts (codecs, keyed stores, systems with an invariant) as locales, each
    interpreted where a component provides it.
  \<^item> \<open>Identity\<close> (\<open>hey-core/src/identity.rs\<close>), \<open>Padding\<close>, \<open>Crypto\<close> (\<open>crypto.rs\<close>): hex, base58 and
    \<open>did:key\<close>; length-hiding paddings with the width of \<open>usize\<close> as a parameter; the hybrid
    envelope and the sealing of attachments. Round trips, exactness of the decoders, lengths.
  \<^item> \<open>Ratchet\<close>, \<open>Ratchet_Sync\<close>, \<open>Ratchet_Types\<close> (\<open>api/dms.rs\<close>): the Double Ratchet with rolling
    ML-KEM keys. The bound on skipped keys (1000 per message, 2000 stashed), no downgrade, typing
    of every reachable state, and agreement: two devices over a network that loses and
    reorders messages derive the same keys (an \<open>inductive\<close> step relation of the joint system and
    its invariant).
  \<^item> \<open>Frag\<close> (\<open>frag.rs\<close>), \<open>Outbox\<close> (\<open>api/outbox.rs\<close>), \<open>Events\<close> (\<open>events.rs\<close>), \<open>Carrier\<close>,
    \<open>Cid_Cache\<close>, \<open>Attachments\<close>, \<open>Device_Link\<close>, \<open>Plat\<close> (\<open>runtime.rs\<close>, \<open>plat.rs\<close>): fragmentation, the retry queue,
    canonical texts and signed events, waiting for a neighbour, the cache by content
    address, chunked attachments, device-link tokens, the loopback transport.
  \<^item> \<open>Records\<close>, \<open>Social_Data\<close>, \<open>Device\<close>, \<open>Wire\<close>, \<open>Contacts\<close>, \<open>Queues\<close>, \<open>Inner\<close>, \<open>Sending\<close>,
    \<open>Group_Chat\<close>, \<open>Invites\<close>, \<open>Receiving\<close>, \<open>Peer_Receiver\<close>, \<open>Wipe\<close> (\<open>api/dms.rs\<close>, \<open>peer_receiver.rs\<close>): the
    records, the monad, and one theory per group of operations of the chat engine, in the order
    of the source.
  \<^item> \<open>Frames\<close>, \<open>Delivery\<close>, \<open>Ratchet_Delivery\<close>, \<open>Authenticity\<close>, \<open>Handshake\<close>, \<open>Anonymity\<close>,
    \<open>Rotation\<close>, \<open>Group_Rules\<close>, \<open>Invite_Life\<close>: what spans them. \<open>Frames\<close> shows once which
    operations respect a relation between devices that ignores what they may change
    (\<open>tick_relation\<close>, \<open>quiet_relation\<close>); the others instantiate it. A sealed message is
    delivered; a log changes only by a payload its contact signed; a ratchet wire is received
    entirely or not at all; identifiers stay distinct; both ends of a handshake start in a
    joint state of the ratchet; what an anonymous contact sees does not depend on the user's
    identity; rotation refines an abstract step; declined groups stay away; an invite lives
    for 24 hours or until it is revoked.
  \<^item> \<open>Ipld\<close> (\<open>hey-social/src/ipld.rs\<close>), \<open>Social_Profile\<close> (\<open>api/profile.rs\<close>, \<open>media.rs\<close>), \<open>Social_Posts\<close>
    (\<open>api/posts.rs\<close>), \<open>Social_Groups\<close> (\<open>api/groups.rs\<close>), \<open>Social_Receiver\<close> (\<open>peer_receiver.rs\<close>,
    \<open>api/notifications.rs\<close>): the social application, on the same device and monad; the turn of the
    polling loop as it starts it is \<open>social_turn\<close>.
  \<^item> \<open>Social_Frames\<close>, \<open>Social_Feed\<close>, \<open>Social_Federation\<close>, \<open>Social_Merge\<close>: what its operations leave alone
    (the locale \<open>social_relation\<close> gives a \<open>quiet_relation\<close>, so the frames of the chat engine are
    reused); every entry of the feed is authorised by its author and the notifications are bounded;
    a post reaches a follower unchanged; the copies of a group merge in any order; deletions.
    \<open>Social_Samples\<close> and \<open>Social_Runs\<close> apply them to two concrete users.
  \<^item> \<open>Runtime\<close> (\<open>hey-core/src/runtime.rs\<close>, \<open>session.rs\<close>), \<open>Runtime_Session\<close>: the session of an
    application with its runtime as operations of a state monad over a browser tab: launch and
    capability tokens, provider calls, the two storage routes. The wait for a permission ends,
    the legacy route is taken only after a refusal, and a fresh launch keeps old tokens. The
    operations of the device rest on the answers of these calls only through \<open>env\<close>.
  \<^item> \<open>Identity_Provider\<close> (\<open>identity-projection-provider/src/main.rs\<close>): the program behind the runtime that
    holds the keys: requests, derivation of the keys of a principal, the cache, the file of the
    master secret. In every state it can be in (\<open>served\<close>) it answers the identity calls of \<open>env\<close> for
    one seed and one KEM pair, which is what \<open>provider_holds\<close> assumes elsewhere.

  \<^bold>\<open>Bounds and fuel.\<close> The only loop with a counter is \<open>wait_loop\<close>, whose 20 attempts are the
  code's own; every other loop is recursion on its data or has a measure. The polling loop
  is endless by design: one turn of it is modelled (\<open>run_turn\<close>). Integers that the code keeps in
  \<open>u32\<close>, \<open>i64\<close> or \<open>usize\<close> saturate, wrap or panic in the model where they do in the code
  (\<open>sat_add32\<close>, \<open>i64\<close>, the width parameter of \<open>Padding\<close>, \<open>empty_strings\<close>).

  \<^bold>\<open>Not modelled.\<close> The user interfaces (pages and components of \<open>hey-social\<close>, \<open>hey-chat/src/lib.rs\<close>) and the
  command-line front ends, which render and call the operations here; the mobile shells; the
  code that is HTTP and browser plumbing (\<open>fetch_raw\<close>, URL and history handling, the canvas);
  the other provider capsules, which are separate programs behind the runtime over iroh and IPFS; vendored crates.
  Concurrency inside one capsule is cooperative: an operation is a step of the model although
  the code can be interrupted at each \<open>await\<close>; the task the social application spawns for its
  backfill is an operation of its own. The answers of the outside are unrestricted, but two
  reads of the clock or of a file without an answer between them agree.
\<close>

end
